(* ===== verification/Prelude.thy ===== *)
theory Prelude
  imports Main "HOL-Library.State_Monad"
begin

text \<open>
  Shared vocabulary of the General Webhook development: the model's types, the Go
  library functions the sources call on strings, times and 64-bit integers, the
  fragments of SQL the store is written in, and the generic lemmas on them that the
  component theories use.

  \<^item> A Go string or byte slice is a \<open>string\<close>, one \<open>char\<close> per byte, so \<open>length\<close> is
    Go's \<open>len\<close>.
  \<^item> A \<open>time.Time\<close> is its count of nanoseconds since the Unix epoch and a
    \<open>time.Duration\<close> its count of nanoseconds, both as \<open>int\<close>; where 64-bit arithmetic
    can matter the code's operations are written through \<open>wrap64\<close>.
  \<^item> A SQL table is a list of rows, a nullable column an \<open>option\<close>; UPDATE, DELETE,
    SELECT and ORDER BY LIMIT 1 are the list functions below.
\<close>

section \<open>Collections of facts\<close>

named_theorems store_defs \<open>definitions of the store's operations\<close>
named_theorems keeps_intros \<open>preservation rules for the worker's monadic programs\<close>
named_theorems sql_simps \<open>rewriting of the SQL fragments\<close>

section \<open>Time\<close>

type_synonym gtime = int \<comment> \<open>nanoseconds since the epoch\<close>
type_synonym duration = int \<comment> \<open>nanoseconds\<close>

abbreviation (input) Millisecond :: duration where "Millisecond \<equiv> 1000000"
abbreviation (input) Second :: duration where "Second \<equiv> 1000000000"
abbreviation (input) Minute :: duration where "Minute \<equiv> 60000000000"
abbreviation (input) Hour :: duration where "Hour \<equiv> 3600000000000"

text \<open>\<open>time.Time.UnixMilli\<close> rounds towards the past, \<open>time.UnixMilli\<close> is exact;
  \<open>time.Duration.Milliseconds\<close> truncates towards zero.\<close>

definition UnixMilli :: "gtime \<Rightarrow> int" where
  "UnixMilli t = t div Millisecond"

definition fromUnixMilli :: "int \<Rightarrow> gtime" where
  "fromUnixMilli ms = ms * Millisecond"

definition Milliseconds :: "duration \<Rightarrow> int" where
  "Milliseconds d = (if d < 0 then - ((- d) div Millisecond) else d div Millisecond)"

lemma UnixMilli_fromUnixMilli [simp]: "UnixMilli (fromUnixMilli ms) = ms"
  by (simp add: UnixMilli_def fromUnixMilli_def)

lemma UnixMilli_mono: "s \<le> t \<Longrightarrow> UnixMilli s \<le> UnixMilli t"
  by (simp add: UnixMilli_def zdiv_mono1)

lemma fromUnixMilli_le_iff: "fromUnixMilli m \<le> t \<longleftrightarrow> m \<le> UnixMilli t"
  by (auto simp: fromUnixMilli_def UnixMilli_def)

section \<open>64-bit signed integers\<close>

definition max_int64 :: int where
  "max_int64 = 9223372036854775807"

definition wrap64 :: "int \<Rightarrow> int" where
  "wrap64 x = (x + 9223372036854775808) mod 18446744073709551616 - 9223372036854775808"

lemma wrap64_id: "- 9223372036854775808 \<le> x \<Longrightarrow> x \<le> max_int64 \<Longrightarrow> wrap64 x = x"
  by (simp add: wrap64_def max_int64_def)

lemma wrap64_range: "- 9223372036854775808 \<le> wrap64 x \<and> wrap64 x \<le> max_int64"
proof -
  have "0 \<le> (x + 9223372036854775808) mod 18446744073709551616"
    and "(x + 9223372036854775808) mod 18446744073709551616 < 18446744073709551616"
    by simp_all
  then show ?thesis by (simp add: wrap64_def max_int64_def)
qed

section \<open>Go strings\<close>

definition HasPrefix :: "string \<Rightarrow> string \<Rightarrow> bool" where
  "HasPrefix s p \<longleftrightarrow> take (length p) s = p"

definition HasSuffix :: "string \<Rightarrow> string \<Rightarrow> bool" where
  "HasSuffix s p \<longleftrightarrow> HasPrefix (rev s) (rev p)"

definition TrimPrefix :: "string \<Rightarrow> string \<Rightarrow> string" where
  "TrimPrefix s p = (if HasPrefix s p then drop (length p) s else s)"

definition TrimSuffix :: "string \<Rightarrow> string \<Rightarrow> string" where
  "TrimSuffix s p = (if HasSuffix s p then take (length s - length p) s else s)"

text \<open>\<open>strings.TrimSpace\<close> removes Unicode white space at both ends: the ASCII blanks
  and the UTF-8 encodings of U+0085, U+00A0, U+1680, U+2000..U+200A, U+2028, U+2029,
  U+202F, U+205F and U+3000.\<close>

definition space_encodings :: "string list" where
  "space_encodings =
    [[CHR 0x09], [CHR 0x0A], [CHR 0x0B], [CHR 0x0C], [CHR 0x0D], [CHR 0x20], [CHR 0xC2, CHR 0x85],
     [CHR 0xC2, CHR 0xA0], [CHR 0xE1, CHR 0x9A, CHR 0x80], [CHR 0xE2, CHR 0x80, CHR 0x80],
     [CHR 0xE2, CHR 0x80, CHR 0x81], [CHR 0xE2, CHR 0x80, CHR 0x82], [CHR 0xE2, CHR 0x80, CHR 0x83],
     [CHR 0xE2, CHR 0x80, CHR 0x84], [CHR 0xE2, CHR 0x80, CHR 0x85], [CHR 0xE2, CHR 0x80, CHR 0x86],
     [CHR 0xE2, CHR 0x80, CHR 0x87], [CHR 0xE2, CHR 0x80, CHR 0x88], [CHR 0xE2, CHR 0x80, CHR 0x89],
     [CHR 0xE2, CHR 0x80, CHR 0x8A], [CHR 0xE2, CHR 0x80, CHR 0xA8], [CHR 0xE2, CHR 0x80, CHR 0xA9],
     [CHR 0xE2, CHR 0x80, CHR 0xAF], [CHR 0xE2, CHR 0x81, CHR 0x9F], [CHR 0xE3, CHR 0x80, CHR 0x80]]"

function trim_left_with :: "string list \<Rightarrow> string \<Rightarrow> string" where
  "trim_left_with encs s =
     (case find (\<lambda>e. e \<noteq> [] \<and> HasPrefix s e) encs of
        None \<Rightarrow> s
      | Some e \<Rightarrow> if s = [] then s else trim_left_with encs (drop (length e) s))"
  by pat_completeness auto
termination
  by (relation "measure (\<lambda>(encs, s). length s)") (auto simp: find_Some_iff)

declare trim_left_with.simps [simp del]

definition TrimSpace :: "string \<Rightarrow> string" where
  "TrimSpace s =
     rev (trim_left_with (map rev space_encodings) (rev (trim_left_with space_encodings s)))"

text \<open>\<open>strings.ToLower\<close>, \<open>ToUpper\<close> and \<open>EqualFold\<close> on ASCII letters; bytes of other
  runes are left as they are.\<close>

definition lower_char :: "char \<Rightarrow> char" where
  "lower_char c = (let n = of_char c :: int in if 65 \<le> n \<and> n \<le> 90 then char_of (n + 32) else c)"

definition upper_char :: "char \<Rightarrow> char" where
  "upper_char c = (let n = of_char c :: int in if 97 \<le> n \<and> n \<le> 122 then char_of (n - 32) else c)"

definition ToLower :: "string \<Rightarrow> string" where
  "ToLower = map lower_char"

definition ToUpper :: "string \<Rightarrow> string" where
  "ToUpper = map upper_char"

definition EqualFold :: "string \<Rightarrow> string \<Rightarrow> bool" where
  "EqualFold s t \<longleftrightarrow> ToLower s = ToLower t"

text \<open>\<open>strings.Split\<close> with a one-byte separator and \<open>strings.Join\<close>.\<close>

fun Split :: "char \<Rightarrow> string \<Rightarrow> string list" where
  "Split c [] = [[]]"
| "Split c (x # xs) =
     (if x = c then [] # Split c xs
      else case Split c xs of [] \<Rightarrow> [[x]] | w # ws \<Rightarrow> (x # w) # ws)"

fun Join :: "string \<Rightarrow> string list \<Rightarrow> string" where
  "Join sep [] = []"
| "Join sep [w] = w"
| "Join sep (w # v # ws) = w @ sep @ Join sep (v # ws)"

fun Contains :: "string \<Rightarrow> string \<Rightarrow> bool" where
  "Contains [] p = (p = [])"
| "Contains (x # xs) p = (HasPrefix (x # xs) p \<or> Contains xs p)"

lemma HasPrefix_append [simp]: "HasPrefix (p @ s) p"
  by (simp add: HasPrefix_def)

lemma HasPrefix_iff: "HasPrefix s p \<longleftrightarrow> (\<exists>t. s = p @ t)"
  by (metis HasPrefix_append HasPrefix_def append_take_drop_id)

lemma TrimPrefix_append [simp]: "TrimPrefix (p @ s) p = s"
  by (simp add: TrimPrefix_def)

lemma length_trim_left_with: "length (trim_left_with encs s) \<le> length s"
proof (induction encs s rule: trim_left_with.induct)
  case (1 encs s)
  show ?case
  proof (cases "find (\<lambda>e. e \<noteq> [] \<and> HasPrefix s e) encs")
    case None
    then show ?thesis by (subst trim_left_with.simps) simp
  next
    case (Some e)
    show ?thesis
    proof (cases "s = []")
      case True
      with Some show ?thesis by (subst trim_left_with.simps) simp
    next
      case False
      with "1.IH" Some have "length (trim_left_with encs (drop (length e) s)) \<le> length (drop (length e) s)"
        by blast
      with Some False show ?thesis by (subst trim_left_with.simps) simp
    qed
  qed
qed

lemma length_TrimSpace: "length (TrimSpace s) \<le> length s"
  by (metis TrimSpace_def length_rev length_trim_left_with order_trans)

lemma Split_ne [simp]: "Split c s \<noteq> []"
  by (induction s) (auto split: list.splits)

lemma Join_Split: "Join [c] (Split c s) = s"
proof (induction s)
  case (Cons x xs)
  obtain w ws where "Split c xs = w # ws" by (cases "Split c xs") auto
  with Cons.IH show ?case by (cases ws) auto
qed simp

lemma Split_append: "Split c (x @ c # y) = Split c x @ Split c y"
proof (induction x)
  case (Cons a x)
  obtain w ws where "Split c x = w # ws" by (cases "Split c x") auto
  with Cons show ?case by simp
qed simp

lemma Split_no_sep: "s \<in> set (Split c xs) \<Longrightarrow> c \<notin> set s"
proof (induction xs arbitrary: s)
  case (Cons x xs)
  obtain w ws where "Split c xs = w # ws" by (cases "Split c xs") auto
  with Cons show ?case by (auto split: if_splits)
qed simp

lemma Split_whole: "c \<notin> set s \<Longrightarrow> Split c s = [s]"
  by (induction s) auto

lemma Split_Join:
  "list_all (\<lambda>s. c \<notin> set s) (w # ws) \<Longrightarrow> Split c (Join [c] (w # ws)) = w # ws"
proof (induction ws arbitrary: w)
  case Nil
  then show ?case by (simp add: Split_whole)
next
  case (Cons v ws)
  then show ?case by (simp add: Split_append Split_whole)
qed

definition is_digit :: "char \<Rightarrow> bool" where
  "is_digit c \<longleftrightarrow> (let n = of_char c :: int in 48 \<le> n \<and> n \<le> 57)"

text \<open>\<open>strconv.Itoa\<close> and the value a digit string denotes.\<close>

definition digit :: "int \<Rightarrow> char" where
  "digit d = (if d = 0 then CHR ''0'' else if d = 1 then CHR ''1'' else if d = 2 then CHR ''2'' else if d = 3 then CHR ''3''
     else if d = 4 then CHR ''4'' else if d = 5 then CHR ''5'' else if d = 6 then CHR ''6'' else if d = 7 then CHR ''7''
     else if d = 8 then CHR ''8'' else CHR ''9'')"

function decimal :: "int \<Rightarrow> string" where
  "decimal n = (if n < 10 then [digit n] else decimal (n div 10) @ [digit (n mod 10)])"
  by pat_completeness auto
termination by (relation "measure nat") auto

declare decimal.simps [simp del]

definition Itoa :: "int \<Rightarrow> string" where
  "Itoa n = (if n < 0 then CHR ''-'' # decimal (- n) else decimal n)"

lemma length_decimal: "n < 10 ^ k \<Longrightarrow> 0 < k \<Longrightarrow> length (decimal n) \<le> k"
proof (induction n arbitrary: k rule: decimal.induct)
  case (1 n)
  show ?case
  proof (cases "n < 10")
    case True
    with "1.prems" show ?thesis by (subst decimal.simps) simp
  next
    case False
    obtain j where k: "k = Suc j" using "1.prems" by (cases k) auto
    have "0 < j" using "1.prems"(1) False k by (cases j) auto
    moreover have "n div 10 < 10 ^ j" using "1.prems"(1) k by (simp add: div_less_iff_less_mult)
    ultimately have "length (decimal (n div 10)) \<le> j" using "1.IH" [OF False] by blast
    with False k show ?thesis by (subst decimal.simps) simp
  qed
qed

lemma length_Itoa: "0 \<le> n \<Longrightarrow> n < 10 ^ k \<Longrightarrow> 0 < k \<Longrightarrow> length (Itoa n) \<le> k"
  by (simp add: Itoa_def length_decimal)

fun undigits :: "int \<Rightarrow> string \<Rightarrow> int" where
  "undigits acc [] = acc"
| "undigits acc (c # cs) = undigits (acc * 10 + (of_char c - 48)) cs"

lemma undigits_append: "undigits acc (xs @ ys) = undigits (undigits acc xs) ys"
  by (induction xs arbitrary: acc) auto

lemma digit_val: "0 \<le> d \<Longrightarrow> d < 10 \<Longrightarrow> of_char (digit d) - 48 = d"
proof -
  assume "0 \<le> d" "d < 10"
  then have "d = 0 \<or> d = 1 \<or> d = 2 \<or> d = 3 \<or> d = 4 \<or> d = 5 \<or> d = 6 \<or> d = 7 \<or> d = 8 \<or> d = 9" by presburger
  then show "of_char (digit d) - 48 = d" by (auto simp: digit_def)
qed

lemma undigits_decimal: "0 \<le> n \<Longrightarrow> undigits 0 (decimal n) = n"
proof (induction n rule: decimal.induct)
  case (1 n)
  show ?case
  proof (cases "n < 10")
    case True
    with 1 digit_val [of n] show ?thesis by (subst decimal.simps) simp
  next
    case False
    with 1 digit_val [of "n mod 10"] show ?thesis by (subst decimal.simps) (simp add: undigits_append)
  qed
qed

lemma Itoa_inj: "0 \<le> m \<Longrightarrow> 0 \<le> n \<Longrightarrow> Itoa m = Itoa n \<Longrightarrow> m = n"
proof -
  assume mn: "0 \<le> m" "0 \<le> n" "Itoa m = Itoa n"
  then have "decimal m = decimal n" by (simp add: Itoa_def)
  then have "undigits 0 (decimal m) = undigits 0 (decimal n)" by (rule arg_cong)
  with mn show "m = n" by (simp only: undigits_decimal)
qed

lemma is_digit_digit: "0 \<le> d \<Longrightarrow> d < 10 \<Longrightarrow> is_digit (digit d)"
  using digit_val [of d] by (simp add: is_digit_def Let_def)

lemma decimal_digits: "0 \<le> n \<Longrightarrow> list_all is_digit (decimal n)"
proof (induction n rule: decimal.induct)
  case (1 n)
  then show ?case
    by (subst decimal.simps) (auto simp: is_digit_digit)
qed

lemma decimal_hd: "0 < n \<Longrightarrow> hd (decimal n) \<noteq> CHR ''0'' \<and> decimal n \<noteq> []"
proof (induction n rule: decimal.induct)
  case (1 n)
  show ?case
  proof (cases "n < 10")
    case True
    with 1(2) show ?thesis by (subst (1 2) decimal.simps) (simp add: digit_def)
  next
    case False
    then have "hd (decimal (n div 10)) \<noteq> CHR ''0'' \<and> decimal (n div 10) \<noteq> []" by (intro 1(1)) auto
    with False show ?thesis by (subst (1 2) decimal.simps) simp
  qed
qed

section \<open>Checks that return the first error\<close>

text \<open>A sequence of guarded early returns, in the order of the code, and sequencing of fallible
  steps.\<close>

fun first_err :: "(bool \<times> 'e) list \<Rightarrow> 'e option" where
  "first_err [] = None"
| "first_err ((bad, e) # gs) = (if bad then Some e else first_err gs)"

definition bindE :: "'e + 'a \<Rightarrow> ('a \<Rightarrow> 'e + 'b) \<Rightarrow> 'e + 'b" where
  "bindE r f = (case r of Inl e \<Rightarrow> Inl e | Inr x \<Rightarrow> f x)"

definition guardE :: "'e option \<Rightarrow> 'e + unit" where
  "guardE g = (case g of None \<Rightarrow> Inr () | Some e \<Rightarrow> Inl e)"

lemma first_err_None: "first_err gs = None \<longleftrightarrow> (\<forall>g \<in> set gs. \<not> fst g)"
  by (induction gs rule: first_err.induct) auto

lemma first_err_append: "first_err (xs @ ys) = (case first_err xs of None \<Rightarrow> first_err ys | Some e \<Rightarrow> Some e)"
  by (induction xs rule: first_err.induct) auto

lemma bindE_simps [simp]: "bindE (Inl e) f = Inl e" "bindE (Inr x) f = f x"
  by (simp_all add: bindE_def)

lemma bindE_Inr: "bindE r f = Inr y \<longleftrightarrow> (\<exists>x. r = Inr x \<and> f x = Inr y)"
  by (cases r) (auto simp: bindE_def)

lemma guardE_Inr [simp]: "guardE g = Inr u \<longleftrightarrow> g = None"
  by (cases g) (auto simp: guardE_def)

section \<open>SQL on lists of rows\<close>

definition coalesce :: "'a option \<Rightarrow> 'a \<Rightarrow> 'a" where
  "coalesce x d = (case x of None \<Rightarrow> d | Some v \<Rightarrow> v)"

definition update_where :: "('r \<Rightarrow> bool) \<Rightarrow> ('r \<Rightarrow> 'r) \<Rightarrow> 'r list \<Rightarrow> 'r list" where
  "update_where P f rows = map (\<lambda>r. if P r then f r else r) rows"

definition rows_affected :: "('r \<Rightarrow> bool) \<Rightarrow> 'r list \<Rightarrow> nat" where
  "rows_affected P rows = length (filter P rows)"

definition delete_where :: "('r \<Rightarrow> bool) \<Rightarrow> 'r list \<Rightarrow> 'r list" where
  "delete_where P rows = filter (\<lambda>r. \<not> P r) rows"

definition exists_where :: "('r \<Rightarrow> bool) \<Rightarrow> 'r list \<Rightarrow> bool" where
  "exists_where P rows = list_ex P rows"

text \<open>\<open>ORDER BY key LIMIT 1\<close>: a row of least key, the first of them in table order.\<close>

fun first_min :: "('r \<Rightarrow> int) \<Rightarrow> 'r list \<Rightarrow> 'r option" where
  "first_min k [] = None"
| "first_min k (r # rs) =
     (case first_min k rs of
        None \<Rightarrow> Some r
      | Some m \<Rightarrow> if k m < k r then Some m else Some r)"

lemma coalesce_simps [simp]: "coalesce None d = d" "coalesce (Some v) d = v"
  by (simp_all add: coalesce_def)

lemma update_where_Nil [simp]: "update_where P f [] = []"
  by (simp add: update_where_def)

lemma update_where_Cons [simp]:
  "update_where P f (r # rs) = (if P r then f r else r) # update_where P f rs"
  by (simp add: update_where_def)

lemma set_update_where [sql_simps]:
  "x \<in> set (update_where P f rows) \<longleftrightarrow> (\<exists>r \<in> set rows. x = (if P r then f r else r))"
  by (auto simp: update_where_def)

lemma ball_update_where [sql_simps]:
  "(\<forall>x \<in> set (update_where P f rows). Q x) \<longleftrightarrow> (\<forall>r \<in> set rows. if P r then Q (f r) else Q r)"
  by (auto simp: update_where_def)

lemma map_update_where [sql_simps]:
  "(\<And>r. g (f r) = g r) \<Longrightarrow> map g (update_where P f rows) = map g rows"
  by (simp add: update_where_def)

lemma length_update_where [simp]: "length (update_where P f rows) = length rows"
  by (simp add: update_where_def)

lemma update_where_none: "rows_affected P rows = 0 \<Longrightarrow> update_where P f rows = rows"
  by (induction rows) (auto simp: rows_affected_def split: if_splits)

lemma rows_affected_0 [sql_simps]: "rows_affected P rows = 0 \<longleftrightarrow> (\<forall>r \<in> set rows. \<not> P r)"
  by (simp add: rows_affected_def filter_empty_conv)

lemma exists_where_iff [sql_simps]: "exists_where P rows \<longleftrightarrow> (\<exists>r \<in> set rows. P r)"
  by (simp add: exists_where_def list_ex_iff)

lemma set_delete_where [sql_simps]: "set (delete_where P rows) = {r \<in> set rows. \<not> P r}"
  by (simp add: delete_where_def)

lemma distinct_map_delete_where: "distinct (map f rows) \<Longrightarrow> distinct (map f (delete_where P rows))"
  by (simp add: delete_where_def distinct_map_filter)

lemma length_filter_eq: "length (filter P xs) = length xs \<longleftrightarrow> (\<forall>x \<in> set xs. P x)"
  by (metis filter_True length_filter_less less_irrefl)

lemma first_min_None [simp]: "first_min k rs = None \<longleftrightarrow> rs = []"
  by (cases rs) (auto split: option.splits)

lemma first_min_Some:
  "first_min k rs = Some m \<Longrightarrow> m \<in> set rs \<and> (\<forall>r \<in> set rs. k m \<le> k r)"
  by (induction rs arbitrary: m) (fastforce split: option.splits if_splits)+

lemma find_distinct:
  "distinct (map f rows) \<Longrightarrow> r \<in> set rows \<Longrightarrow> find (\<lambda>x. f x = f r) rows = Some r"
  by (induction rows) force+

lemma distinct_map_unique:
  "distinct (map f rows) \<Longrightarrow> r \<in> set rows \<Longrightarrow> s \<in> set rows \<Longrightarrow> f r = f s \<Longrightarrow> r = s"
  by (metis distinct_map inj_onD)

lemma image_sameI:
  assumes "\<And>x. x \<in> A \<Longrightarrow> \<exists>y \<in> B. f y = f x" and "\<And>y. y \<in> B \<Longrightarrow> \<exists>x \<in> A. f x = f y"
  shows "f ` A = f ` B"
proof (intro equalityI image_subsetI)
  show "f x \<in> f ` B" if "x \<in> A" for x
    using assms(1) [OF that] by (auto simp: image_iff intro: sym)
  show "f y \<in> f ` A" if "y \<in> B" for y
    using assms(2) [OF that] by (auto simp: image_iff intro: sym)
qed

section \<open>Invariants of runs\<close>

text \<open>The one induction every safety argument of the development uses. A component is a
  function that executes one call; a run is a list of calls, in the order in which a lock
  or the single database connection serialises them. A predicate that each admissible call
  keeps holds after every run of admissible calls.\<close>

locale kept_by_runs =
  fixes exec :: "'c \<Rightarrow> 's \<Rightarrow> 's"
    and admissible :: "'c \<Rightarrow> bool"
    and inv :: "'s \<Rightarrow> bool"
  assumes exec_keeps: "inv s \<Longrightarrow> admissible c \<Longrightarrow> inv (exec c s)"
begin

lemma run_keeps: "inv s \<Longrightarrow> list_all admissible cs \<Longrightarrow> inv (fold exec cs s)"
  by (induction cs arbitrary: s) (auto intro: exec_keeps)

lemma run_keeps_prefix:
  "inv s \<Longrightarrow> list_all admissible (cs @ ds) \<Longrightarrow> inv (fold exec cs s)"
  by (simp add: run_keeps)

end

end
