(* ===== verification/Float64.thy ===== *)
theory Float64
  imports Complex_Main "HOL-Library.Log_Nat"
begin

text \<open>
  Arithmetic on Go's \<open>float64\<close>. A finite value is a rational; every operation rounds the exact
  result to the nearest rational with a 53-bit significand, ties to even, which is IEEE 754 double
  precision in the normal range (the gateway's tokens, rates and seconds lie between
  \<open>10^-11\<close> and \<open>10^15\<close>, far from underflow and overflow). The laws the rate limiter relies on
  are those of the locale \<open>rounding\<close>; they are discharged for \<open>f64\<close>.
\<close>

section \<open>Laws of rounding\<close>

text \<open>\<open>u\<close> bounds the relative error of one operation.\<close>

locale rounding =
  fixes rnd :: "rat \<Rightarrow> rat" and u :: rat
  assumes rnd_mono: "0 \<le> x \<Longrightarrow> x \<le> y \<Longrightarrow> rnd x \<le> rnd y"
    and rnd_int: "0 \<le> n \<Longrightarrow> n \<le> 2 ^ 53 \<Longrightarrow> rnd (of_int n) = of_int n"
    and rnd_upper: "0 \<le> x \<Longrightarrow> rnd x \<le> x * (1 + u)"
    and u_nonneg: "0 \<le> u"
begin

lemma rnd_0 [simp]: "rnd 0 = 0"
  using rnd_int [of 0] by simp

lemma rnd_nonneg: "0 \<le> x \<Longrightarrow> 0 \<le> rnd x"
  using rnd_mono [of 0 x] by simp

lemma rnd_sum_upper:
  assumes "0 \<le> x" "0 \<le> y" "x \<le> c"
  shows "rnd (x + y) \<le> x + c * u + y * (1 + u)"
proof -
  have "rnd (x + y) \<le> (x + y) * (1 + u)" using assms by (intro rnd_upper) simp
  also have "\<dots> = x + x * u + y * (1 + u)" by (simp add: algebra_simps)
  also have "\<dots> \<le> x + c * u + y * (1 + u)" using assms u_nonneg by (simp add: mult_right_mono)
  finally show ?thesis .
qed

end

section \<open>Rounding to 53 bits\<close>

definition round_half_even :: "rat \<Rightarrow> int" where
  "round_half_even m =
     (let f = \<lfloor>m\<rfloor>; r = m - of_int f in
      if r < 1 / 2 then f else if r > 1 / 2 then f + 1 else if even f then f else f + 1)"

text \<open>The exponent \<open>k\<close> with \<open>2^k \<le> q < 2^(k+1)\<close>, from the bit lengths of the fraction.\<close>

definition f64_exp :: "rat \<Rightarrow> int" where
  "f64_exp q = (let (n, d) = quotient_of q; k = bitlen n - bitlen d in if 2 powi k \<le> q then k else k - 1)"

definition f64 :: "rat \<Rightarrow> rat" where
  "f64 q = (if q = 0 then 0
     else let e = f64_exp \<bar>q\<bar> - 52 in sgn q * of_int (round_half_even (\<bar>q\<bar> / 2 powi e)) * 2 powi e)"

definition f64_u :: rat where
  "f64_u = 1 / 2 ^ 53"

lemma round_half_even_near: "\<bar>of_int (round_half_even m) - m\<bar> \<le> 1 / 2"
proof -
  have "of_int \<lfloor>m\<rfloor> \<le> m" "m < of_int \<lfloor>m\<rfloor> + 1" using floor_correct [of m] by simp_all
  then show ?thesis unfolding round_half_even_def Let_def abs_le_iff by (split if_split)+ (simp, linarith)
qed

lemma round_half_even_mono: "x \<le> y \<Longrightarrow> round_half_even x \<le> round_half_even y"
proof -
  assume xy: "x \<le> y"
  show ?thesis
  proof (cases "\<lfloor>x\<rfloor> = \<lfloor>y\<rfloor>")
    case True
    with xy show ?thesis unfolding round_half_even_def Let_def by auto
  next
    case False
    with xy have "\<lfloor>x\<rfloor> + 1 \<le> \<lfloor>y\<rfloor>" by (meson floor_mono le_less less_le_not_le zless_imp_add1_zle)
    then show ?thesis unfolding round_half_even_def Let_def by auto
  qed
qed

lemma round_half_even_int [simp]: "round_half_even (of_int n) = n"
  by (simp add: round_half_even_def)

lemma powi_rat_pos [simp]: "0 < (2 :: rat) powi k"
  by (simp add: zero_less_power_int)

lemma powi_rat_Suc: "(2 :: rat) powi (k + 1) = 2 * 2 powi k"
  by (simp add: power_int_add)

lemma bitlen_bounds_rat:
  fixes n :: int
  assumes "0 < n"
  shows "2 powi (bitlen n - 1) \<le> (of_int n :: rat)" "(of_int n :: rat) < 2 powi bitlen n"
proof -
  have 1: "2 ^ nat (bitlen n - 1) \<le> n" "n < 2 ^ nat (bitlen n)"
    using assms bitlen_bounds [of n] by auto
  have 2: "0 < bitlen n" using assms by (metis 1(2) not_gr0 not_less nat_0_iff power_0 zero_less_one zless_nat_eq_int_zless int_one_le_iff_zero_less)
  from 1(1) have "(of_int (2 ^ nat (bitlen n - 1)) :: rat) \<le> of_int n" by (simp only: of_int_le_iff)
  with 2 show "2 powi (bitlen n - 1) \<le> (of_int n :: rat)" by (simp add: power_int_def)
  from 1(2) have "(of_int n :: rat) < of_int (2 ^ nat (bitlen n))" by (simp only: of_int_less_iff)
  with 2 show "(of_int n :: rat) < 2 powi bitlen n" by (simp add: power_int_def)
qed

lemma f64_exp_bounds:
  assumes "0 < q"
  shows "2 powi f64_exp q \<le> q" "q < 2 powi (f64_exp q + 1)"
proof -
  obtain n d where nd: "quotient_of q = (n, d)" by (cases "quotient_of q")
  then have q: "q = of_int n / of_int d" and d: "0 < d"
    by (simp_all add: quotient_of_div quotient_of_denom_pos)
  have n: "0 < n" using assms q d by (simp add: zero_less_divide_iff)
  define k where "k = bitlen n - bitlen d"
  have low: "2 powi (k - 1) \<le> q"
  proof -
    have "(2 :: rat) powi (k - 1) = 2 powi (bitlen n - 1) / 2 powi bitlen d"
      by (simp add: k_def power_int_diff [symmetric] algebra_simps)
    also have "\<dots> \<le> of_int n / of_int d"
      using bitlen_bounds_rat [OF n] bitlen_bounds_rat [OF d] n d by (intro frac_le) auto
    finally show ?thesis using q by simp
  qed
  have high: "q < 2 powi (k + 1)"
  proof -
    have "of_int n / of_int d < (2 :: rat) powi bitlen n / 2 powi (bitlen d - 1)"
      using bitlen_bounds_rat [OF n] bitlen_bounds_rat [OF d] n by (intro frac_less) auto
    also have "\<dots> = 2 powi (k + 1)" by (simp add: k_def power_int_diff [symmetric] algebra_simps)
    finally show ?thesis using q by simp
  qed
  have e: "f64_exp q = (if 2 powi k \<le> q then k else k - 1)" by (simp add: f64_exp_def nd k_def)
  show "2 powi f64_exp q \<le> q" using low by (simp add: e)
  show "q < 2 powi (f64_exp q + 1)" using high by (simp add: e)
qed

lemma f64_exp_mono:
  assumes "0 < x" "x \<le> y"
  shows "f64_exp x \<le> f64_exp y"
proof (rule ccontr)
  assume "\<not> f64_exp x \<le> f64_exp y"
  then have "(2 :: rat) powi (f64_exp y + 1) \<le> 2 powi f64_exp x" by (intro power_int_increasing) auto
  with f64_exp_bounds(1) [of x] f64_exp_bounds(2) [of y] assms show False by linarith
qed

text \<open>Scaled to its exponent, a value lies between \<open>2^52\<close> and \<open>2^53\<close>, and so does its rounding.\<close>

lemma scaled_bounds:
  assumes "0 < q"
  shows "2 ^ 52 \<le> q / 2 powi (f64_exp q - 52)" "q / 2 powi (f64_exp q - 52) < 2 ^ 53"
    "2 ^ 52 \<le> round_half_even (q / 2 powi (f64_exp q - 52))" "round_half_even (q / 2 powi (f64_exp q - 52)) \<le> 2 ^ 53"
proof -
  have p: "(2 :: rat) powi f64_exp q = 2 ^ 52 * 2 powi (f64_exp q - 52)"
    "(2 :: rat) powi (f64_exp q + 1) = 2 ^ 53 * 2 powi (f64_exp q - 52)"
    using power_int_add [of "2 :: rat" "52" "f64_exp q - 52"] power_int_add [of "2 :: rat" "53" "f64_exp q - 52"]
    by (simp_all add: power_int_def [of _ 52] power_int_def [of _ 53] algebra_simps)
  show 1: "2 ^ 52 \<le> q / 2 powi (f64_exp q - 52)" and 2: "q / 2 powi (f64_exp q - 52) < 2 ^ 53"
    using f64_exp_bounds [OF assms] by (simp_all add: p pos_le_divide_eq pos_divide_less_eq)
  show "2 ^ 52 \<le> round_half_even (q / 2 powi (f64_exp q - 52))"
    using round_half_even_mono [of "of_int (2 ^ 52)"] 1 by (simp only: round_half_even_int) simp
  show "round_half_even (q / 2 powi (f64_exp q - 52)) \<le> 2 ^ 53"
    using round_half_even_mono [of _ "of_int (2 ^ 53)"] less_imp_le [OF 2] by (simp only: round_half_even_int) simp
qed

lemma f64_pos: "0 < q \<Longrightarrow> f64 q = of_int (round_half_even (q / 2 powi (f64_exp q - 52))) * 2 powi (f64_exp q - 52)"
  by (simp add: f64_def Let_def)

lemma f64_gt_0: "0 < q \<Longrightarrow> 0 < f64 q"
  using scaled_bounds(3) [of q] by (simp add: f64_pos)

lemma f64_mono:
  assumes "0 \<le> x" "x \<le> y"
  shows "f64 x \<le> f64 y"
proof (cases "x = 0")
  case True
  have "0 \<le> f64 y"
  proof (cases "y = 0")
    case False
    with assms True have y: "0 < y" by simp
    from scaled_bounds(3) [OF y] have "0 \<le> round_half_even (y / 2 powi (f64_exp y - 52))" by simp
    then show ?thesis by (simp add: f64_pos [OF y])
  qed (simp add: f64_def)
  with True show ?thesis by (simp add: f64_def)
next
  case False
  with assms have x: "0 < x" and y: "0 < y" by auto
  show ?thesis
  proof (cases "f64_exp x = f64_exp y")
    case True
    have "round_half_even (x / 2 powi (f64_exp y - 52)) \<le> round_half_even (y / 2 powi (f64_exp y - 52))"
      using assms by (intro round_half_even_mono divide_right_mono) auto
    then show ?thesis by (simp add: f64_pos [OF x] f64_pos [OF y] True mult_right_mono)
  next
    case False
    with f64_exp_mono [OF x assms(2)] have e: "f64_exp x - 52 + 1 \<le> f64_exp y - 52" by simp
    have "f64 x \<le> of_int (2 ^ 53) * 2 powi (f64_exp x - 52)"
      unfolding f64_pos [OF x] using scaled_bounds(4) [OF x] by (intro mult_right_mono) (simp_all only: of_int_le_iff, simp)
    also have "\<dots> = 2 ^ 52 * 2 powi (f64_exp x - 52 + 1)" by (simp only: powi_rat_Suc) simp
    also have "\<dots> \<le> 2 ^ 52 * 2 powi (f64_exp y - 52)" using e by (intro mult_left_mono power_int_increasing) auto
    also have "\<dots> = of_int (2 ^ 52) * 2 powi (f64_exp y - 52)" by simp
    also have "\<dots> \<le> f64 y"
      unfolding f64_pos [OF y] using scaled_bounds(3) [OF y] by (intro mult_right_mono) (simp_all only: of_int_le_iff, simp)
    finally show ?thesis .
  qed
qed

lemma f64_int:
  assumes "0 \<le> n" "n \<le> 2 ^ 53"
  shows "f64 (of_int n) = of_int n"
proof (cases "n = 0")
  case False
  with assms have n: "0 < (of_int n :: rat)" by simp
  define e where "e = f64_exp (of_int n)"
  show ?thesis
  proof (cases "e \<le> 52")
    case True
    have "(of_int n :: rat) / 2 powi (e - 52) = of_int (n * 2 ^ nat (52 - e))"
      using True by (simp add: power_int_def field_simps)
    then have "round_half_even (of_int n / 2 powi (e - 52)) = n * 2 ^ nat (52 - e)" by (simp only: round_half_even_int)
    then show ?thesis using True by (simp add: f64_pos [OF n] e_def [symmetric] power_int_def field_simps)
  next
    case False
    then have "(2 :: rat) powi 53 \<le> 2 powi e" by (intro power_int_increasing) auto
    with f64_exp_bounds(1) [OF n] e_def have "(2 :: rat) ^ 53 \<le> of_int n" by (simp add: power_int_def)
    then have "(of_int (2 ^ 53) :: rat) \<le> of_int n" by simp
    then have "2 ^ 53 \<le> n" by (simp only: of_int_le_iff)
    with assms have n53: "n = 2 ^ 53" by simp
    have "e = 53"
    proof (rule antisym)
      show "e \<le> 53"
      proof (rule ccontr)
        assume "\<not> e \<le> 53"
        then have "(2 :: rat) powi 54 \<le> 2 powi e" by (intro power_int_increasing) auto
        with f64_exp_bounds(1) [OF n] e_def n53 show False by (simp add: power_int_def)
      qed
    qed (use False in simp)
    moreover have "(of_int n :: rat) / 2 = of_int (2 ^ 52)" by (simp add: n53)
    ultimately have "f64 (of_int n) = of_int (round_half_even (of_int (2 ^ 52))) * 2"
      unfolding f64_pos [OF n] e_def [symmetric] by simp
    then show ?thesis by (simp only: round_half_even_int) (simp add: n53)
  qed
qed (simp add: f64_def)

lemma f64_upper:
  assumes "0 \<le> x"
  shows "f64 x \<le> x * (1 + f64_u)"
proof (cases "x = 0")
  case False
  with assms have x: "0 < x" by simp
  define s where "s = (2 :: rat) powi (f64_exp x - 52)"
  have s: "0 < s" by (simp add: s_def)
  have "of_int (round_half_even (x / s)) \<le> x / s + 1 / 2"
    using round_half_even_near [of "x / s"] by linarith
  then have "f64 x \<le> (x / s + 1 / 2) * s"
    unfolding f64_pos [OF x] s_def [symmetric] using s by (intro mult_right_mono) auto
  also have "\<dots> = x + s / 2" using s by (simp add: field_simps)
  also have "\<dots> \<le> x * (1 + f64_u)"
    using scaled_bounds(1) [OF x] s by (simp add: s_def [symmetric] f64_u_def field_simps)
  finally show ?thesis .
qed (simp add: f64_def)

interpretation f64: rounding f64 f64_u
proof unfold_locales
  show "0 \<le> f64_u" by (simp add: f64_u_def)
qed (fact f64_mono f64_int f64_upper)+

end
