(* ===== verification/Store.thy ===== *)
theory Store
  imports Complex_Main Prelude Float64
begin

text \<open>
  The SQLite outbox, \<^verbatim>\<open>internal/store/store.go\<close>: the tables as lists of rows and every
  method of \<^verbatim>\<open>Store\<close> that reads or writes them as a function on the database.

  A method is a function \<open>db \<Rightarrow> (store_err + 'a) \<times> db\<close>: the error or the result, and the
  database after it. A method that runs in a transaction either commits all of its
  statements or, on an error return, rolls all of them back, so each \<open>Inl\<close> branch
  returns the database it was given. Errors of the database itself (I/O, a busy lock, a
  cancelled context) can occur at any call and are added by the callers (theory
  \<open>Queue\<close>), again without an effect on the tables.

  The status columns hold one of the literals the code writes, so they are enumerations.
  \<open>received_at_ms\<close> is not an option: the migration fills it in for old rows before any
  method runs and every INSERT sets it. \<open>ORDER BY \<dots> LIMIT 1\<close> takes the first of equal
  rows in table order, which SQLite leaves open; no theorem depends on it.
\<close>

section \<open>Tables\<close>

datatype ev_status =
  Pending | Processing | Retrying | Done | Dead | Skipped | Partial | Error

datatype act_status = APending | ARunning | ARetrying | ADone | ADead

record event_row =
  ev_id :: string
  ev_source :: string
  ev_remote_ip :: "string option"
  ev_payload :: "string option"
  ev_status :: ev_status
  ev_received_at :: gtime
  ev_processed_at :: "gtime option"
  ev_external_delivery_id :: "string option"
  ev_body_sha256 :: "string option"
  ev_lease_until :: "gtime option"
  ev_lease_owner :: "string option"
  ev_config_hash :: "string option"
  ev_actions_json :: "string option"
  ev_vars_json :: "string option"
  ev_received_at_ms :: int
  ev_processed_at_ms :: "int option"
  ev_lease_until_ms :: "int option"
  ev_next_attempt_at_ms :: "int option"
  ev_replay_generation :: int
  ev_replayed_at_ms :: "int option"
  ev_replay_reason :: "string option"

record log_row =
  al_id :: nat
  al_event_id :: string
  al_action :: string
  al_action_index :: int
  al_replay_generation :: int
  al_target :: string
  al_attempt :: int
  al_success :: int
  al_detail :: string
  al_duration_ms :: int
  al_created_at :: gtime
  al_created_at_ms :: int

record action_row =
  ea_event_id :: string
  ea_action_index :: nat
  ea_status :: act_status
  ea_attempt_count :: int
  ea_next_attempt_at_ms :: "int option"
  ea_last_error :: "string option"
  ea_retry_after_ms :: "int option"
  ea_completed_at_ms :: "int option"

record guard_row =
  rg_source :: string
  rg_body_sha256 :: string
  rg_expires_at_ms :: int

record hb_row =
  hb_id :: nat
  hb_target :: string
  hb_origin :: string
  hb_mode :: string
  hb_health :: string
  hb_error :: string
  hb_http_status :: int
  hb_duration_ms :: int
  hb_created_at :: gtime
  hb_created_at_ms :: int

record db =
  db_events :: "event_row list"
  db_action_logs :: "log_row list"
  db_log_seq :: nat
  db_event_actions :: "action_row list"
  db_replay_guard :: "guard_row list"
  db_ready_check :: "int option"
  db_heartbeat_logs :: "hb_row list"
  db_hb_seq :: nat

definition empty_db :: db where
  "empty_db = \<lparr>db_events = [], db_action_logs = [], db_log_seq = 0, db_event_actions = [],
     db_replay_guard = [], db_ready_check = None, db_heartbeat_logs = [], db_hb_seq = 0\<rparr>"

datatype store_err =
    ErrDuplicateEvent | ErrDuplicateBody | ErrReplayUnavailable | ErrEventNotRetryable
  | ErrNoRows | ErrNotRequeueable string | ErrNotProcessing string | ErrNotRunning string nat
  | ErrNotPending string nat | ErrNoActionState string | ErrNotFound string | ErrDB

type_synonym 'a op = "db \<Rightarrow> (store_err + 'a) \<times> db"

text \<open>A fault of the database during a call: none, an error without an effect, or an error reported
  although the call took effect.\<close>

datatype fault = Fine | Lost | Late

definition with_fault :: "fault \<Rightarrow> 'a op \<Rightarrow> 'a op" where
  "with_fault ft f d =
     (case ft of
        Fine \<Rightarrow> f d
      | Lost \<Rightarrow> (Inl ErrDB, d)
      | Late \<Rightarrow> (Inl ErrDB, snd (f d)))"

section \<open>Rows handed to callers\<close>

record pending_event =
  pe_ID :: string
  pe_Source :: string
  pe_RemoteIP :: string
  pe_Payload :: string
  pe_VarsJSON :: string
  pe_ExternalDeliveryID :: string
  pe_ReceivedAt :: gtime
  pe_RetryStartedAt :: gtime
  pe_ConfigHash :: string
  pe_ActionsJSON :: string
  pe_ReplayGeneration :: int

record event_meta =
  em_ID :: string
  em_Source :: string
  em_RemoteIP :: string
  em_Status :: ev_status
  em_ReceivedAt :: gtime
  em_ProcessedAt :: "gtime option"
  em_ExternalDeliveryID :: string
  em_ConfigHash :: string
  em_ReplayGeneration :: int
  em_ReplayReason :: string

record action_state =
  as_Index :: nat
  as_Status :: act_status
  as_AttemptCount :: int
  as_NextAttemptMS :: int
  as_LastError :: string

record action_log_row =
  lr_Action :: string
  lr_ActionIndex :: int
  lr_ReplayGeneration :: int
  lr_Target :: string
  lr_Attempt :: int
  lr_Success :: bool
  lr_Detail :: string
  lr_DurationMS :: int
  lr_CreatedAt :: gtime

record queue_stats =
  qs_Pending :: nat
  qs_Processing :: nat
  qs_Retrying :: nat
  qs_Dead :: nat
  qs_Partial :: nat
  qs_Error :: nat
  qs_Done :: nat
  qs_Skipped :: nat
  qs_ActionsRetrying :: nat
  qs_ActionsDead :: nat
  qs_ActionAttempts5M :: nat
  qs_ActionFailures5M :: nat
  qs_ActionFailureRate5M :: rat
  qs_ActionAttempts1H :: nat
  qs_ActionFailures1H :: nat
  qs_ActionFailureRate1H :: rat
  qs_OldestPendingAgeMS :: int

section \<open>Accepting events\<close>

text \<open>The row an accepted webhook writes; columns it does not name take their defaults.\<close>

definition nullable :: "string \<Rightarrow> string option" where
  "nullable v = (if v = [] then None else Some v)"

definition new_event ::
  "string \<Rightarrow> string \<Rightarrow> string \<Rightarrow> string \<Rightarrow> gtime \<Rightarrow> string \<Rightarrow> string \<Rightarrow> string \<Rightarrow> string \<Rightarrow> event_row" where
  "new_event eid source ip payload atTime externalDeliveryID bodySHA256 configHash actionsJSON =
     \<lparr>ev_id = eid, ev_source = source, ev_remote_ip = Some ip, ev_payload = Some payload,
      ev_status = Pending, ev_received_at = atTime, ev_processed_at = None,
      ev_external_delivery_id = nullable externalDeliveryID, ev_body_sha256 = nullable bodySHA256,
      ev_lease_until = None, ev_lease_owner = None, ev_config_hash = nullable configHash,
      ev_actions_json = nullable actionsJSON, ev_vars_json = None,
      ev_received_at_ms = UnixMilli atTime, ev_processed_at_ms = None, ev_lease_until_ms = None,
      ev_next_attempt_at_ms = Some (UnixMilli atTime), ev_replay_generation = 0,
      ev_replayed_at_ms = None, ev_replay_reason = None\<rparr>"

text \<open>The replay-guard reservation: drop this key if it has expired, then INSERT OR IGNORE;
  \<open>None\<close> when the key is still held. The zero \<open>time.Time\<close> is \<open>None\<close>.\<close>

definition reserve_guard ::
  "string \<Rightarrow> string \<Rightarrow> gtime \<Rightarrow> gtime option \<Rightarrow> guard_row list \<Rightarrow> guard_row list option" where
  "reserve_guard source bodySHA256 atTime replayExpiresAt guards =
     (case replayExpiresAt of
        None \<Rightarrow> Some guards
      | Some expires \<Rightarrow>
          if bodySHA256 = [] then Some guards
          else
            let live = delete_where (\<lambda>g. rg_source g = source \<and> rg_body_sha256 g = bodySHA256 \<and>
                                         rg_expires_at_ms g \<le> UnixMilli atTime) guards
            in if exists_where (\<lambda>g. rg_source g = source \<and> rg_body_sha256 g = bodySHA256) live
               then None
               else Some (live @ [\<lparr>rg_source = source, rg_body_sha256 = bodySHA256,
                                   rg_expires_at_ms = UnixMilli expires\<rparr>]))"

text \<open>A new event conflicts with a stored one on the primary key, or on the partial unique
  index over (source, external_delivery_id).\<close>

definition has_delivery :: "event_row \<Rightarrow> bool" where
  "has_delivery e \<longleftrightarrow> ev_external_delivery_id e \<noteq> None \<and> ev_external_delivery_id e \<noteq> Some []"

definition delivery_key :: "event_row \<Rightarrow> string \<times> string option" where
  "delivery_key e = (ev_source e, ev_external_delivery_id e)"

definition event_conflict :: "event_row \<Rightarrow> event_row \<Rightarrow> bool" where
  "event_conflict new old \<longleftrightarrow>
     ev_id old = ev_id new \<or>
     (has_delivery new \<and> has_delivery old \<and> delivery_key old = delivery_key new)"

definition savePendingEvent ::
  "string \<Rightarrow> string \<Rightarrow> string \<Rightarrow> string \<Rightarrow> gtime \<Rightarrow> string \<Rightarrow> string \<Rightarrow> string \<Rightarrow> string \<Rightarrow>
   gtime option \<Rightarrow> unit op" where
  "savePendingEvent eid source ip payload atTime externalDeliveryID bodySHA256 configHash actionsJSON
     replayExpiresAt d =
     (case reserve_guard source bodySHA256 atTime replayExpiresAt (db_replay_guard d) of
        None \<Rightarrow> (Inl ErrDuplicateBody, d)
      | Some guards \<Rightarrow>
          let new = new_event eid source ip payload atTime externalDeliveryID bodySHA256 configHash actionsJSON
          in if exists_where (event_conflict new) (db_events d) then (Inl ErrDuplicateEvent, d)
             else (Inr (), d\<lparr>db_replay_guard := guards, db_events := db_events d @ [new]\<rparr>))"

definition SavePendingEvent ::
  "string \<Rightarrow> string \<Rightarrow> string \<Rightarrow> string \<Rightarrow> gtime \<Rightarrow> string \<Rightarrow> string \<Rightarrow> string \<Rightarrow> string \<Rightarrow> unit op" where
  "SavePendingEvent eid source ip payload atTime externalDeliveryID bodySHA256 configHash actionsJSON =
     savePendingEvent eid source ip payload atTime externalDeliveryID bodySHA256 configHash actionsJSON None"

definition SavePendingEventGuarded ::
  "string \<Rightarrow> string \<Rightarrow> string \<Rightarrow> string \<Rightarrow> gtime \<Rightarrow> string \<Rightarrow> string \<Rightarrow> string \<Rightarrow> string \<Rightarrow>
   gtime \<Rightarrow> unit op" where
  "SavePendingEventGuarded eid source ip payload atTime externalDeliveryID bodySHA256 configHash actionsJSON
     replayExpiresAt =
     savePendingEvent eid source ip payload atTime externalDeliveryID bodySHA256 configHash actionsJSON
       (Some replayExpiresAt)"

definition SaveEvent :: "string \<Rightarrow> string \<Rightarrow> string \<Rightarrow> string \<Rightarrow> gtime \<Rightarrow> unit op" where
  "SaveEvent eid source ip payload atTime = SavePendingEvent eid source ip payload atTime [] [] [] []"

definition HasRecentBodyHash :: "string \<Rightarrow> string \<Rightarrow> gtime \<Rightarrow> db \<Rightarrow> bool" where
  "HasRecentBodyHash source bodySHA256 since d =
     (if bodySHA256 = [] then False
      else exists_where (\<lambda>e. ev_source e = source \<and> ev_body_sha256 e = Some bodySHA256 \<and>
                             ev_received_at_ms e \<ge> UnixMilli since) (db_events d))"

section \<open>Leases\<close>

text \<open>The assignments several UPDATE statements share: a running action goes back to
  pending and its attempt is not counted; an event goes back to pending without a lease.\<close>

definition unrun :: "action_row \<Rightarrow> action_row" where
  "unrun a = a\<lparr>ea_status := APending, ea_next_attempt_at_ms := None,
     ea_attempt_count := (if ea_attempt_count a > 0 then ea_attempt_count a - 1 else 0)\<rparr>"

definition requeued :: "event_row \<Rightarrow> event_row" where
  "requeued e = e\<lparr>ev_status := Pending, ev_next_attempt_at_ms := Some (ev_received_at_ms e),
     ev_lease_until := None, ev_lease_until_ms := None, ev_lease_owner := None,
     ev_processed_at := None, ev_processed_at_ms := None\<rparr>"

definition claimable :: "int \<Rightarrow> event_row \<Rightarrow> bool" where
  "claimable nowMS e \<longleftrightarrow>
     ev_status e = Pending \<or>
     (ev_status e = Retrying \<and> coalesce (ev_next_attempt_at_ms e) 0 \<le> nowMS) \<or>
     (ev_status e = Processing \<and> coalesce (ev_lease_until_ms e) 0 < nowMS)"

definition due_key :: "event_row \<Rightarrow> int" where
  "due_key e = coalesce (ev_next_attempt_at_ms e) (ev_received_at_ms e)"

definition pending_of_row :: "event_row \<Rightarrow> pending_event" where
  "pending_of_row e =
     \<lparr>pe_ID = ev_id e, pe_Source = ev_source e, pe_RemoteIP = coalesce (ev_remote_ip e) [],
      pe_Payload = coalesce (ev_payload e) [], pe_VarsJSON = coalesce (ev_vars_json e) [],
      pe_ExternalDeliveryID = coalesce (ev_external_delivery_id e) [],
      pe_ReceivedAt = fromUnixMilli (ev_received_at_ms e),
      pe_RetryStartedAt = fromUnixMilli (coalesce (ev_replayed_at_ms e) (ev_received_at_ms e)),
      pe_ConfigHash = coalesce (ev_config_hash e) [], pe_ActionsJSON = coalesce (ev_actions_json e) [],
      pe_ReplayGeneration = ev_replay_generation e\<rparr>"

definition lease_or_default :: "duration \<Rightarrow> duration" where
  "lease_or_default lease = (if lease \<le> 0 then 2 * Minute else lease)"

definition leased :: "gtime \<Rightarrow> string \<Rightarrow> event_row \<Rightarrow> event_row" where
  "leased leaseUntil owner e = e\<lparr>ev_status := Processing, ev_lease_until := Some leaseUntil,
     ev_lease_until_ms := Some (UnixMilli leaseUntil), ev_lease_owner := Some owner\<rparr>"

definition ClaimPending :: "duration \<Rightarrow> gtime \<Rightarrow> string \<Rightarrow> pending_event option op" where
  "ClaimPending lease now owner d =
     (let nowMS = UnixMilli now in
      case first_min due_key (filter (claimable nowMS) (db_events d)) of
        None \<Rightarrow> (Inr None, d)
      | Some e \<Rightarrow>
          let hit = (\<lambda>r. ev_id r = ev_id e \<and> claimable nowMS r) in
          if rows_affected hit (db_events d) = 0 then (Inr None, d)
          else (Inr (Some (pending_of_row e)),
                d\<lparr>db_events := update_where hit (leased (now + lease_or_default lease) owner) (db_events d),
                  db_event_actions := update_where (\<lambda>a. ea_event_id a = ev_id e \<and> ea_status a = ARunning)
                                        unrun (db_event_actions d)\<rparr>))"

definition requeueProcessing :: "bool \<Rightarrow> (event_row \<Rightarrow> bool) \<Rightarrow> nat op" where
  "requeueProcessing recoverOrphans condition d =
     (let orphan = (\<lambda>e. ev_status e \<in> {Pending, Retrying} \<and>
                     exists_where (\<lambda>a. ea_event_id a = ev_id e \<and> ea_status a = ARunning) (db_event_actions d));
          orphanCount = (if recoverOrphans then rows_affected orphan (db_events d) else 0);
          events1 = (if recoverOrphans then update_where orphan requeued (db_events d) else db_events d);
          actions1 = (if recoverOrphans
                      then update_where (\<lambda>a. ea_status a = ARunning \<and>
                             exists_where (\<lambda>e. ev_id e = ea_event_id a \<and> ev_status e = Pending) events1)
                             unrun (db_event_actions d)
                      else db_event_actions d);
          stale = (\<lambda>e. ev_status e = Processing \<and> condition e);
          actions2 = update_where (\<lambda>a. ea_status a = ARunning \<and>
                       exists_where (\<lambda>e. ev_id e = ea_event_id a \<and> stale e) events1) unrun actions1;
          n = rows_affected stale events1;
          events2 = update_where stale requeued events1
      in (Inr (n + orphanCount), d\<lparr>db_event_actions := actions2, db_events := events2\<rparr>))"

definition RequeueExpiredLeases :: "gtime \<Rightarrow> nat op" where
  "RequeueExpiredLeases now =
     requeueProcessing False (\<lambda>e. coalesce (ev_lease_until_ms e) 0 < UnixMilli now)"

definition RequeueAllProcessing :: "nat op" where
  "RequeueAllProcessing = requeueProcessing True (\<lambda>e. True)"

definition RequeueEvent :: "string \<Rightarrow> unit op" where
  "RequeueEvent eid d =
     (let actions = update_where (\<lambda>a. ea_event_id a = eid \<and> ea_status a = ARunning) unrun (db_event_actions d);
          hit = (\<lambda>e. ev_id e = eid \<and> ev_status e = Processing)
      in if rows_affected hit (db_events d) = 0 then (Inl (ErrNotRequeueable eid), d)
         else (Inr (), d\<lparr>db_event_actions := actions,
                        db_events := update_where hit requeued (db_events d)\<rparr>))"

definition RenewLease :: "string \<Rightarrow> duration \<Rightarrow> gtime \<Rightarrow> string \<Rightarrow> unit op" where
  "RenewLease eid lease now owner d =
     (let until = now + lease_or_default lease;
          hit = (\<lambda>e. ev_id e = eid \<and> ev_status e = Processing \<and>
                     (ev_lease_owner e = Some owner \<or> ev_lease_owner e = None \<or> ev_lease_owner e = Some []))
      in if rows_affected hit (db_events d) = 0 then (Inl (ErrNotProcessing eid), d)
         else (Inr (), d\<lparr>db_events := update_where hit
                          (\<lambda>e. e\<lparr>ev_lease_until := Some until, ev_lease_until_ms := Some (UnixMilli until)\<rparr>)
                          (db_events d)\<rparr>))"

section \<open>Manual replay\<close>

definition replay_action :: "gtime \<Rightarrow> action_row \<Rightarrow> action_row" where
  "replay_action now a = a\<lparr>ea_status := APending, ea_attempt_count := 0,
     ea_next_attempt_at_ms := Some (UnixMilli now), ea_last_error := None, ea_retry_after_ms := None,
     ea_completed_at_ms := None\<rparr>"

definition replayed :: "string \<Rightarrow> gtime \<Rightarrow> int \<Rightarrow> event_row \<Rightarrow> event_row" where
  "replayed reason now nextGeneration e = e\<lparr>ev_status := Pending,
     ev_next_attempt_at_ms := Some (UnixMilli now), ev_processed_at := None, ev_processed_at_ms := None,
     ev_lease_until := None, ev_lease_until_ms := None, ev_lease_owner := None,
     ev_replay_generation := nextGeneration, ev_replayed_at_ms := Some (UnixMilli now),
     ev_replay_reason := Some reason\<rparr>"

definition ReplayDeadEvent :: "string \<Rightarrow> string \<Rightarrow> gtime \<Rightarrow> int op" where
  "ReplayDeadEvent eid reason now d =
     (case find (\<lambda>e. ev_id e = eid) (db_events d) of
        None \<Rightarrow> (Inl ErrEventNotRetryable, d)
      | Some e \<Rightarrow>
          if ev_status e \<noteq> Dead \<and> ev_status e \<noteq> Partial \<and> ev_status e \<noteq> Error
          then (Inl ErrEventNotRetryable, d)
          else if coalesce (ev_payload e) [] = [] \<and> coalesce (ev_vars_json e) [] = []
          then (Inl ErrReplayUnavailable, d)
          else
            let nextGeneration = ev_replay_generation e + 1
            in if rows_affected (\<lambda>r. ev_id r = eid) (db_events d) = 0 then (Inl ErrEventNotRetryable, d)
               else (Inr nextGeneration,
                     d\<lparr>db_event_actions := update_where (\<lambda>a. ea_event_id a = eid \<and> ea_status a = ADead)
                                              (replay_action now) (db_event_actions d),
                       db_events := update_where (\<lambda>r. ev_id r = eid) (replayed reason now nextGeneration)
                                      (db_events d)\<rparr>))"

text \<open>\<open>RetryFailedEvent\<close> reads the clock; the reading is its argument here.\<close>

definition RetryFailedEvent :: "string \<Rightarrow> gtime \<Rightarrow> unit op" where
  "RetryFailedEvent eid now d =
     (case ReplayDeadEvent eid ''manual replay'' now d of
        (Inl e, d') \<Rightarrow> (Inl e, d') | (Inr _, d') \<Rightarrow> (Inr (), d'))"

section \<open>Per-action state\<close>

definition new_action :: "string \<Rightarrow> nat \<Rightarrow> gtime \<Rightarrow> action_row" where
  "new_action eid i now = \<lparr>ea_event_id = eid, ea_action_index = i, ea_status = APending,
     ea_attempt_count = 0, ea_next_attempt_at_ms = Some (UnixMilli now), ea_last_error = None,
     ea_retry_after_ms = None, ea_completed_at_ms = None\<rparr>"

definition action_key :: "action_row \<Rightarrow> string \<times> nat" where
  "action_key a = (ea_event_id a, ea_action_index a)"

text \<open>The INSERT OR IGNORE loop over \<open>i = 0 \<dots> actionCount - 1\<close>.\<close>

definition insert_action :: "string \<Rightarrow> gtime \<Rightarrow> nat \<Rightarrow> action_row list \<Rightarrow> action_row list" where
  "insert_action eid now i rows =
     (if exists_where (\<lambda>a. action_key a = (eid, i)) rows then rows else rows @ [new_action eid i now])"

definition insert_actions :: "string \<Rightarrow> gtime \<Rightarrow> nat \<Rightarrow> action_row list \<Rightarrow> action_row list" where
  "insert_actions eid now n rows = fold (insert_action eid now) [0..<n] rows"

definition PrepareEvent :: "string \<Rightarrow> string \<Rightarrow> nat \<Rightarrow> bool \<Rightarrow> gtime \<Rightarrow> unit op" where
  "PrepareEvent eid varsJSON actionCount clearPayload now d =
     (let hit = (\<lambda>e. ev_id e = eid \<and> ev_status e = Processing);
          events1 = update_where hit (\<lambda>e. e\<lparr>ev_vars_json := Some varsJSON\<rparr>) (db_events d);
          events2 = (if clearPayload
                     then update_where (\<lambda>e. ev_id e = eid) (\<lambda>e. e\<lparr>ev_payload := None\<rparr>) events1
                     else events1)
      in if rows_affected hit (db_events d) = 0 then (Inl (ErrNotProcessing eid), d)
         else (Inr (), d\<lparr>db_event_actions := insert_actions eid now actionCount (db_event_actions d),
                        db_events := events2\<rparr>))"

definition state_of_row :: "action_row \<Rightarrow> action_state" where
  "state_of_row a = \<lparr>as_Index = ea_action_index a, as_Status = ea_status a,
     as_AttemptCount = ea_attempt_count a, as_NextAttemptMS = coalesce (ea_next_attempt_at_ms a) 0,
     as_LastError = coalesce (ea_last_error a) []\<rparr>"

definition actions_of :: "string \<Rightarrow> db \<Rightarrow> action_row list" where
  "actions_of eid d = filter (\<lambda>a. ea_event_id a = eid) (db_event_actions d)"

definition ListActionStates :: "string \<Rightarrow> db \<Rightarrow> action_state list" where
  "ListActionStates eventID d = map state_of_row (sort_key ea_action_index (actions_of eventID d))"

definition startable :: "string \<Rightarrow> nat \<Rightarrow> gtime \<Rightarrow> action_row \<Rightarrow> bool" where
  "startable eventID index now a \<longleftrightarrow>
     ea_event_id a = eventID \<and> ea_action_index a = index \<and> ea_status a \<in> {APending, ARetrying} \<and>
     coalesce (ea_next_attempt_at_ms a) 0 \<le> UnixMilli now"

definition started :: "action_row \<Rightarrow> action_row" where
  "started a = a\<lparr>ea_status := ARunning, ea_attempt_count := ea_attempt_count a + 1,
     ea_next_attempt_at_ms := None\<rparr>"

definition StartAction :: "string \<Rightarrow> nat \<Rightarrow> gtime \<Rightarrow> int op" where
  "StartAction eventID index now d =
     (case find (startable eventID index now) (db_event_actions d) of
        None \<Rightarrow> (Inl ErrNoRows, d)
      | Some a \<Rightarrow> (Inr (ea_attempt_count (started a)),
                   d\<lparr>db_event_actions := update_where (startable eventID index now) started (db_event_actions d)\<rparr>))"

definition updateRunningAction :: "string \<Rightarrow> nat \<Rightarrow> (action_row \<Rightarrow> action_row) \<Rightarrow> unit op" where
  "updateRunningAction eventID index assignment d =
     (let hit = (\<lambda>a. ea_event_id a = eventID \<and> ea_action_index a = index \<and> ea_status a = ARunning)
      in if rows_affected hit (db_event_actions d) = 0 then (Inl (ErrNotRunning eventID index), d)
         else (Inr (), d\<lparr>db_event_actions := update_where hit assignment (db_event_actions d)\<rparr>))"

definition CompleteAction :: "string \<Rightarrow> nat \<Rightarrow> gtime \<Rightarrow> unit op" where
  "CompleteAction eventID index now = updateRunningAction eventID index
     (\<lambda>a. a\<lparr>ea_status := ADone, ea_next_attempt_at_ms := None, ea_last_error := None,
            ea_retry_after_ms := None, ea_completed_at_ms := Some (UnixMilli now)\<rparr>)"

definition ScheduleActionRetry :: "string \<Rightarrow> nat \<Rightarrow> gtime \<Rightarrow> string \<Rightarrow> duration \<Rightarrow> unit op" where
  "ScheduleActionRetry eventID index next detail retryAfter = updateRunningAction eventID index
     (\<lambda>a. a\<lparr>ea_status := ARetrying, ea_next_attempt_at_ms := Some (UnixMilli next),
            ea_last_error := Some detail, ea_retry_after_ms := Some (Milliseconds retryAfter),
            ea_completed_at_ms := None\<rparr>)"

definition DeadAction :: "string \<Rightarrow> nat \<Rightarrow> string \<Rightarrow> gtime \<Rightarrow> unit op" where
  "DeadAction eventID index detail now = updateRunningAction eventID index
     (\<lambda>a. a\<lparr>ea_status := ADead, ea_next_attempt_at_ms := None, ea_last_error := Some detail,
            ea_retry_after_ms := None, ea_completed_at_ms := Some (UnixMilli now)\<rparr>)"

definition ExpireAction :: "string \<Rightarrow> nat \<Rightarrow> gtime \<Rightarrow> unit op" where
  "ExpireAction eventID index now d =
     (let hit = (\<lambda>a. ea_event_id a = eventID \<and> ea_action_index a = index \<and>
                     ea_status a \<in> {APending, ARetrying})
      in if rows_affected hit (db_event_actions d) = 0 then (Inl (ErrNotPending eventID index), d)
         else (Inr (), d\<lparr>db_event_actions := update_where hit
                 (\<lambda>a. a\<lparr>ea_status := ADead, ea_next_attempt_at_ms := None,
                        ea_last_error := Some ''maximum retry age exceeded'', ea_retry_after_ms := None,
                        ea_completed_at_ms := Some (UnixMilli now)\<rparr>) (db_event_actions d)\<rparr>))"

section \<open>Event status\<close>

definition count_status :: "act_status \<Rightarrow> action_row list \<Rightarrow> nat" where
  "count_status st rows = length (filter (\<lambda>a. ea_status a = st) rows)"

text \<open>\<open>MIN(CASE WHEN status = 'retrying' THEN next_attempt_at_ms END)\<close>: NULLs do not count.\<close>

definition min_retry :: "action_row list \<Rightarrow> int option" where
  "min_retry rows =
     (case List.map_filter (\<lambda>a. if ea_status a = ARetrying then ea_next_attempt_at_ms a else None) rows of
        [] \<Rightarrow> None
      | x # xs \<Rightarrow> Some (fold min xs x))"

text \<open>The SELECT of \<open>RefreshEventStatus\<close> and the decision on its counts: the status, the
  processed time and the next due time to write. \<open>None\<close> when there is no action row.\<close>

definition aggregate :: "action_row list \<Rightarrow> int \<Rightarrow> (ev_status \<times> int option \<times> int option) option" where
  "aggregate rows nowMS =
     (let total = length rows; done' = count_status ADone rows; dead = count_status ADead rows;
          retrying = count_status ARetrying rows; pending = count_status APending rows;
          running = count_status ARunning rows; next = min_retry rows
      in if total = 0 then None
         else if done' = total then Some (Done, Some nowMS, None)
         else if dead > 0 \<and> done' + dead = total then Some (Dead, Some nowMS, None)
         else if retrying > 0 then
           Some (Retrying, None, Some (coalesce next nowMS))
         else if pending > 0 \<or> running > 0 then Some (Pending, None, Some nowMS)
         else Some (Pending, None, Some nowMS))"

definition refreshed :: "gtime \<Rightarrow> ev_status \<times> int option \<times> int option \<Rightarrow> event_row \<Rightarrow> event_row" where
  "refreshed now r e = (case r of (status, processed, due) \<Rightarrow>
     e\<lparr>ev_status := status, ev_processed_at := (case processed of None \<Rightarrow> None | Some _ \<Rightarrow> Some now),
       ev_processed_at_ms := processed, ev_next_attempt_at_ms := due,
       ev_lease_until := None, ev_lease_until_ms := None, ev_lease_owner := None\<rparr>)"

text \<open>\<open>RefreshEventStatus\<close> is two statements outside a transaction: the SELECT whose result is
  decided on, and the UPDATE. \<open>refresh_write\<close> is the second one on its own.\<close>

definition refresh_write ::
  "string \<Rightarrow> gtime \<Rightarrow> ev_status \<times> int option \<times> int option \<Rightarrow> ev_status op" where
  "refresh_write eventID now r d =
     (if rows_affected (\<lambda>e. ev_id e = eventID) (db_events d) = 0 then (Inl (ErrNotFound eventID), d)
      else (Inr (fst r), d\<lparr>db_events := update_where (\<lambda>e. ev_id e = eventID) (refreshed now r) (db_events d)\<rparr>))"

definition RefreshEventStatus :: "string \<Rightarrow> gtime \<Rightarrow> ev_status op" where
  "RefreshEventStatus eventID now d =
     (case aggregate (actions_of eventID d) (UnixMilli now) of
        None \<Rightarrow> (Inl (ErrNoActionState eventID), d)
      | Some r \<Rightarrow> refresh_write eventID now r d)"

definition HasEvent :: "string \<Rightarrow> db \<Rightarrow> bool" where
  "HasEvent eid d = exists_where (\<lambda>e. ev_id e = eid) (db_events d)"

definition UpdateEventStatus :: "string \<Rightarrow> ev_status \<Rightarrow> gtime \<Rightarrow> unit op" where
  "UpdateEventStatus eid status atTime d =
     (if rows_affected (\<lambda>e. ev_id e = eid) (db_events d) = 0 then (Inl (ErrNotFound eid), d)
      else (Inr (), d\<lparr>db_events := update_where (\<lambda>e. ev_id e = eid)
              (\<lambda>e. e\<lparr>ev_status := status, ev_processed_at := Some atTime, ev_processed_at_ms := Some (UnixMilli atTime),
                     ev_next_attempt_at_ms := None, ev_lease_until := None, ev_lease_until_ms := None,
                     ev_lease_owner := None\<rparr>) (db_events d)\<rparr>))"

definition ClearPayload :: "string \<Rightarrow> unit op" where
  "ClearPayload eid d =
     (Inr (), d\<lparr>db_events := update_where (\<lambda>e. ev_id e = eid) (\<lambda>e. e\<lparr>ev_payload := None\<rparr>) (db_events d)\<rparr>)"

section \<open>Audit log\<close>

definition boolToInt :: "bool \<Rightarrow> int" where
  "boolToInt v = (if v then 1 else 0)"

text \<open>The audit INSERT, and the method around it: the existence check is a statement of its
  own, outside a transaction.\<close>

definition insert_log ::
  "string \<Rightarrow> int \<Rightarrow> int \<Rightarrow> string \<Rightarrow> string \<Rightarrow> int \<Rightarrow> bool \<Rightarrow> string \<Rightarrow> duration \<Rightarrow> gtime \<Rightarrow> unit op" where
  "insert_log eventID actionIndex generation action target attempt success detail dur atTime d =
     (Inr (), d\<lparr>db_log_seq := db_log_seq d + 1,
        db_action_logs := db_action_logs d @
          [\<lparr>al_id = db_log_seq d + 1, al_event_id = eventID, al_action = action,
            al_action_index = actionIndex, al_replay_generation = generation, al_target = target,
            al_attempt = attempt, al_success = boolToInt success, al_detail = detail,
            al_duration_ms = Milliseconds dur, al_created_at = atTime, al_created_at_ms = UnixMilli atTime\<rparr>]\<rparr>)"

definition SaveActionAttemptLog ::
  "string \<Rightarrow> int \<Rightarrow> int \<Rightarrow> string \<Rightarrow> string \<Rightarrow> int \<Rightarrow> bool \<Rightarrow> string \<Rightarrow> duration \<Rightarrow> gtime \<Rightarrow> unit op" where
  "SaveActionAttemptLog eventID actionIndex generation action target attempt success detail dur atTime d =
     (if \<not> exists_where (\<lambda>e. ev_id e = eventID) (db_events d) then (Inl (ErrNotFound eventID), d)
      else insert_log eventID actionIndex generation action target attempt success detail dur atTime d)"

definition SaveActionLog ::
  "string \<Rightarrow> string \<Rightarrow> string \<Rightarrow> int \<Rightarrow> bool \<Rightarrow> string \<Rightarrow> duration \<Rightarrow> gtime \<Rightarrow> unit op" where
  "SaveActionLog eventID action target attempt success detail dur atTime =
     SaveActionAttemptLog eventID (-1) 0 action target attempt success detail dur atTime"

definition GetPayload :: "string \<Rightarrow> db \<Rightarrow> store_err + (string \<times> string)" where
  "GetPayload eid d =
     (case find (\<lambda>e. ev_id e = eid) (db_events d) of
        None \<Rightarrow> Inl ErrNoRows
      | Some e \<Rightarrow> Inr (coalesce (ev_payload e) [], ev_source e))"

definition GetEvent :: "string \<Rightarrow> db \<Rightarrow> event_meta option" where
  "GetEvent eid d = map_option
     (\<lambda>e. \<lparr>em_ID = ev_id e, em_Source = ev_source e, em_RemoteIP = coalesce (ev_remote_ip e) [],
           em_Status = ev_status e, em_ReceivedAt = fromUnixMilli (ev_received_at_ms e),
           em_ProcessedAt = map_option fromUnixMilli (ev_processed_at_ms e),
           em_ExternalDeliveryID = coalesce (ev_external_delivery_id e) [],
           em_ConfigHash = coalesce (ev_config_hash e) [], em_ReplayGeneration = ev_replay_generation e,
           em_ReplayReason = coalesce (ev_replay_reason e) []\<rparr>)
     (find (\<lambda>e. ev_id e = eid) (db_events d))"

definition log_of_row :: "log_row \<Rightarrow> action_log_row" where
  "log_of_row r = \<lparr>lr_Action = al_action r, lr_ActionIndex = al_action_index r,
     lr_ReplayGeneration = al_replay_generation r, lr_Target = al_target r, lr_Attempt = al_attempt r,
     lr_Success = (al_success r \<noteq> 0), lr_Detail = al_detail r, lr_DurationMS = al_duration_ms r,
     lr_CreatedAt = fromUnixMilli (al_created_at_ms r)\<rparr>"

definition ListActionLogs :: "string \<Rightarrow> int \<Rightarrow> db \<Rightarrow> action_log_row list" where
  "ListActionLogs eventID limit d =
     (let n = (if limit \<le> 0 then 20 else limit)
      in map log_of_row (take (nat n) (rev (sort_key al_id
           (filter (\<lambda>r. al_event_id r = eventID) (db_action_logs d))))))"

section \<open>Statistics, readiness and retention\<close>

definition event_count :: "ev_status \<Rightarrow> db \<Rightarrow> nat" where
  "event_count st d = length (filter (\<lambda>e. ev_status e = st) (db_events d))"

definition failure_rate :: "nat \<Rightarrow> nat \<Rightarrow> rat" where
  "failure_rate failures attempts = (if attempts > 0 then f64 (f64 (of_nat failures) / f64 (of_nat attempts)) else 0)"

definition Stats :: "gtime \<Rightarrow> db \<Rightarrow> queue_stats" where
  "Stats now d =
     (let fiveMinutesAgo = UnixMilli (now - 5 * Minute); oneHourAgo = UnixMilli (now - Hour);
          hour = filter (\<lambda>r. al_created_at_ms r \<ge> oneHourAgo) (db_action_logs d);
          attempts5 = length (filter (\<lambda>r. al_created_at_ms r \<ge> fiveMinutesAgo) hour);
          failures5 = length (filter (\<lambda>r. al_created_at_ms r \<ge> fiveMinutesAgo \<and> al_success r = 0) hour);
          attempts1 = length hour;
          failures1 = length (filter (\<lambda>r. al_success r = 0) hour);
          unfinished = map ev_received_at_ms
             (filter (\<lambda>e. ev_status e \<in> {Pending, Processing, Retrying}) (db_events d));
          oldestAge = (case unfinished of
               [] \<Rightarrow> 0
             | x # xs \<Rightarrow> let oldest = fold min xs x
                         in if UnixMilli now > oldest then UnixMilli now - oldest else 0)
      in \<lparr>qs_Pending = event_count Pending d, qs_Processing = event_count Processing d,
          qs_Retrying = event_count Retrying d, qs_Dead = event_count Dead d,
          qs_Partial = event_count Partial d, qs_Error = event_count Error d,
          qs_Done = event_count Done d, qs_Skipped = event_count Skipped d,
          qs_ActionsRetrying = count_status ARetrying (db_event_actions d),
          qs_ActionsDead = count_status ADead (db_event_actions d),
          qs_ActionAttempts5M = attempts5, qs_ActionFailures5M = failures5,
          qs_ActionFailureRate5M = failure_rate failures5 attempts5,
          qs_ActionAttempts1H = attempts1, qs_ActionFailures1H = failures1,
          qs_ActionFailureRate1H = failure_rate failures1 attempts1,
          qs_OldestPendingAgeMS = oldestAge\<rparr>)"

definition ReadyCheck :: "unit op" where
  "ReadyCheck d = (Inr (), d\<lparr>db_ready_check :=
     Some (case db_ready_check d of None \<Rightarrow> 1 | Some nonce \<Rightarrow> 1 - nonce)\<rparr>)"

definition purgeable :: "gtime \<Rightarrow> event_row \<Rightarrow> bool" where
  "purgeable cutoff e \<longleftrightarrow>
     coalesce (ev_processed_at_ms e) (ev_received_at_ms e) < UnixMilli cutoff \<and>
     ev_status e \<in> {Done, Dead, Skipped, Partial, Error}"

text \<open>\<open>PurgeOlderThan\<close> compares the replay guards with the wall clock, read inside.\<close>

definition PurgeOlderThan :: "gtime \<Rightarrow> gtime \<Rightarrow> nat op" where
  "PurgeOlderThan cutoff wallNow d =
     (let gone = (\<lambda>eid. exists_where (\<lambda>e. ev_id e = eid \<and> purgeable cutoff e) (db_events d))
      in (Inr (rows_affected (purgeable cutoff) (db_events d)),
          d\<lparr>db_action_logs := delete_where (\<lambda>r. gone (al_event_id r)) (db_action_logs d),
            db_event_actions := delete_where (\<lambda>a. gone (ea_event_id a)) (db_event_actions d),
            db_events := delete_where (purgeable cutoff) (db_events d),
            db_replay_guard := delete_where (\<lambda>g. rg_expires_at_ms g < UnixMilli wallNow) (db_replay_guard d),
            db_heartbeat_logs := delete_where (\<lambda>h. hb_created_at_ms h < UnixMilli cutoff)
                                   (db_heartbeat_logs d)\<rparr>))"

section \<open>Writes of the other store files\<close>

text \<open>The compare-and-set UPDATE of \<^verbatim>\<open>snapshots.go\<close> and the INSERT of
  \<^verbatim>\<open>heartbeat_logs.go\<close>.\<close>

definition update_snapshot :: "string \<Rightarrow> string \<Rightarrow> string \<Rightarrow> nat op" where
  "update_snapshot eid raw updated d =
     (let hit = (\<lambda>e. ev_id e = eid \<and> ev_actions_json e = Some raw)
      in (Inr (rows_affected hit (db_events d)),
          d\<lparr>db_events := update_where hit (\<lambda>e. e\<lparr>ev_actions_json := Some updated\<rparr>) (db_events d)\<rparr>))"

definition insert_heartbeat :: "hb_row \<Rightarrow> unit op" where
  "insert_heartbeat entry d =
     (Inr (), d\<lparr>db_hb_seq := db_hb_seq d + 1,
                db_heartbeat_logs := db_heartbeat_logs d @ [entry\<lparr>hb_id := db_hb_seq d + 1\<rparr>]\<rparr>)"

lemmas store_op_defs [store_defs] =
  savePendingEvent_def SavePendingEvent_def SavePendingEventGuarded_def ClaimPending_def
  requeueProcessing_def RequeueEvent_def RenewLease_def ReplayDeadEvent_def PrepareEvent_def
  StartAction_def updateRunningAction_def ExpireAction_def refresh_write_def RefreshEventStatus_def
  UpdateEventStatus_def ClearPayload_def insert_log_def SaveActionAttemptLog_def ReadyCheck_def PurgeOlderThan_def update_snapshot_def insert_heartbeat_def

end
