(* ===== verification/Store_Invariant.thy ===== *)
theory Store_Invariant
  imports Store
begin

text \<open>
  The well-formedness of the outbox tables and the proof that every method keeps it. The
  step relation \<open>db_step\<close> has one rule per statement or transaction that writes, with
  arbitrary arguments: a run of it is any interleaving of workers, lease heartbeats, the
  HTTP server, the retention loop and the start-up code on the single connection.
\<close>

section \<open>Well-formed rows and tables\<close>

definition event_ok :: "event_row \<Rightarrow> bool" where
  "event_ok e \<longleftrightarrow>
     (ev_lease_until_ms e = map_option UnixMilli (ev_lease_until e)) \<and>
     (ev_processed_at_ms e = map_option UnixMilli (ev_processed_at e)) \<and>
     (ev_status e = Processing \<longrightarrow> ev_lease_until e \<noteq> None \<and> ev_lease_owner e \<noteq> None) \<and>
     (ev_status e \<noteq> Processing \<longrightarrow> ev_lease_until e = None \<and> ev_lease_owner e = None) \<and>
     (ev_status e \<in> {Pending, Processing, Retrying} \<longrightarrow> ev_processed_at e = None) \<and>
     (ev_status e \<in> {Pending, Retrying} \<longrightarrow> ev_next_attempt_at_ms e \<noteq> None) \<and>
     (ev_status e \<in> {Done, Dead, Skipped} \<longrightarrow> ev_processed_at e \<noteq> None \<and> ev_next_attempt_at_ms e = None) \<and>
     0 \<le> ev_replay_generation e"

definition action_ok :: "action_row \<Rightarrow> bool" where
  "action_ok a \<longleftrightarrow>
     0 \<le> ea_attempt_count a \<and>
     (ea_status a \<in> {ARunning, ARetrying, ADone} \<longrightarrow> 1 \<le> ea_attempt_count a) \<and>
     (ea_status a \<in> {ARunning, ADone, ADead} \<longrightarrow> ea_next_attempt_at_ms a = None) \<and>
     (ea_status a = ARetrying \<longrightarrow> ea_next_attempt_at_ms a \<noteq> None \<and> ea_last_error a \<noteq> None) \<and>
     (ea_status a = ADone \<longrightarrow> ea_last_error a = None) \<and>
     (ea_status a = ADead \<longrightarrow> ea_last_error a \<noteq> None) \<and>
     (ea_completed_at_ms a \<noteq> None \<longleftrightarrow> ea_status a \<in> {ADone, ADead})"

definition guard_key :: "guard_row \<Rightarrow> string \<times> string" where
  "guard_key g = (rg_source g, rg_body_sha256 g)"

definition events_ok :: "event_row list \<Rightarrow> bool" where
  "events_ok es \<longleftrightarrow> distinct (map ev_id es) \<and>
     distinct (map delivery_key (filter has_delivery es)) \<and> list_all event_ok es"

definition actions_ok :: "action_row list \<Rightarrow> bool" where
  "actions_ok as \<longleftrightarrow> distinct (map action_key as) \<and> list_all action_ok as"

definition logs_ok :: "nat \<Rightarrow> log_row list \<Rightarrow> bool" where
  "logs_ok seq rows \<longleftrightarrow> distinct (map al_id rows) \<and> list_all (\<lambda>r. al_id r \<le> seq) rows"

definition db_ok :: "db \<Rightarrow> bool" where
  "db_ok d \<longleftrightarrow> events_ok (db_events d) \<and> actions_ok (db_event_actions d) \<and>
     distinct (map guard_key (db_replay_guard d)) \<and> logs_ok (db_log_seq d) (db_action_logs d) \<and>
     list_all (\<lambda>a. ea_event_id a \<in> ev_id ` set (db_events d)) (db_event_actions d)"

lemma db_ok_empty [simp]: "db_ok empty_db"
  by (simp add: db_ok_def empty_db_def events_ok_def actions_ok_def logs_ok_def)

section \<open>Updates of one table\<close>

text \<open>An UPDATE that leaves the keys alone keeps the table's uniqueness; what remains is
  that the new row is well formed.\<close>

definition same_keys :: "(event_row \<Rightarrow> event_row) \<Rightarrow> bool" where
  "same_keys f \<longleftrightarrow> (\<forall>e. ev_id (f e) = ev_id e \<and> ev_source (f e) = ev_source e \<and>
     ev_external_delivery_id (f e) = ev_external_delivery_id e)"

lemma map_filter_update_where:
  "(\<And>r. g (f r) = g r) \<Longrightarrow> (\<And>r. h (f r) = h r) \<Longrightarrow>
   map g (filter h (update_where P f rows)) = map g (filter h rows)"
  by (induction rows) auto

lemma events_ok_update:
  assumes "events_ok es" and "same_keys f"
    and "\<And>e. e \<in> set es \<Longrightarrow> P e \<Longrightarrow> event_ok e \<Longrightarrow> event_ok (f e)"
  shows "events_ok (update_where P f es)"
proof -
  have ids: "map ev_id (update_where P f es) = map ev_id es"
    using assms(2) by (intro map_update_where) (simp add: same_keys_def)
  have keys: "map delivery_key (filter has_delivery (update_where P f es)) =
      map delivery_key (filter has_delivery es)"
    using assms(2) by (intro map_filter_update_where) (simp_all add: same_keys_def delivery_key_def has_delivery_def)
  have "list_all event_ok (update_where P f es)"
    using assms(1,3) by (auto simp: events_ok_def list_all_iff sql_simps)
  with assms(1) ids keys show ?thesis by (simp add: events_ok_def)
qed

lemma ids_update_where:
  "same_keys f \<Longrightarrow> ev_id ` set (update_where P f es) = ev_id ` set es"
  by (metis list.set_map map_update_where same_keys_def)

lemma actions_ok_update:
  assumes "actions_ok as" and "\<And>a. action_key (f a) = action_key a"
    and "\<And>a. a \<in> set as \<Longrightarrow> P a \<Longrightarrow> action_ok a \<Longrightarrow> action_ok (f a)"
  shows "actions_ok (update_where P f as)"
proof -
  have "map action_key (update_where P f as) = map action_key as"
    using assms(2) by (rule map_update_where)
  moreover have "list_all action_ok (update_where P f as)"
    using assms(1,3) by (auto simp: actions_ok_def list_all_iff sql_simps)
  ultimately show ?thesis using assms(1) by (simp add: actions_ok_def)
qed

lemma owners_update_where:
  "(\<And>a. action_key (f a) = action_key a) \<Longrightarrow>
   ea_event_id ` set (update_where P f as) = ea_event_id ` set as"
  by (metis (mono_tags, lifting) action_key_def list.set_map map_update_where prod.inject)

lemma db_ok_events:
  "db_ok d \<Longrightarrow> events_ok es \<Longrightarrow> ev_id ` set es = ev_id ` set (db_events d) \<Longrightarrow> db_ok (d\<lparr>db_events := es\<rparr>)"
  by (auto simp: db_ok_def list_all_iff)

lemma db_ok_actions:
  "db_ok d \<Longrightarrow> actions_ok as \<Longrightarrow> ea_event_id ` set as \<subseteq> ev_id ` set (db_events d) \<Longrightarrow>
   db_ok (d\<lparr>db_event_actions := as\<rparr>)"
  by (auto simp: db_ok_def list_all_iff)

lemma db_ok_update_events:
  assumes "db_ok d" and "same_keys f"
    and "\<And>e. e \<in> set (db_events d) \<Longrightarrow> P e \<Longrightarrow> event_ok e \<Longrightarrow> event_ok (f e)"
  shows "db_ok (d\<lparr>db_events := update_where P f (db_events d)\<rparr>)"
proof (rule db_ok_events)
  show "events_ok (update_where P f (db_events d))"
    using assms by (intro events_ok_update) (auto simp: db_ok_def)
  show "ev_id ` set (update_where P f (db_events d)) = ev_id ` set (db_events d)"
    using assms(2) by (rule ids_update_where)
qed (rule assms(1))

lemma db_ok_owners: "db_ok d \<Longrightarrow> ea_event_id ` set (db_event_actions d) \<subseteq> ev_id ` set (db_events d)"
  by (auto simp: db_ok_def list_all_iff)

lemma db_ok_update_actions:
  assumes "db_ok d" and "\<And>a. action_key (f a) = action_key a"
    and "\<And>a. a \<in> set (db_event_actions d) \<Longrightarrow> P a \<Longrightarrow> action_ok a \<Longrightarrow> action_ok (f a)"
  shows "db_ok (d\<lparr>db_event_actions := update_where P f (db_event_actions d)\<rparr>)"
proof (rule db_ok_actions)
  show "actions_ok (update_where P f (db_event_actions d))"
    using assms by (intro actions_ok_update) (auto simp: db_ok_def)
  show "ea_event_id ` set (update_where P f (db_event_actions d)) \<subseteq> ev_id ` set (db_events d)"
    using assms(1,2) by (simp add: owners_update_where db_ok_owners)
qed (rule assms(1))

lemmas row_assignments = unrun_def requeued_def leased_def replay_action_def replayed_def started_def
  refreshed_def action_key_def

lemma same_keys_assignments [simp]:
  "same_keys requeued" "same_keys (leased t w)" "same_keys (replayed r t n)" "same_keys (refreshed t x)"
  "same_keys (\<lambda>e. e\<lparr>ev_payload := p\<rparr>)" "same_keys (\<lambda>e. e\<lparr>ev_vars_json := v\<rparr>)"
  "same_keys (\<lambda>e. e\<lparr>ev_actions_json := v\<rparr>)"
  "same_keys (\<lambda>e. e\<lparr>ev_lease_until := u, ev_lease_until_ms := m\<rparr>)"
  "same_keys (\<lambda>e. e\<lparr>ev_status := st, ev_processed_at := pa, ev_processed_at_ms := pm,
      ev_next_attempt_at_ms := na, ev_lease_until := u, ev_lease_until_ms := m, ev_lease_owner := ow\<rparr>)"
  by (auto simp: same_keys_def row_assignments split: prod.splits)

lemma action_key_assignments [simp]:
  "action_key (unrun a) = action_key a" "action_key (replay_action t a) = action_key a"
  "action_key (started a) = action_key a"
  by (simp_all add: row_assignments)

section \<open>Each method keeps the tables well formed\<close>

lemma event_ok_requeued: "event_ok e \<Longrightarrow> event_ok (requeued e)"
  by (simp add: event_ok_def requeued_def)

lemma action_ok_unrun: "action_ok a \<Longrightarrow> ea_status a = ARunning \<Longrightarrow> action_ok (unrun a)"
  by (auto simp: action_ok_def unrun_def)

lemma db_ok_unrun:
  "db_ok d \<Longrightarrow> db_ok (d\<lparr>db_event_actions := update_where (\<lambda>a. Q a \<and> ea_status a = ARunning) unrun (db_event_actions d)\<rparr>)"
  by (rule db_ok_update_actions) (auto intro: action_ok_unrun)

lemma reserve_guard_distinct:
  assumes "reserve_guard src body t ex gs = Some gs'" and "distinct (map guard_key gs)"
  shows "distinct (map guard_key gs')"
  using assms
  by (auto simp: reserve_guard_def Let_def guard_key_def sql_simps distinct_map_delete_where
      split: option.splits if_splits)

lemma event_ok_new [simp]: "event_ok (new_event eid src ip pl t deliv body cfg acts)"
  by (simp add: event_ok_def new_event_def)

lemma events_ok_insert:
  "events_ok es \<Longrightarrow> \<not> exists_where (event_conflict new) es \<Longrightarrow> event_ok new \<Longrightarrow> events_ok (es @ [new])"
  by (auto simp: events_ok_def sql_simps event_conflict_def)

lemma db_ok_savePendingEvent:
  assumes "db_ok d"
  shows "db_ok (snd (savePendingEvent eid src ip pl t deliv body cfg acts ex d))"
proof (cases "reserve_guard src body t ex (db_replay_guard d)")
  case None
  with assms show ?thesis by (simp add: savePendingEvent_def)
next
  case (Some gs)
  let ?new = "new_event eid src ip pl t deliv body cfg acts"
  show ?thesis
  proof (cases "exists_where (event_conflict ?new) (db_events d)")
    case True
    with assms Some show ?thesis by (simp add: savePendingEvent_def)
  next
    case False
    have "events_ok (db_events d @ [?new])"
      using assms False by (intro events_ok_insert) (simp_all add: db_ok_def)
    moreover have "distinct (map guard_key gs)"
      using reserve_guard_distinct [OF Some] assms by (simp add: db_ok_def)
    ultimately show ?thesis
      using assms Some False by (auto simp: savePendingEvent_def db_ok_def list_all_iff)
  qed
qed

lemma db_ok_ClaimPending: assumes "db_ok d" shows "db_ok (snd (ClaimPending lease now owner d))"
proof (cases "first_min due_key (filter (claimable (UnixMilli now)) (db_events d))")
  case None
  with assms show ?thesis by (simp add: ClaimPending_def)
next
  case (Some e)
  let ?hit = "\<lambda>r. ev_id r = ev_id e \<and> claimable (UnixMilli now) r"
  let ?d1 = "d\<lparr>db_events := update_where ?hit (leased (now + lease_or_default lease) owner) (db_events d)\<rparr>"
  have "db_ok ?d1"
    using assms by (rule db_ok_update_events) (auto simp: event_ok_def leased_def claimable_def)
  then have "db_ok (?d1\<lparr>db_event_actions := update_where (\<lambda>a. ea_event_id a = ev_id e \<and> ea_status a = ARunning)
      unrun (db_event_actions ?d1)\<rparr>)"
    by (rule db_ok_unrun)
  with assms Some show ?thesis by (simp add: ClaimPending_def Let_def)
qed

lemma db_ok_unrun2:
  "db_ok d \<Longrightarrow> db_ok (d\<lparr>db_event_actions := update_where (\<lambda>a. ea_status a = ARunning \<and> Q a) unrun (db_event_actions d)\<rparr>)"
  by (rule db_ok_update_actions) (auto intro: action_ok_unrun)

lemma db_ok_requeue_rows:
  "db_ok d \<Longrightarrow> db_ok (d\<lparr>db_events := update_where P requeued (db_events d)\<rparr>)"
  by (rule db_ok_update_events) (auto intro: event_ok_requeued)

lemma db_ok_requeueProcessing:
  assumes "db_ok d" shows "db_ok (snd (requeueProcessing orphans cond d))"
  using db_ok_requeue_rows [OF db_ok_unrun2 [OF db_ok_unrun2 [OF db_ok_requeue_rows [OF assms]]]]
    db_ok_requeue_rows [OF db_ok_unrun2 [OF assms]]
  by (cases orphans) (simp_all add: requeueProcessing_def Let_def)

lemma db_ok_RequeueEvent: "db_ok d \<Longrightarrow> db_ok (snd (RequeueEvent eid d))"
  using db_ok_requeue_rows [OF db_ok_unrun] by (simp add: RequeueEvent_def Let_def)

lemma db_ok_RenewLease: assumes "db_ok d" shows "db_ok (snd (RenewLease eid lease now owner d))"
  using assms by (auto simp: RenewLease_def Let_def event_ok_def intro!: db_ok_update_events)

lemma db_ok_ReplayDeadEvent:
  assumes "db_ok d" shows "db_ok (snd (ReplayDeadEvent eid reason now d))"
proof -
  have acts: "db_ok (d'\<lparr>db_event_actions := update_where (\<lambda>a. ea_event_id a = eid \<and> ea_status a = ADead)
      (replay_action now) (db_event_actions d')\<rparr>)" if "db_ok d'" for d'
    using that by (rule db_ok_update_actions) (auto simp: action_ok_def replay_action_def action_key_def)
  have evs: "db_ok (d'\<lparr>db_events := update_where (\<lambda>r. ev_id r = eid) (replayed reason now n) (db_events d')\<rparr>)"
    if "db_ok d'" "0 \<le> n" for d' n
    using that(1) by (rule db_ok_update_events) (use that(2) in \<open>auto simp: event_ok_def replayed_def\<close>)
  have gen: "0 \<le> ev_replay_generation e + 1" if "find (\<lambda>e. ev_id e = eid) (db_events d) = Some e" for e
    using assms that by (auto simp: db_ok_def events_ok_def event_ok_def list_all_iff find_Some_iff)
  show ?thesis
    using assms acts evs [OF acts [OF assms]] gen
    by (auto simp: ReplayDeadEvent_def Let_def split: option.splits)
qed

lemma actions_ok_insert_action:
  "actions_ok as \<Longrightarrow> actions_ok (insert_action eid now i as)"
  by (auto simp: actions_ok_def insert_action_def sql_simps action_ok_def new_action_def action_key_def)

lemma actions_ok_insert_actions: "actions_ok as \<Longrightarrow> actions_ok (insert_actions eid now n as)"
  unfolding insert_actions_def
  by (rule fold_invariant [where Q = "\<lambda>_. True"]) (auto intro: actions_ok_insert_action)

lemma owners_insert_actions:
  "ea_event_id ` set (insert_actions eid now n as) \<subseteq> insert eid (ea_event_id ` set as)"
proof -
  have step: "ea_event_id ` set (insert_action eid now i rows) \<subseteq> insert eid (ea_event_id ` set rows)" for i and rows :: "action_row list"
    by (auto simp: insert_action_def new_action_def)
  show ?thesis
    unfolding insert_actions_def
  proof (rule fold_invariant [where Q = "\<lambda>_. True" and
        P = "\<lambda>rows :: action_row list. ea_event_id ` set rows \<subseteq> insert eid (ea_event_id ` set as)"])
    fix i and rows :: "action_row list"
    assume "ea_event_id ` set rows \<subseteq> insert eid (ea_event_id ` set as)"
    with step [of i rows] show "ea_event_id ` set (insert_action eid now i rows) \<subseteq> insert eid (ea_event_id ` set as)"
      by blast
  qed auto
qed

lemma db_ok_PrepareEvent:
  assumes "db_ok d" shows "db_ok (snd (PrepareEvent eid vars n clear now d))"
proof (cases "rows_affected (\<lambda>e. ev_id e = eid \<and> ev_status e = Processing) (db_events d) = 0")
  case True
  with assms show ?thesis by (simp add: PrepareEvent_def Let_def)
next
  case False
  then have eid: "eid \<in> ev_id ` set (db_events d)" by (auto simp: sql_simps)
  let ?d1 = "d\<lparr>db_event_actions := insert_actions eid now n (db_event_actions d)\<rparr>"
  have "db_ok ?d1"
    using assms eid owners_insert_actions [of eid now n "db_event_actions d"] db_ok_owners [OF assms]
    by (intro db_ok_actions) (auto intro: actions_ok_insert_actions simp: db_ok_def)
  then have d2: "db_ok (?d1\<lparr>db_events := update_where (\<lambda>e. ev_id e = eid \<and> ev_status e = Processing)
      (\<lambda>e. e\<lparr>ev_vars_json := Some vars\<rparr>) (db_events ?d1)\<rparr>)" (is "db_ok ?d2")
    by (rule db_ok_update_events) (auto simp: event_ok_def)
  then have "db_ok (?d2\<lparr>db_events := update_where (\<lambda>e. ev_id e = eid) (\<lambda>e. e\<lparr>ev_payload := None\<rparr>) (db_events ?d2)\<rparr>)"
    by (rule db_ok_update_events) (auto simp: event_ok_def)
  with d2 False show ?thesis by (cases clear) (simp_all add: PrepareEvent_def Let_def)
qed

lemma db_ok_StartAction: "db_ok d \<Longrightarrow> db_ok (snd (StartAction eid i now d))"
  by (auto simp: StartAction_def started_def startable_def action_ok_def action_key_def
      split: option.splits intro!: db_ok_update_actions)

lemma db_ok_updateRunningAction:
  assumes "db_ok d" and "\<And>a. action_key (f a) = action_key a"
    and "\<And>a. action_ok a \<Longrightarrow> ea_status a = ARunning \<Longrightarrow> action_ok (f a)"
  shows "db_ok (snd (updateRunningAction eid i f d))"
  using assms by (auto simp: updateRunningAction_def Let_def intro!: db_ok_update_actions)

lemma db_ok_CompleteAction: "db_ok d \<Longrightarrow> db_ok (snd (CompleteAction eid i now d))"
  unfolding CompleteAction_def
  by (rule db_ok_updateRunningAction) (auto simp: action_ok_def action_key_def)

lemma db_ok_ScheduleActionRetry: "db_ok d \<Longrightarrow> db_ok (snd (ScheduleActionRetry eid i next detail ra d))"
  unfolding ScheduleActionRetry_def
  by (rule db_ok_updateRunningAction) (auto simp: action_ok_def action_key_def)

lemma db_ok_DeadAction: "db_ok d \<Longrightarrow> db_ok (snd (DeadAction eid i detail now d))"
  unfolding DeadAction_def
  by (rule db_ok_updateRunningAction) (auto simp: action_ok_def action_key_def)

lemma db_ok_ExpireAction: "db_ok d \<Longrightarrow> db_ok (snd (ExpireAction eid i now d))"
  by (auto simp: ExpireAction_def Let_def action_ok_def action_key_def intro!: db_ok_update_actions)

lemma aggregate_shape:
  assumes "aggregate rows nowMS = Some (st, processed, due)"
  shows "(st \<in> {Done, Dead} \<and> processed = Some nowMS \<and> due = None) \<or>
         (st \<in> {Pending, Retrying} \<and> processed = None \<and> due \<noteq> None)"
  using assms by (auto simp: aggregate_def Let_def split: if_splits)

text \<open>What \<open>aggregate\<close> can decide, as a predicate on its result.\<close>

fun refresh_ok :: "gtime \<Rightarrow> ev_status \<times> int option \<times> int option \<Rightarrow> bool" where
  "refresh_ok now (st, processed, due) \<longleftrightarrow>
     (st \<in> {Done, Dead} \<and> processed = Some (UnixMilli now) \<and> due = None) \<or>
     (st \<in> {Pending, Retrying} \<and> processed = None \<and> due \<noteq> None)"

lemma refresh_ok_aggregate: "aggregate rows (UnixMilli now) = Some r \<Longrightarrow> refresh_ok now r"
  using aggregate_shape by (cases r) auto

lemma db_ok_refresh_write:
  assumes "db_ok d" and "refresh_ok now r"
  shows "db_ok (snd (refresh_write eid now r d))"
proof -
  obtain st processed due where r: "r = (st, processed, due)" by (cases r)
  have "event_ok (refreshed now r e)" if "event_ok e" for e
    using assms(2) that by (cases st) (simp_all add: event_ok_def refreshed_def r)
  with assms(1) show ?thesis
    by (auto simp: refresh_write_def intro!: db_ok_update_events)
qed

lemma db_ok_RefreshEventStatus: "db_ok d \<Longrightarrow> db_ok (snd (RefreshEventStatus eid now d))"
  by (auto simp: RefreshEventStatus_def split: option.splits intro: db_ok_refresh_write refresh_ok_aggregate)

lemma db_ok_UpdateEventStatus:
  "db_ok d \<Longrightarrow> st \<in> {Dead, Skipped} \<Longrightarrow> db_ok (snd (UpdateEventStatus eid st t d))"
  by (auto simp: UpdateEventStatus_def event_ok_def intro!: db_ok_update_events)

lemma db_ok_ClearPayload: "db_ok d \<Longrightarrow> db_ok (snd (ClearPayload eid d))"
  by (auto simp: ClearPayload_def event_ok_def intro!: db_ok_update_events)

lemma db_ok_insert_log: "db_ok d \<Longrightarrow> db_ok (snd (insert_log eid i g act tgt att ok det dur t d))"
  by (force simp: insert_log_def db_ok_def logs_ok_def list_all_iff)

lemma db_ok_ReadyCheck: "db_ok d \<Longrightarrow> db_ok (snd (ReadyCheck d))"
  by (simp add: ReadyCheck_def db_ok_def)

lemma db_ok_PurgeOlderThan:
  assumes "db_ok d" shows "db_ok (snd (PurgeOlderThan cutoff wall d))"
proof -
  let ?gone = "\<lambda>i. exists_where (\<lambda>e. ev_id e = i \<and> purgeable cutoff e) (db_events d)"
  have ev: "events_ok (delete_where (purgeable cutoff) (db_events d))"
  proof -
    have "filter has_delivery (delete_where (purgeable cutoff) (db_events d)) =
        delete_where (purgeable cutoff) (filter has_delivery (db_events d))"
      by (simp add: delete_where_def conj_commute)
    with assms show ?thesis
      by (auto simp: db_ok_def events_ok_def distinct_map_delete_where list_all_iff sql_simps)
  qed
  have "ea_event_id a \<in> ev_id ` set (delete_where (purgeable cutoff) (db_events d))"
    if "a \<in> set (db_event_actions d)" "\<not> ?gone (ea_event_id a)" for a
    using assms that by (force simp: db_ok_def list_all_iff sql_simps)
  with assms ev show ?thesis
    by (auto simp: PurgeOlderThan_def Let_def db_ok_def actions_ok_def logs_ok_def list_all_iff
        distinct_map_delete_where set_delete_where)
qed

lemma db_ok_update_snapshot: "db_ok d \<Longrightarrow> db_ok (snd (update_snapshot eid raw upd d))"
  by (auto simp: update_snapshot_def Let_def event_ok_def intro!: db_ok_update_events)

lemma db_ok_insert_heartbeat: "db_ok d \<Longrightarrow> db_ok (snd (insert_heartbeat h d))"
  by (simp add: insert_heartbeat_def db_ok_def)

section \<open>Runs of store calls\<close>

text \<open>One constructor per statement or transaction that writes. \<open>CRefresh\<close> is the UPDATE of
  \<open>RefreshEventStatus\<close> alone, with the result of some earlier SELECT, since another call can
  come between the two statements; \<open>CLog\<close> likewise is the INSERT without its check.\<close>

datatype call =
    CSave string string string string gtime string string string string "gtime option"
  | CClaim duration gtime string
  | CRequeueExpired gtime
  | CRequeueAll
  | CRequeueEvent string
  | CRenew string duration gtime string
  | CReplay string string gtime
  | CPrepare string string nat bool gtime
  | CStart string nat gtime
  | CComplete string nat gtime
  | CSchedule string nat gtime string duration
  | CDead string nat string gtime
  | CExpire string nat gtime
  | CRefresh string gtime "ev_status \<times> int option \<times> int option"
  | CStatus string ev_status gtime
  | CClear string
  | CLog string int int string string int bool string duration gtime
  | CReady
  | CPurge gtime gtime
  | CSnapshot string string string
  | CHeartbeat hb_row

fun exec_call :: "call \<Rightarrow> db \<Rightarrow> db" where
  "exec_call (CSave eid src ip pl t deliv body cfg acts ex) d =
     snd (savePendingEvent eid src ip pl t deliv body cfg acts ex d)"
| "exec_call (CClaim lease now owner) d = snd (ClaimPending lease now owner d)"
| "exec_call (CRequeueExpired now) d = snd (RequeueExpiredLeases now d)"
| "exec_call CRequeueAll d = snd (RequeueAllProcessing d)"
| "exec_call (CRequeueEvent eid) d = snd (RequeueEvent eid d)"
| "exec_call (CRenew eid lease now owner) d = snd (RenewLease eid lease now owner d)"
| "exec_call (CReplay eid reason now) d = snd (ReplayDeadEvent eid reason now d)"
| "exec_call (CPrepare eid vars n clear now) d = snd (PrepareEvent eid vars n clear now d)"
| "exec_call (CStart eid i now) d = snd (StartAction eid i now d)"
| "exec_call (CComplete eid i now) d = snd (CompleteAction eid i now d)"
| "exec_call (CSchedule eid i next detail ra) d = snd (ScheduleActionRetry eid i next detail ra d)"
| "exec_call (CDead eid i detail now) d = snd (DeadAction eid i detail now d)"
| "exec_call (CExpire eid i now) d = snd (ExpireAction eid i now d)"
| "exec_call (CRefresh eid now r) d = snd (refresh_write eid now r d)"
| "exec_call (CStatus eid st t) d = snd (UpdateEventStatus eid st t d)"
| "exec_call (CClear eid) d = snd (ClearPayload eid d)"
| "exec_call (CLog eid i g act tgt att ok det dur t) d = snd (insert_log eid i g act tgt att ok det dur t d)"
| "exec_call CReady d = snd (ReadyCheck d)"
| "exec_call (CPurge cutoff wall) d = snd (PurgeOlderThan cutoff wall d)"
| "exec_call (CSnapshot eid raw upd) d = snd (update_snapshot eid raw upd d)"
| "exec_call (CHeartbeat h) d = snd (insert_heartbeat h d)"

text \<open>What the callers in the program guarantee of their arguments: the queue only stores the
  statuses \<open>dead\<close> and \<open>skipped\<close> directly, and a refresh writes what some aggregation decided.\<close>

fun call_ok :: "call \<Rightarrow> bool" where
  "call_ok (CRefresh eid now r) \<longleftrightarrow> refresh_ok now r"
| "call_ok (CStatus eid st t) \<longleftrightarrow> st \<in> {Dead, Skipped}"
| "call_ok c \<longleftrightarrow> True"

lemma db_ok_exec_call: "db_ok d \<Longrightarrow> call_ok c \<Longrightarrow> db_ok (exec_call c d)"
  by (cases c) (auto simp: RequeueExpiredLeases_def RequeueAllProcessing_def
      intro: db_ok_savePendingEvent db_ok_ClaimPending db_ok_requeueProcessing db_ok_RequeueEvent
        db_ok_RenewLease db_ok_ReplayDeadEvent db_ok_PrepareEvent db_ok_StartAction db_ok_CompleteAction
        db_ok_ScheduleActionRetry db_ok_DeadAction db_ok_ExpireAction db_ok_refresh_write
        db_ok_UpdateEventStatus db_ok_ClearPayload db_ok_insert_log db_ok_ReadyCheck
        db_ok_PurgeOlderThan db_ok_update_snapshot db_ok_insert_heartbeat)

interpretation tables: kept_by_runs exec_call call_ok db_ok
  by unfold_locales (rule db_ok_exec_call)

end
