(* ===== verification/Outbox.thy ===== *)
theory Outbox
  imports Store_Invariant
begin

text \<open>
  What the outbox promises its clients, proved over arbitrary runs of store calls: accepted
  events are stored once, a claim is exclusive for the length of its lease, a finished
  action is never reopened, recovery leaves nothing stranded, and the event status is the
  aggregate of its actions.
\<close>

section \<open>Finished actions\<close>

definition done_rows :: "db \<Rightarrow> action_row set" where
  "done_rows d = {a \<in> set (db_event_actions d). ea_status a = ADone}"

fun not_purge :: "call \<Rightarrow> bool" where
  "not_purge (CPurge cutoff wall) \<longleftrightarrow> False"
| "not_purge c \<longleftrightarrow> True"

lemma mem_update_where: "r \<in> set rows \<Longrightarrow> \<not> P r \<Longrightarrow> r \<in> set (update_where P f rows)"
  by (force simp: update_where_def)

lemma insert_actions_mono: "set as \<subseteq> set (insert_actions eid now n as)"
  unfolding insert_actions_def
  by (rule fold_invariant [where Q = "\<lambda>_. True" and P = "\<lambda>rows. set as \<subseteq> set rows"])
     (auto simp: insert_action_def)

lemma done_rows_exec_call:
  assumes "not_purge c" shows "done_rows d \<subseteq> done_rows (exec_call c d)"
proof -
  have upd: "r \<in> set (update_where P f rows)"
    if "r \<in> set rows" "ea_status r = ADone" "\<And>a. P a \<Longrightarrow> ea_status a \<noteq> ADone" for r P f rows
    using that mem_update_where [of r rows P f] by auto
  show ?thesis
    using assms
    by (cases c)
       (auto simp: done_rows_def store_defs RequeueExpiredLeases_def RequeueAllProcessing_def
         CompleteAction_def ScheduleActionRetry_def DeadAction_def startable_def Let_def
         split: option.splits intro!: upd insert_actions_mono [THEN subsetD])
qed

interpretation finished: kept_by_runs exec_call not_purge "\<lambda>d. A \<subseteq> done_rows d" for A
  by unfold_locales (use done_rows_exec_call in blast)

section \<open>Claims and leases\<close>

lemma ClaimPending_cases:
  assumes "db_ok d"
  obtains (none) "ClaimPending lease now owner d = (Inr None, d)"
      "\<And>e. e \<in> set (db_events d) \<Longrightarrow> \<not> claimable (UnixMilli now) e"
  | (some) e where "e \<in> set (db_events d)" "claimable (UnixMilli now) e"
      "\<And>r. r \<in> set (db_events d) \<Longrightarrow> claimable (UnixMilli now) r \<Longrightarrow> due_key e \<le> due_key r"
      "ClaimPending lease now owner d = (Inr (Some (pending_of_row e)),
         d\<lparr>db_events := update_where (\<lambda>r. ev_id r = ev_id e) (leased (now + lease_or_default lease) owner) (db_events d),
           db_event_actions := update_where (\<lambda>a. ea_event_id a = ev_id e \<and> ea_status a = ARunning)
                                 unrun (db_event_actions d)\<rparr>)"
proof (cases "first_min due_key (filter (claimable (UnixMilli now)) (db_events d))")
  case None
  then have "filter (claimable (UnixMilli now)) (db_events d) = []" by simp
  then have "\<not> claimable (UnixMilli now) e" if "e \<in> set (db_events d)" for e
    using that by (auto simp: filter_empty_conv)
  with None show ?thesis using that(1) by (simp add: ClaimPending_def)
next
  case (Some e)
  from first_min_Some [OF Some] have e: "e \<in> set (db_events d)" "claimable (UnixMilli now) e"
    and least: "\<And>r. r \<in> set (db_events d) \<Longrightarrow> claimable (UnixMilli now) r \<Longrightarrow> due_key e \<le> due_key r"
    by auto
  have same: "(ev_id r = ev_id e \<and> claimable (UnixMilli now) r) = (ev_id r = ev_id e)"
    if "r \<in> set (db_events d)" for r
    using assms e that distinct_map_unique [of ev_id "db_events d" r e]
    by (auto simp: db_ok_def events_ok_def)
  have upd: "update_where (\<lambda>r. ev_id r = ev_id e \<and> claimable (UnixMilli now) r) f (db_events d) =
      update_where (\<lambda>r. ev_id r = ev_id e) f (db_events d)" for f
    unfolding update_where_def using same by (intro map_cong) auto
  have "rows_affected (\<lambda>r. ev_id r = ev_id e \<and> claimable (UnixMilli now) r) (db_events d) \<noteq> 0"
    using e by (auto simp: sql_simps)
  then show ?thesis using that(2) [OF e least] Some by (simp add: ClaimPending_def Let_def upd)
qed

text \<open>A lease on event \<open>eid\<close> that runs to \<open>until\<close>, and the calls other workers make while it
  does: their clocks have not passed \<open>until\<close> and they finish or requeue other events only.
  The start-up recovery is not among them.\<close>

definition held :: "string \<Rightarrow> int \<Rightarrow> db \<Rightarrow> bool" where
  "held eid until d \<longleftrightarrow> eid \<in> ev_id ` set (db_events d) \<and>
     (\<forall>e \<in> set (db_events d). ev_id e = eid \<longrightarrow> ev_status e = Processing \<and> until \<le> coalesce (ev_lease_until_ms e) 0)"

fun others_call :: "string \<Rightarrow> int \<Rightarrow> call \<Rightarrow> bool" where
  "others_call eid until (CClaim lease now owner) \<longleftrightarrow> UnixMilli now \<le> until"
| "others_call eid until (CRequeueExpired now) \<longleftrightarrow> UnixMilli now \<le> until"
| "others_call eid until CRequeueAll \<longleftrightarrow> False"
| "others_call eid until (CRequeueEvent i) \<longleftrightarrow> i \<noteq> eid"
| "others_call eid until (CRefresh i now r) \<longleftrightarrow> i \<noteq> eid"
| "others_call eid until (CStatus i st t) \<longleftrightarrow> i \<noteq> eid"
| "others_call eid until (CRenew i lease now owner) \<longleftrightarrow>
     (i = eid \<longrightarrow> until \<le> UnixMilli (now + lease_or_default lease))"
| "others_call eid until c \<longleftrightarrow> True"

lemma held_not_claimable:
  "held eid until d \<Longrightarrow> nowMS \<le> until \<Longrightarrow> e \<in> set (db_events d) \<Longrightarrow> ev_id e = eid \<Longrightarrow> \<not> claimable nowMS e"
  by (auto simp: held_def claimable_def)

lemma held_update_events:
  assumes "held eid until d"
    and "\<And>e. ev_id (f e) = ev_id e"
    and "\<And>e. e \<in> set (db_events d) \<Longrightarrow> P e \<Longrightarrow> ev_id e = eid \<Longrightarrow>
           ev_status (f e) = Processing \<and> until \<le> coalesce (ev_lease_until_ms (f e)) 0"
  shows "held eid until (d\<lparr>db_events := update_where P f (db_events d)\<rparr>)"
proof -
  have "ev_id ` set (update_where P f (db_events d)) = ev_id ` set (db_events d)"
    using assms(2) by (metis list.set_map map_update_where)
  with assms show ?thesis by (auto simp: held_def sql_simps split: if_splits)
qed

lemma held_frame:
  assumes "held eid until d" "\<And>e. ev_id (f e) = ev_id e" "\<And>e. ev_status (f e) = ev_status e"
    "\<And>e. ev_lease_until_ms (f e) = ev_lease_until_ms e"
  shows "held eid until (d\<lparr>db_events := update_where P f (db_events d)\<rparr>)"
  using assms by (intro held_update_events) (auto simp: held_def)

lemma held_other_tables [simp]:
  "held eid until (d\<lparr>db_event_actions := as\<rparr>) = held eid until d"
  "held eid until (d\<lparr>db_event_actions := as, db_events := es\<rparr>) = held eid until (d\<lparr>db_events := es\<rparr>)"
  "held eid until (d\<lparr>db_log_seq := n, db_action_logs := ls\<rparr>) = held eid until d"
  "held eid until (d\<lparr>db_hb_seq := n, db_heartbeat_logs := hs\<rparr>) = held eid until d"
  "held eid until (d\<lparr>db_ready_check := r\<rparr>) = held eid until d"
  by (simp_all add: held_def)

lemma held_claim:
  assumes "held eid until d" "UnixMilli now \<le> until"
  shows "held eid until (snd (ClaimPending lease now owner d))"
proof (cases "first_min due_key (filter (claimable (UnixMilli now)) (db_events d))")
  case None
  with assms show ?thesis by (simp add: ClaimPending_def)
next
  case (Some e)
  have "held eid until (d\<lparr>db_events := update_where (\<lambda>r. ev_id r = ev_id e \<and> claimable (UnixMilli now) r)
      (leased (now + lease_or_default lease) owner) (db_events d)\<rparr>)"
    using assms held_not_claimable [OF assms] by (intro held_update_events) (auto simp: leased_def)
  with Some assms show ?thesis by (simp add: ClaimPending_def Let_def)
qed

lemma held_purge: assumes "held eid until d" shows "held eid until (snd (PurgeOlderThan cutoff wall d))"
proof -
  obtain e where "e \<in> set (db_events d)" "ev_id e = eid" "ev_status e = Processing"
    using assms by (auto simp: held_def)
  then have "e \<in> set (delete_where (purgeable cutoff) (db_events d))"
    by (simp add: set_delete_where purgeable_def)
  with assms \<open>ev_id e = eid\<close> show ?thesis
    by (auto simp: held_def PurgeOlderThan_def Let_def set_delete_where)
qed

lemma held_save:
  assumes "held eid until d"
  shows "held eid until (snd (savePendingEvent i src ip pl t deliv body cfg acts ex d))"
  using assms
  by (auto simp: held_def savePendingEvent_def Let_def sql_simps event_conflict_def new_event_def
      split: option.splits)

lemma held_requeue_expired:
  assumes "held eid until d" "UnixMilli now \<le> until"
  shows "held eid until (snd (RequeueExpiredLeases now d))"
proof -
  have "held eid until (d\<lparr>db_events := update_where
      (\<lambda>e. ev_status e = Processing \<and> coalesce (ev_lease_until_ms e) 0 < UnixMilli now) requeued (db_events d)\<rparr>)"
    using assms by (intro held_update_events) (auto simp: requeued_def held_def)
  then show ?thesis by (simp add: RequeueExpiredLeases_def requeueProcessing_def Let_def)
qed

lemma held_replay:
  assumes "held eid until d" shows "held eid until (snd (ReplayDeadEvent i reason now d))"
proof (cases "i = eid")
  case True
  have "ev_status e = Processing" if "find (\<lambda>e. ev_id e = i) (db_events d) = Some e" for e
    using assms that True by (auto simp: held_def find_Some_iff)
  with assms show ?thesis by (simp add: ReplayDeadEvent_def split: option.splits)
next
  case False
  have "held eid until (d\<lparr>db_events := update_where (\<lambda>r. ev_id r = i) (replayed reason now n) (db_events d)\<rparr>)" for n
    using assms False by (intro held_update_events) (auto simp: replayed_def)
  with assms show ?thesis by (auto simp: ReplayDeadEvent_def Let_def split: option.splits)
qed

lemma held_prepare:
  assumes "held eid until d" shows "held eid until (snd (PrepareEvent i vars n clear now d))"
proof -
  let ?d1 = "d\<lparr>db_events := update_where (\<lambda>e. ev_id e = i \<and> ev_status e = Processing)
      (\<lambda>e. e\<lparr>ev_vars_json := Some vars\<rparr>) (db_events d)\<rparr>"
  have 1: "held eid until ?d1"
    using assms by (rule held_frame) simp_all
  then have 2: "held eid until (?d1\<lparr>db_events := update_where (\<lambda>e. ev_id e = i) (\<lambda>e. e\<lparr>ev_payload := None\<rparr>) (db_events ?d1)\<rparr>)"
    by (rule held_frame) simp_all
  from assms 1 2 show ?thesis by (cases clear) (simp_all add: PrepareEvent_def Let_def)
qed

lemma held_renew:
  assumes "held eid until d" "i = eid \<longrightarrow> until \<le> UnixMilli (now + lease_or_default lease)"
  shows "held eid until (snd (RenewLease i lease now owner d))"
proof -
  let ?hit = "\<lambda>e. ev_id e = i \<and> ev_status e = Processing \<and>
      (ev_lease_owner e = Some owner \<or> ev_lease_owner e = None \<or> ev_lease_owner e = Some [])"
  have "held eid until (d\<lparr>db_events := update_where ?hit (\<lambda>e. e\<lparr>ev_lease_until := Some (now + lease_or_default lease),
      ev_lease_until_ms := Some (UnixMilli (now + lease_or_default lease))\<rparr>) (db_events d)\<rparr>)"
    using assms by (intro held_update_events) auto
  with assms(1) show ?thesis by (simp add: RenewLease_def Let_def)
qed

lemma held_exec_call:
  assumes "held eid until d" "others_call eid until c"
  shows "held eid until (exec_call c d)"
proof -
  have ev: "held eid until (d\<lparr>db_events := update_where P f (db_events d)\<rparr>)"
    if "\<And>e. ev_id (f e) = ev_id e" "\<And>e. P e \<Longrightarrow> ev_id e \<noteq> eid" for P f
    using assms(1) that by (intro held_update_events) auto
  show ?thesis
  proof (cases c)
    case (CRequeueEvent i)
    with assms ev [of requeued "\<lambda>e. ev_id e = i \<and> ev_status e = Processing"] show ?thesis
      by (auto simp: RequeueEvent_def Let_def requeued_def)
  next
    case (CRefresh i now r)
    with assms ev [of "refreshed now r" "\<lambda>e. ev_id e = i"] show ?thesis
      by (auto simp: refresh_write_def refreshed_def split: prod.splits)
  next
    case (CStatus i st t)
    with assms show ?thesis by (auto simp: UpdateEventStatus_def intro!: ev)
  next
    case (CClear i)
    with assms show ?thesis by (auto simp: ClearPayload_def intro!: held_frame)
  next
    case (CSnapshot i raw upd)
    with assms show ?thesis by (auto simp: update_snapshot_def Let_def intro!: held_frame)
  qed (use assms in \<open>simp_all add: held_claim held_purge held_save held_requeue_expired held_replay
      held_prepare held_renew StartAction_def CompleteAction_def ScheduleActionRetry_def DeadAction_def
      updateRunningAction_def ExpireAction_def insert_log_def ReadyCheck_def insert_heartbeat_def Let_def
      split: option.splits\<close>)
qed

interpretation lease: kept_by_runs exec_call "others_call eid until" "held eid until" for eid until
  by unfold_locales (rule held_exec_call)

section \<open>Recovery\<close>

definition unfinished :: "event_row \<Rightarrow> bool" where
  "unfinished e \<longleftrightarrow> ev_status e \<in> {Pending, Processing, Retrying}"

lemma ev_id_requeued [simp]: "ev_id (requeued e) = ev_id e" "ev_status (requeued e) = Pending"
  by (simp_all add: requeued_def)

lemma unrun_simps [simp]: "ea_status (unrun a) = APending" "ea_event_id (unrun a) = ea_event_id a"
  by (simp_all add: unrun_def)

lemma running_unrun:
  "ea_status a = ARunning \<Longrightarrow> a \<in> set (update_where P unrun rows) \<longleftrightarrow> a \<in> set rows \<and> \<not> P a"
  by (auto simp: set_update_where dest: arg_cong [where f = ea_status])

lemma done_unrun:
  "{a \<in> set (update_where (\<lambda>a. ea_status a = ARunning \<and> Q a) unrun as). ea_status a = ADone} =
   {a \<in> set as. ea_status a = ADone}"
  by (force simp: sql_simps split: if_splits)

lemma RequeueAllProcessing_running:
  assumes "db_ok d" "a \<in> set (db_event_actions (snd (RequeueAllProcessing d)))" "ea_status a = ARunning"
    "e \<in> set (db_events d)" "ev_id e = ea_event_id a"
  shows "\<not> unfinished e"
proof
  assume "unfinished e"
  define orphan where "orphan = (\<lambda>e :: event_row. ev_status e \<in> {Pending, Retrying} \<and>
      exists_where (\<lambda>a. ea_event_id a = ev_id e \<and> ea_status a = ARunning) (db_event_actions d))"
  define events1 where "events1 = update_where orphan requeued (db_events d)"
  define e1 where "e1 = (if orphan e then requeued e else e)"
  have a: "a \<in> set (db_event_actions d)"
    and no: "\<not> exists_where (\<lambda>e. ev_id e = ea_event_id a \<and> ev_status e = Pending) events1"
      "\<not> exists_where (\<lambda>e. ev_id e = ea_event_id a \<and> ev_status e = Processing) events1"
    using assms(2,3)
    by (simp_all add: RequeueAllProcessing_def requeueProcessing_def Let_def events1_def orphan_def running_unrun)
  have "e1 \<in> set events1" "ev_id e1 = ea_event_id a"
    using assms(4,5) by (auto simp: events1_def e1_def set_update_where)
  moreover have "ev_status e1 \<in> {Pending, Processing}"
    using assms(3,5) a \<open>unfinished e\<close> by (auto simp: e1_def orphan_def unfinished_def exists_where_iff)
  ultimately show False using no by (auto simp: exists_where_iff)
qed

lemma done_rows_RequeueAllProcessing: "done_rows (snd (RequeueAllProcessing d)) = done_rows d"
  by (simp add: done_rows_def RequeueAllProcessing_def requeueProcessing_def Let_def done_unrun)

lemma RequeueAllProcessing_events:
  assumes "e' \<in> set (db_events (snd (RequeueAllProcessing d)))"
  obtains e where "e \<in> set (db_events d)" "ev_id e' = ev_id e" "ev_status e' \<noteq> Processing"
    "unfinished e' \<longleftrightarrow> unfinished e"
proof -
  obtain P e1 where e1: "e1 \<in> set (update_where P requeued (db_events d))"
    and P: "\<And>e. P e \<Longrightarrow> ev_status e \<in> {Pending, Retrying}"
    and e': "e' = (if ev_status e1 = Processing then requeued e1 else e1)"
    using assms by (force simp: RequeueAllProcessing_def requeueProcessing_def Let_def set_update_where)
  then obtain e where e: "e \<in> set (db_events d)" and "e1 = (if P e then requeued e else e)"
    by (auto simp: set_update_where)
  with e' have "ev_id e' = ev_id e" "ev_status e' \<noteq> Processing" "unfinished e' \<longleftrightarrow> unfinished e"
    using P [of e] by (auto simp: unfinished_def)
  with e that show ?thesis by blast
qed

section \<open>The aggregate status\<close>

lemma count_status_0 [simp]: "count_status st rows = 0 \<longleftrightarrow> (\<forall>a \<in> set rows. ea_status a \<noteq> st)"
  by (simp add: count_status_def filter_empty_conv)

lemma count_status_pos [simp]: "0 < count_status st rows \<longleftrightarrow> (\<exists>a \<in> set rows. ea_status a = st)"
  using count_status_0 [of st rows] by (simp del: count_status_0 add: zero_less_iff_neq_zero)

lemma count_status_all: "count_status st rows = length rows \<longleftrightarrow> (\<forall>a \<in> set rows. ea_status a = st)"
  by (simp add: count_status_def length_filter_eq)

lemma count_status_two:
  assumes "st \<noteq> st'"
  shows "count_status st rows + count_status st' rows = length rows \<longleftrightarrow>
    (\<forall>a \<in> set rows. ea_status a = st \<or> ea_status a = st')"
proof -
  have "count_status st rows + count_status st' rows =
      length (filter (\<lambda>a. ea_status a = st \<or> ea_status a = st') rows)"
    using assms by (induction rows) (auto simp: count_status_def)
  then show ?thesis by (simp add: length_filter_eq)
qed

lemma aggregate_iff:
  assumes "aggregate rows nowMS = Some (st, processed, due)"
  shows "st = Done \<longleftrightarrow> (\<forall>a \<in> set rows. ea_status a = ADone)"
    "st = Dead \<longleftrightarrow> (\<exists>a \<in> set rows. ea_status a = ADead) \<and> (\<forall>a \<in> set rows. ea_status a \<in> {ADone, ADead})"
    "st = Retrying \<longleftrightarrow> (\<exists>a \<in> set rows. ea_status a = ARetrying)"
    "st = Pending \<longleftrightarrow> (\<forall>a \<in> set rows. ea_status a \<noteq> ARetrying) \<and>
       (\<exists>a \<in> set rows. ea_status a \<in> {APending, ARunning})"
proof -
  have cases: "ea_status a \<in> {APending, ARunning, ARetrying, ADone, ADead}" for a :: action_row
    by (cases "ea_status a") auto
  from assms have ne: "rows \<noteq> []" by (auto simp: aggregate_def)
  then obtain a0 where a0: "a0 \<in> set rows" by (cases rows) auto
  note facts = count_status_all count_status_two [of ADone ADead, simplified]
  show "st = Done \<longleftrightarrow> (\<forall>a \<in> set rows. ea_status a = ADone)"
    using assms by (auto simp: aggregate_def Let_def facts split: if_splits)
  show "st = Dead \<longleftrightarrow> (\<exists>a \<in> set rows. ea_status a = ADead) \<and> (\<forall>a \<in> set rows. ea_status a \<in> {ADone, ADead})"
    using assms by (auto simp: aggregate_def Let_def facts split: if_splits)
  show "st = Retrying \<longleftrightarrow> (\<exists>a \<in> set rows. ea_status a = ARetrying)"
    using assms a0 by (auto simp: aggregate_def Let_def facts split: if_splits)
  show "st = Pending \<longleftrightarrow> (\<forall>a \<in> set rows. ea_status a \<noteq> ARetrying) \<and>
       (\<exists>a \<in> set rows. ea_status a \<in> {APending, ARunning})"
    using assms a0 cases by (auto simp: aggregate_def Let_def facts split: if_splits)
qed

lemma fold_min_le: "fold min xs (x::int) \<le> x \<and> (\<forall>y \<in> set xs. fold min xs x \<le> y)"
proof (induction xs arbitrary: x)
  case (Cons y ys)
  from Cons.IH [of "min y x"] show ?case by auto
qed simp

lemma min_retry_le:
  assumes "a \<in> set rows" "ea_status a = ARetrying" "ea_next_attempt_at_ms a = Some n"
  shows "\<exists>m. min_retry rows = Some m \<and> m \<le> n"
proof -
  let ?ns = "List.map_filter (\<lambda>a. if ea_status a = ARetrying then ea_next_attempt_at_ms a else None) rows"
  have "n \<in> set ?ns" using assms by (force simp: List.map_filter_def)
  then obtain x xs where ns: "?ns = x # xs" and "n \<in> set (x # xs)" by (cases ?ns) auto
  with fold_min_le [of xs x] have "fold min xs x \<le> n" by auto
  with ns show ?thesis by (simp add: min_retry_def)
qed

section \<open>Replay guards\<close>

text \<open>The calls that leave a guard with expiry \<open>ex\<close> alone: saves whose clock is before it and
  purges whose clock is not after it.\<close>

fun before_expiry :: "int \<Rightarrow> call \<Rightarrow> bool" where
  "before_expiry ex (CSave eid src ip pl t deliv body cfg acts rx) \<longleftrightarrow> UnixMilli t < ex"
| "before_expiry ex (CPurge cutoff wall) \<longleftrightarrow> UnixMilli wall \<le> ex"
| "before_expiry ex c \<longleftrightarrow> True"

lemma reserve_guard_keeps:
  assumes "reserve_guard src body t ex gs = Some gs'" "g \<in> set gs" "UnixMilli t < rg_expires_at_ms g"
  shows "g \<in> set gs'"
  using assms by (auto simp: reserve_guard_def Let_def sql_simps split: option.splits if_splits)

lemma guard_exec_call:
  assumes "g \<in> set (db_replay_guard d)" "before_expiry (rg_expires_at_ms g) c"
  shows "g \<in> set (db_replay_guard (exec_call c d))"
proof (cases c)
  case (CSave eid src ip pl t deliv body cfg acts rx)
  with assms show ?thesis
    by (auto simp: savePendingEvent_def Let_def split: option.splits intro: reserve_guard_keeps)
next
  case (CPurge cutoff wall)
  with assms show ?thesis by (simp add: PurgeOlderThan_def Let_def set_delete_where)
qed (use assms in \<open>simp_all add: store_defs RequeueExpiredLeases_def RequeueAllProcessing_def
    CompleteAction_def ScheduleActionRetry_def DeadAction_def Let_def split: option.splits\<close>)

interpretation guard: kept_by_runs exec_call "before_expiry (rg_expires_at_ms g)"
  "\<lambda>d. g \<in> set (db_replay_guard d)" for g
  by unfold_locales (rule guard_exec_call)

lemma guarded_save_reserves:
  assumes "savePendingEvent eid src ip pl t deliv body cfg acts (Some ex) d = (Inr (), d')" "body \<noteq> []"
  shows "\<lparr>rg_source = src, rg_body_sha256 = body, rg_expires_at_ms = UnixMilli ex\<rparr> \<in> set (db_replay_guard d')"
  using assms
  by (auto simp: savePendingEvent_def reserve_guard_def Let_def split: option.splits if_splits)

lemma reserve_guard_held:
  assumes "g \<in> set gs" "rg_source g = src" "rg_body_sha256 g = body" "UnixMilli t < rg_expires_at_ms g"
    "body \<noteq> []"
  shows "reserve_guard src body t (Some ex) gs = None"
  using assms by (auto simp: reserve_guard_def Let_def sql_simps)

section \<open>The contract\<close>

text \<open>A run used as the concrete input of the witnesses below: one event is accepted with a
  replay guard, claimed, prepared with two actions, and its first action is completed.\<close>

definition demo_calls :: "call list" where
  "demo_calls =
     [CSave ''e1'' ''github'' ''10.0.0.1'' ''{}'' (10 * Second) ''d1'' ''h1'' ''c1'' ''plan'' (Some (610 * Second)),
      CClaim (5 * Minute) (11 * Second) ''w1'',
      CPrepare ''e1'' ''{}'' 2 False (11 * Second),
      CStart ''e1'' 0 (11 * Second),
      CComplete ''e1'' 0 (12 * Second)]"

definition demo_db :: db where
  "demo_db = fold exec_call demo_calls empty_db"

lemma demo_calls_ok: "list_all call_ok demo_calls"
  by (simp add: demo_calls_def)

lemma demo_db_ok: "db_ok demo_db"
  unfolding demo_db_def by (rule tables.run_keeps) (simp_all add: demo_calls_ok)

text \<open>C1: in whatever order workers, lease heartbeats, webhook requests, manual replays and the
  retention loop reach the database, its tables stay well formed: primary keys and
  (source, delivery id) pairs are unique, an event holds a lease exactly while it is
  processing, finished events carry their completion time, attempt counters are never
  negative, every action row belongs to a stored event.\<close>

theorem outbox_stays_well_formed:
  assumes "list_all call_ok cs" and "db_ok d"
  shows "db_ok (fold exec_call cs d)"
  using assms(2,1) by (rule tables.run_keeps)

theorem outbox_stays_well_formed_witness:
  "db_ok (fold exec_call demo_calls empty_db)"
  using outbox_stays_well_formed [OF demo_calls_ok db_ok_empty] .

text \<open>C2: an action that has completed is never reopened: through any interleaving of store
  calls short of a retention purge its row stays as it is, so no worker can start it again.\<close>

theorem done_action_never_restarted:
  assumes "db_ok d" and "a \<in> set (db_event_actions d)" and "ea_status a = ADone"
    and "list_all call_ok cs" and "list_all not_purge cs"
  shows "a \<in> set (db_event_actions (fold exec_call cs d)) \<and>
    StartAction (ea_event_id a) (ea_action_index a) now (fold exec_call cs d) =
      (Inl ErrNoRows, fold exec_call cs d)"
proof -
  let ?d = "fold exec_call cs d"
  have "{a} \<subseteq> done_rows ?d"
    by (rule finished.run_keeps) (use assms in \<open>auto simp: done_rows_def\<close>)
  then have a: "a \<in> set (db_event_actions ?d)" by (simp add: done_rows_def)
  have "db_ok ?d" using assms(1,4) by (rule tables.run_keeps)
  then have "b = a" if "b \<in> set (db_event_actions ?d)" "action_key b = action_key a" for b
    using a that distinct_map_unique [of action_key "db_event_actions ?d" b a]
    by (simp add: db_ok_def actions_ok_def)
  then have "find (startable (ea_event_id a) (ea_action_index a) now) (db_event_actions ?d) = None"
    using assms(3) by (fastforce simp: find_None_iff startable_def action_key_def)
  with a show ?thesis by (simp add: StartAction_def)
qed

text \<open>C3: a claim is exclusive for its lease: after a worker has claimed an event, no claim
  another worker makes before the lease runs out returns the same event, whatever calls on
  other events, lease renewals, expiry sweeps, retries, purges or new requests come between.\<close>

theorem lease_is_exclusive:
  assumes "db_ok d" and "ClaimPending lease now owner d = (Inr (Some pe), d1)"
    and "list_all (others_call (pe_ID pe) (UnixMilli (now + lease_or_default lease))) cs"
    and "UnixMilli now2 \<le> UnixMilli (now + lease_or_default lease)"
    and "ClaimPending lease2 now2 owner2 (fold exec_call cs d1) = (Inr (Some pe2), d2)"
  shows "pe_ID pe2 \<noteq> pe_ID pe"
proof -
  let ?until = "UnixMilli (now + lease_or_default lease)"
  from assms(1) have "held (pe_ID pe) ?until d1"
  proof (cases rule: ClaimPending_cases [where lease = lease and now = now and owner = owner])
    case (some e)
    then have pe: "pe_ID pe = ev_id e"
      and d1: "db_events d1 = update_where (\<lambda>r. ev_id r = ev_id e)
        (leased (now + lease_or_default lease) owner) (db_events d)"
      using assms(2) by (auto simp: pending_of_row_def)
    from some(1) show ?thesis
      by (auto simp: held_def pe d1 ids_update_where) (auto simp: set_update_where leased_def)
  qed (use assms(2) in simp)
  then have held: "held (pe_ID pe) ?until (fold exec_call cs d1)"
    using assms(3) by (rule lease.run_keeps)
  have "\<exists>e \<in> set (db_events (fold exec_call cs d1)). claimable (UnixMilli now2) e \<and> ev_id e = pe_ID pe2"
    using assms(5) first_min_Some
    by (fastforce simp: ClaimPending_def Let_def pending_of_row_def split: option.splits if_splits)
  with held_not_claimable [OF held assms(4)] show ?thesis by auto
qed


lemma recovery_result:
  assumes "db_ok d" and "RequeueAllProcessing d = (Inr n, d')"
  shows "(\<forall>e \<in> set (db_events d'). ev_status e \<noteq> Processing) \<and>
    (\<forall>e \<in> set (db_events d'). unfinished e \<longrightarrow> (\<forall>a \<in> set (actions_of (ev_id e) d'). ea_status a \<noteq> ARunning)) \<and>
    ev_id ` {e \<in> set (db_events d'). unfinished e} = ev_id ` {e \<in> set (db_events d). unfinished e} \<and>
    done_rows d' = done_rows d"
proof -
  have d': "d' = snd (RequeueAllProcessing d)" using assms(2) by simp
  have 1: "ev_status e \<noteq> Processing" if "e \<in> set (db_events d')" for e
    using that unfolding d' by (rule RequeueAllProcessing_events)
  have 2: "ea_status a \<noteq> ARunning" if "e \<in> set (db_events d')" "unfinished e" "a \<in> set (actions_of (ev_id e) d')" for e a
    using that RequeueAllProcessing_running [OF assms(1), of a] unfolding d'
    by (auto simp: actions_of_def elim!: RequeueAllProcessing_events)
  have ids: "ev_id ` set (db_events d') = ev_id ` set (db_events d)"
    by (simp add: d' RequeueAllProcessing_def requeueProcessing_def Let_def ids_update_where)
  have dist: "distinct (map ev_id (db_events d))"
    using assms(1) by (simp add: db_ok_def events_ok_def)
  have 3: "\<exists>e' \<in> set (db_events d'). unfinished e' \<and> ev_id e' = ev_id e"
    if "e \<in> set (db_events d)" "unfinished e" for e
  proof -
    from that ids obtain e' where e': "e' \<in> set (db_events d')" "ev_id e' = ev_id e"
      by (metis imageE imageI)
    from e'(1) [unfolded d'] obtain e0 where "e0 \<in> set (db_events d)" "ev_id e' = ev_id e0" "unfinished e' \<longleftrightarrow> unfinished e0"
      by (rule RequeueAllProcessing_events)
    moreover from this e' that distinct_map_unique [OF dist, of e0 e] have "e0 = e" by simp
    ultimately show ?thesis using e' that by blast
  qed
  have 4: "\<exists>e0 \<in> set (db_events d). unfinished e0 \<and> ev_id e0 = ev_id e'"
    if "e' \<in> set (db_events d')" "unfinished e'" for e'
    using that(1) [unfolded d'] that(2) by (auto elim!: RequeueAllProcessing_events)
  have "ev_id ` {e \<in> set (db_events d'). unfinished e} = ev_id ` {e \<in> set (db_events d). unfinished e}"
    using image_sameI [of "{e \<in> set (db_events d'). unfinished e}" "{e \<in> set (db_events d). unfinished e}" ev_id] 3 4
    by blast
  with 1 2 show ?thesis by (simp add: d' done_rows_RequeueAllProcessing)
qed


text \<open>C31: \<^verbatim>\<open>RefreshEventStatus\<close> writes the aggregate of the event's actions: done when every
  action is done; dead when every action is finished and one is dead; retrying when one is
  waiting for a retry, due no later than the earliest of them; pending otherwise. It clears
  the lease and leaves the action rows alone.\<close>

theorem refresh_is_aggregate:
  assumes "db_ok d" and "RefreshEventStatus eid now d = (Inr st, d')"
  shows "(st = Done \<longleftrightarrow> (\<forall>a \<in> set (actions_of eid d). ea_status a = ADone)) \<and>
    (st = Dead \<longleftrightarrow> (\<exists>a \<in> set (actions_of eid d). ea_status a = ADead) \<and>
                   (\<forall>a \<in> set (actions_of eid d). ea_status a \<in> {ADone, ADead})) \<and>
    (st = Retrying \<longleftrightarrow> (\<exists>a \<in> set (actions_of eid d). ea_status a = ARetrying)) \<and>
    st \<in> {Done, Dead, Retrying, Pending} \<and>
    (\<forall>e \<in> set (db_events d'). ev_id e = eid \<longrightarrow>
       ev_status e = st \<and> ev_lease_owner e = None \<and>
       (\<forall>a \<in> set (actions_of eid d). ea_status a = ARetrying \<longrightarrow>
          (\<exists>due n. ev_next_attempt_at_ms e = Some due \<and> ea_next_attempt_at_ms a = Some n \<and> due \<le> n))) \<and>
    db_event_actions d' = db_event_actions d"
proof -
  let ?rows = "actions_of eid d"
  obtain processed due where agg: "aggregate ?rows (UnixMilli now) = Some (st, processed, due)"
    and d': "d' = d\<lparr>db_events := update_where (\<lambda>e. ev_id e = eid) (refreshed now (st, processed, due)) (db_events d)\<rparr>"
    using assms(2) by (auto simp: RefreshEventStatus_def refresh_write_def split: option.splits if_splits)
  have row: "\<forall>e \<in> set (db_events d'). ev_id e = eid \<longrightarrow>
      ev_status e = st \<and> ev_lease_owner e = None \<and> ev_next_attempt_at_ms e = due"
    by (auto simp: d' ball_update_where refreshed_def)
  have due: "\<exists>m n. due = Some m \<and> ea_next_attempt_at_ms a = Some n \<and> m \<le> n"
    if "a \<in> set ?rows" "ea_status a = ARetrying" for a
  proof -
    from assms(1) that obtain n where n: "ea_next_attempt_at_ms a = Some n"
      by (auto simp: db_ok_def actions_ok_def list_all_iff actions_of_def action_ok_def)
    from min_retry_le [OF that n] obtain m where m: "min_retry ?rows = Some m" "m \<le> n" by blast
    have "st = Retrying" using that aggregate_iff(3) [OF agg] by blast
    with agg m(1) have "due = Some m"
      by (auto simp: aggregate_def Let_def split: if_splits)
    with n m(2) show ?thesis by blast
  qed
  have "st \<in> {Done, Dead, Retrying, Pending}" using aggregate_shape [OF agg] by auto
  with aggregate_iff [OF agg] row due show ?thesis by (auto simp: d')
qed

theorem refresh_is_aggregate_witness:
  "fst (RefreshEventStatus ''e1'' (20 * Second) demo_db) = Inr Pending \<and>
   ((Pending = Done) = (\<forall>a \<in> set (actions_of ''e1'' demo_db). ea_status a = ADone))"
proof -
  have r: "fst (RefreshEventStatus ''e1'' (20 * Second) demo_db) = Inr Pending" by code_simp
  then have "RefreshEventStatus ''e1'' (20 * Second) demo_db =
      (Inr Pending, snd (RefreshEventStatus ''e1'' (20 * Second) demo_db))"
    by (metis prod.collapse)
  from refresh_is_aggregate [OF demo_db_ok this] r show ?thesis by blast
qed

text \<open>C32: the replay guard holds: once a signed body has been accepted for a source, the same
  body is refused for that source until its guard expires, whatever else reaches the
  database before that moment, and the refused request changes nothing.\<close>

theorem accepted_body_refused_until_expiry:
  assumes "SavePendingEventGuarded eid src ip pl t deliv body cfg acts ex d = (Inr (), d1)"
    and "body \<noteq> []"
    and "list_all (before_expiry (UnixMilli ex)) cs"
    and "UnixMilli t2 < UnixMilli ex"
  shows "SavePendingEventGuarded eid2 src ip2 pl2 t2 deliv2 body cfg2 acts2 ex2 (fold exec_call cs d1) =
    (Inl ErrDuplicateBody, fold exec_call cs d1)"
proof -
  let ?g = "\<lparr>rg_source = src, rg_body_sha256 = body, rg_expires_at_ms = UnixMilli ex\<rparr>"
  have "?g \<in> set (db_replay_guard d1)"
    using assms(1,2) by (auto simp: SavePendingEventGuarded_def intro: guarded_save_reserves)
  moreover have "list_all (before_expiry (rg_expires_at_ms ?g)) cs" using assms(3) by simp
  ultimately have "?g \<in> set (db_replay_guard (fold exec_call cs d1))" by (rule guard.run_keeps)
  then have "reserve_guard src body t2 (Some ex2) (db_replay_guard (fold exec_call cs d1)) = None"
    using assms(2,4) by (intro reserve_guard_held [of ?g]) simp_all
  then show ?thesis by (simp add: SavePendingEventGuarded_def savePendingEvent_def)
qed

theorem accepted_body_refused_until_expiry_witness:
  "let d1 = snd (SavePendingEventGuarded ''e1'' ''gh'' ''ip'' ''{}'' (10 * Second) ''d1'' ''h1'' ''c'' ''p''
              (610 * Second) empty_db)
   in fst (SavePendingEventGuarded ''e2'' ''gh'' ''ip'' ''{}'' (609 * Second) ''d2'' ''h1'' ''c'' ''p''
              (1209 * Second) (fold exec_call [CClaim 0 (11 * Second) ''w'', CPurge 0 (500 * Second)] d1)) =
      Inl ErrDuplicateBody"
proof -
  let ?d1 = "snd (SavePendingEventGuarded ''e1'' ''gh'' ''ip'' ''{}'' (10 * Second) ''d1'' ''h1'' ''c'' ''p''
      (610 * Second) empty_db)"
  have "fst (SavePendingEventGuarded ''e1'' ''gh'' ''ip'' ''{}'' (10 * Second) ''d1'' ''h1'' ''c'' ''p''
      (610 * Second) empty_db) = Inr ()" by code_simp
  then have ok: "SavePendingEventGuarded ''e1'' ''gh'' ''ip'' ''{}'' (10 * Second) ''d1'' ''h1'' ''c'' ''p''
      (610 * Second) empty_db = (Inr (), ?d1)" by (metis prod.collapse)
  have cs: "list_all (before_expiry (UnixMilli (610 * Second)))
      [CClaim 0 (11 * Second) ''w'', CPurge 0 (500 * Second)]"
    by (simp add: UnixMilli_def)
  have lt: "UnixMilli (609 * Second) < UnixMilli (610 * Second)" by (simp add: UnixMilli_def)
  from accepted_body_refused_until_expiry [OF ok _ cs lt, of "''e2''" "''ip''" "''{}''" "''d2''" "''c''" "''p''" "1209 * Second"]
  show ?thesis by simp
qed

section \<open>Witnesses of the earlier statements\<close>

theorem done_action_never_restarted_witness:
  "let a = hd (db_event_actions demo_db); cs = [CRequeueAll, CClaim 0 (400 * Second) ''w2''] in
   a \<in> set (db_event_actions (fold exec_call cs demo_db)) \<and>
   fst (StartAction (ea_event_id a) (ea_action_index a) (400 * Second) (fold exec_call cs demo_db)) = Inl ErrNoRows"
proof -
  have a: "hd (db_event_actions demo_db) \<in> set (db_event_actions demo_db)"
    "ea_status (hd (db_event_actions demo_db)) = ADone" by code_simp+
  show ?thesis
    using done_action_never_restarted [OF demo_db_ok a, of "[CRequeueAll, CClaim 0 (400 * Second) ''w2'']" "400 * Second"]
    by (simp add: Let_def)
qed

text \<open>Two accepted events and the claim of the first: the input of the lease witness.\<close>

definition demo_two :: db where
  "demo_two = fold exec_call
     [CSave ''e1'' ''github'' ''10.0.0.1'' ''{}'' (10 * Second) ''d1'' ''h1'' ''c1'' ''plan'' None,
      CSave ''e2'' ''github'' ''10.0.0.1'' ''{}'' (11 * Second) ''d2'' ''h2'' ''c1'' ''plan'' None] empty_db"

lemma demo_two_ok: "db_ok demo_two"
  unfolding demo_two_def by (rule tables.run_keeps) simp_all

definition claim_id :: "(store_err + pending_event option) \<times> db \<Rightarrow> string option" where
  "claim_id r = (case r of (Inr (Some pe), _) \<Rightarrow> Some (pe_ID pe) | _ \<Rightarrow> None)"

lemma claim_idD: "claim_id r = Some i \<Longrightarrow> \<exists>pe. r = (Inr (Some pe), snd r) \<and> pe_ID pe = i"
  by (auto simp: claim_id_def split: prod.splits sum.splits option.splits)

theorem lease_is_exclusive_witness:
  "let d1 = snd (ClaimPending (5 * Minute) (12 * Second) ''w1'' demo_two);
       d2 = fold exec_call [CRequeueExpired (60 * Second), CRenew ''e1'' (5 * Minute) (60 * Second) ''w1''] d1
   in claim_id (ClaimPending (5 * Minute) (12 * Second) ''w1'' demo_two) = Some ''e1'' \<and>
      claim_id (ClaimPending (5 * Minute) (61 * Second) ''w2'' d2) = Some ''e2'' \<and> ''e2'' \<noteq> ''e1''"
proof -
  let ?c1 = "ClaimPending (5 * Minute) (12 * Second) ''w1'' demo_two"
  let ?cs = "[CRequeueExpired (60 * Second), CRenew ''e1'' (5 * Minute) (60 * Second) ''w1'']"
  let ?c2 = "ClaimPending (5 * Minute) (61 * Second) ''w2'' (fold exec_call ?cs (snd ?c1))"
  have 1: "claim_id ?c1 = Some ''e1''" and 2: "claim_id ?c2 = Some ''e2''" by code_simp+
  from claim_idD [OF 1] obtain pe where pe: "?c1 = (Inr (Some pe), snd ?c1)" "pe_ID pe = ''e1''" by blast
  from claim_idD [OF 2] obtain pe2 where pe2: "?c2 = (Inr (Some pe2), snd ?c2)" "pe_ID pe2 = ''e2''" by blast
  have "list_all (others_call (pe_ID pe) (UnixMilli (12 * Second + lease_or_default (5 * Minute)))) ?cs"
    and "UnixMilli (61 * Second) \<le> UnixMilli (12 * Second + lease_or_default (5 * Minute))"
    by (simp_all add: pe(2) UnixMilli_def lease_or_default_def)
  from lease_is_exclusive [OF demo_two_ok pe(1) this pe2(1)] 1 2 pe(2) pe2(2) show ?thesis by simp
qed



end
