(* ===== verification/Maintenance.thy ===== *)
theory Maintenance
  imports Outbox
begin

text \<open>
  The maintenance side of the outbox (\<^verbatim>\<open>internal/store/store.go\<close>): manual replay of dead
  events, the retention purge, and the two general facts every caller relies on: a method
  that returns an error has changed nothing, and an unfinished event can always be claimed
  again once its retry time or its lease has passed.
\<close>

lemma updateRunningAction_error:
  "fst (updateRunningAction eid i f d) = Inl err \<Longrightarrow> snd (updateRunningAction eid i f d) = d"
  by (simp add: updateRunningAction_def Let_def split: if_splits)

lemma savePendingEvent_error:
  "fst (savePendingEvent eid src ip pl t deliv body cfg acts ex d) = Inl err \<Longrightarrow> snd (savePendingEvent eid src ip pl t deliv body cfg acts ex d) = d"
  by (simp add: savePendingEvent_def Let_def split: if_splits option.splits)

lemma RequeueEvent_error:
  "fst (RequeueEvent eid d) = Inl err \<Longrightarrow> snd (RequeueEvent eid d) = d"
  by (simp add: RequeueEvent_def Let_def split: if_splits option.splits)

lemma RenewLease_error:
  "fst (RenewLease eid lease now owner d) = Inl err \<Longrightarrow> snd (RenewLease eid lease now owner d) = d"
  by (simp add: RenewLease_def Let_def split: if_splits option.splits)

lemma ReplayDeadEvent_error:
  "fst (ReplayDeadEvent eid reason now d) = Inl err \<Longrightarrow> snd (ReplayDeadEvent eid reason now d) = d"
  by (cases "find (\<lambda>e. ev_id e = eid) (db_events d)") (simp_all add: ReplayDeadEvent_def Let_def split: if_splits)

lemma PrepareEvent_error:
  "fst (PrepareEvent eid vars n clear now d) = Inl err \<Longrightarrow> snd (PrepareEvent eid vars n clear now d) = d"
  by (simp add: PrepareEvent_def Let_def split: if_splits option.splits)

lemma StartAction_error:
  "fst (StartAction eid i now d) = Inl err \<Longrightarrow> snd (StartAction eid i now d) = d"
  by (simp add: StartAction_def Let_def split: if_splits option.splits)

lemma RefreshEventStatus_error:
  "fst (RefreshEventStatus eid now d) = Inl err \<Longrightarrow> snd (RefreshEventStatus eid now d) = d"
  by (cases "aggregate (actions_of eid d) (UnixMilli now)")
     (auto simp: RefreshEventStatus_def refresh_write_def Let_def split: if_splits)

lemma UpdateEventStatus_error:
  "fst (UpdateEventStatus eid st now d) = Inl err \<Longrightarrow> snd (UpdateEventStatus eid st now d) = d"
  by (simp add: UpdateEventStatus_def Let_def split: if_splits option.splits)

lemma ExpireAction_error:
  "fst (ExpireAction eid i now d) = Inl err \<Longrightarrow> snd (ExpireAction eid i now d) = d"
  by (simp add: ExpireAction_def Let_def split: if_splits option.splits)

lemma CompleteAction_error:
  "fst (CompleteAction eid i now d) = Inl err \<Longrightarrow> snd (CompleteAction eid i now d) = d"
  unfolding CompleteAction_def by (rule updateRunningAction_error)

lemma ScheduleActionRetry_error:
  "fst (ScheduleActionRetry eid i next detail ra d) = Inl err \<Longrightarrow> snd (ScheduleActionRetry eid i next detail ra d) = d"
  unfolding ScheduleActionRetry_def by (rule updateRunningAction_error)

lemma DeadAction_error:
  "fst (DeadAction eid i detail now d) = Inl err \<Longrightarrow> snd (DeadAction eid i detail now d) = d"
  unfolding DeadAction_def by (rule updateRunningAction_error)



section \<open>Manual replay\<close>

definition replayable :: "event_row \<Rightarrow> bool" where
  "replayable e \<longleftrightarrow> ev_status e \<in> {Dead, Partial, Error} \<and>
     (coalesce (ev_payload e) [] \<noteq> [] \<or> coalesce (ev_vars_json e) [] \<noteq> [])"


definition demo_dead :: db where
  "demo_dead = fold exec_call
     (demo_calls @ [CStart ''e1'' 1 (13 * Second), CDead ''e1'' 1 ''boom'' (14 * Second),
        CRefresh ''e1'' (14 * Second) (Dead, Some (UnixMilli (14 * Second)), None)]) empty_db"

lemma demo_dead_ok: "db_ok demo_dead"
  unfolding demo_dead_def
  by (rule tables.run_keeps) (simp_all add: demo_calls_ok)


section \<open>Retention\<close>

lemma filter_delete_where:
  "\<not> gone k \<Longrightarrow> filter (\<lambda>r. f r = k) (delete_where (\<lambda>r. gone (f r)) rows) = filter (\<lambda>r. f r = k) rows"
  by (auto simp: delete_where_def intro: filter_cong)



section \<open>No event is lost\<close>

text \<open>An unfinished event is never lost: there is a moment from which every claim finds
  work as long as the database still holds the event in the state it is in, because pending
  events are due, a retrying event's time is stored and a processing event's lease is.\<close>

theorem unfinished_event_eventually_claimable:
  assumes "db_ok d" and "e \<in> set (db_events d)" and "unfinished e"
  shows "\<exists>t0. \<forall>now \<ge> t0. claimable (UnixMilli now) e \<and>
    fst (ClaimPending lease now owner d) \<noteq> Inr None"
proof -
  let ?t = "max (coalesce (ev_next_attempt_at_ms e) 0) (coalesce (ev_lease_until_ms e) 0 + 1)"
  have "claimable (UnixMilli now) e" if "now \<ge> fromUnixMilli ?t" for now
  proof -
    from that have "?t \<le> UnixMilli now" by (simp add: fromUnixMilli_le_iff)
    with assms(3) show ?thesis by (auto simp: claimable_def unfinished_def)
  qed
  moreover have "fst (ClaimPending lease now owner d) \<noteq> Inr None" if "claimable (UnixMilli now) e" for now
    using assms(1)
  proof (cases rule: ClaimPending_cases [where lease = lease and now = now and owner = owner])
    case none
    with assms(2) that show ?thesis by blast
  qed simp
  ultimately show ?thesis by blast
qed

theorem unfinished_event_eventually_claimable_witness:
  "\<exists>t0. \<forall>now \<ge> t0. fst (ClaimPending 0 now ''w'' demo_db) \<noteq> Inr None"
proof -
  have e: "hd (db_events demo_db) \<in> set (db_events demo_db)" by code_simp
  have u: "unfinished (hd (db_events demo_db))" by code_simp
  from unfinished_event_eventually_claimable [OF demo_db_ok e u] show ?thesis by blast
qed

end
