(* ===== verification/Snapshots.thy ===== *)
theory Snapshots
  imports Outbox "HOL-Library.List_Lexorder" "HOL-Library.Char_ord"
begin

text \<open>
  Rewriting of the stored action snapshots at startup (\<^verbatim>\<open>internal/store/snapshots.go\<close>). The loop
  reads the snapshots in batches of at most 128 rows and about one MiB, ordered by primary key,
  closes the cursor and rewrites each row of the batch; the next batch starts behind the last key.
  A key compares as a byte string. The loop is a \<open>partial_function\<close>: that it ends is a theorem.
  The environment says whether the next query or write fails and whether the context is done; it
  sees the number of rows changed so far and the key.
\<close>

section \<open>Batches\<close>

definition snapshotRewriteBatchRows :: nat where "snapshotRewriteBatchRows = 128"
definition snapshotRewriteBatchBytes :: int where "snapshotRewriteBatchBytes = 1048576"

type_synonym actionSnapshotRow = "string \<times> string" \<comment> \<open>id and raw snapshot\<close>

definition has_snapshot :: "event_row \<Rightarrow> bool" where
  "has_snapshot e \<longleftrightarrow> ev_actions_json e \<noteq> None \<and> ev_actions_json e \<noteq> Some []"

definition snapshot_row :: "event_row \<Rightarrow> actionSnapshotRow" where
  "snapshot_row e = (ev_id e, coalesce (ev_actions_json e) [])"

definition beyond :: "string option \<Rightarrow> string \<Rightarrow> bool" where
  "beyond cursor i = (case cursor of None \<Rightarrow> True | Some after \<Rightarrow> after < i)"

text \<open>The rows of the query in key order, before the row limit.\<close>

definition snapshot_rows :: "string option \<Rightarrow> db \<Rightarrow> actionSnapshotRow list" where
  "snapshot_rows cursor d =
     map snapshot_row (sort_key ev_id (filter (\<lambda>e. has_snapshot e \<and> beyond cursor (ev_id e)) (db_events d)))"

definition row_size :: "actionSnapshotRow \<Rightarrow> int" where
  "row_size row = int (length (fst row)) + int (length (snd row))"

fun fill_batch :: "actionSnapshotRow list \<Rightarrow> int \<Rightarrow> actionSnapshotRow list \<Rightarrow> actionSnapshotRow list" where
  "fill_batch batch bytes [] = batch"
| "fill_batch batch bytes (row # rows) =
     (let size = row_size row in
      if batch \<noteq> [] \<and> size > snapshotRewriteBatchBytes - bytes then batch
      else let bytes1 = bytes + size in
        if bytes1 \<ge> snapshotRewriteBatchBytes then batch @ [row]
        else fill_batch (batch @ [row]) bytes1 rows)"

definition actionSnapshotBatch :: "string option \<Rightarrow> db \<Rightarrow> actionSnapshotRow list" where
  "actionSnapshotBatch cursor d = fill_batch [] 0 (take snapshotRewriteBatchRows (snapshot_rows cursor d))"

section \<open>The loop\<close>

datatype 'e rewrite_err = RewriteDB | RewriteCanceled | RewriteFailed string 'e

record 'e rewrite_env =
  rw_rewrite :: "string \<Rightarrow> 'e + string"
  rw_queryErr :: "nat \<Rightarrow> string option \<Rightarrow> bool"
  rw_writeErr :: "nat \<Rightarrow> string \<Rightarrow> bool"
  rw_cancelled :: "nat \<Rightarrow> string \<Rightarrow> bool"

type_synonym 'e rewrite_result = "(nat \<times> 'e rewrite_err option) \<times> db"

fun rewrite_batch :: "'e rewrite_env \<Rightarrow> actionSnapshotRow list \<Rightarrow> nat \<Rightarrow> db \<Rightarrow> 'e rewrite_result" where
  "rewrite_batch R [] changed d = ((changed, None), d)"
| "rewrite_batch R ((eid, raw) # rows) changed d =
     (if rw_cancelled R changed eid then ((changed, Some RewriteCanceled), d)
      else case rw_rewrite R raw of
        Inl e \<Rightarrow> ((changed, Some (RewriteFailed eid e)), d)
      | Inr updated \<Rightarrow>
          if updated = raw then rewrite_batch R rows changed d
          else if rw_writeErr R changed eid then ((changed, Some RewriteDB), d)
          else (case update_snapshot eid raw updated d of
                  (Inl _, d1) \<Rightarrow> ((changed, Some RewriteDB), d1)
                | (Inr n, d1) \<Rightarrow> rewrite_batch R rows (changed + n) d1))"

partial_function (option) rewrite_loop ::
  "'e rewrite_env \<Rightarrow> nat \<Rightarrow> string option \<Rightarrow> db \<Rightarrow> 'e rewrite_result option" where
  "rewrite_loop R changed cursor d =
     (if rw_queryErr R changed cursor then Some ((changed, Some RewriteDB), d)
      else let batch = actionSnapshotBatch cursor d in
        if batch = [] then Some ((changed, None), d)
        else case rewrite_batch R batch changed d of
          ((changed1, Some e), d1) \<Rightarrow> Some ((changed1, Some e), d1)
        | ((changed1, None), d1) \<Rightarrow> rewrite_loop R changed1 (Some (fst (last batch))) d1)"

declare rewrite_loop.simps [code]

definition RewriteActionSnapshots :: "'e rewrite_env option \<Rightarrow> db \<Rightarrow> 'e rewrite_result option" where
  "RewriteActionSnapshots rewrite d =
     (case rewrite of None \<Rightarrow> Some ((0, None), d) | Some R \<Rightarrow> rewrite_loop R 0 None d)"

section \<open>Batches are prefixes\<close>

lemma fill_batch_prefix:
  "\<exists>k. fill_batch batch bytes rows = batch @ take k rows \<and> (batch = [] \<longrightarrow> rows \<noteq> [] \<longrightarrow> 0 < k)"
proof (induction batch bytes rows rule: fill_batch.induct)
  case (2 batch bytes row rows)
  show ?case
  proof (cases "batch \<noteq> [] \<and> row_size row > snapshotRewriteBatchBytes - bytes")
    case True
    then show ?thesis by (intro exI [of _ 0]) simp
  next
    case stays: False
    show ?thesis
    proof (cases "bytes + row_size row \<ge> snapshotRewriteBatchBytes")
      case True
      with stays show ?thesis by (intro exI [of _ 1]) auto
    next
      case False
      with 2 stays obtain k where "fill_batch (batch @ [row]) (bytes + row_size row) rows = (batch @ [row]) @ take k rows"
        by blast
      with stays False show ?thesis by (intro exI [of _ "Suc k"]) auto
    qed
  qed
qed simp

lemma fill_batch_bytes:
  "bytes = sum_list (map row_size batch) \<Longrightarrow> batch \<noteq> [] \<Longrightarrow> bytes \<le> snapshotRewriteBatchBytes \<or> length batch = 1 \<Longrightarrow>
   sum_list (map row_size (fill_batch batch bytes rows)) \<le> snapshotRewriteBatchBytes \<or> length (fill_batch batch bytes rows) = 1"
  by (induction batch bytes rows rule: fill_batch.induct) (auto simp: Let_def)

lemma fill_batch_bounded:
  "sum_list (map row_size (fill_batch [] 0 rows)) \<le> snapshotRewriteBatchBytes \<or> length (fill_batch [] 0 rows) = 1"
proof (cases rows)
  case (Cons row rows')
  then show ?thesis using fill_batch_bytes [of "row_size row" "[row]" rows'] by (auto simp: Let_def)
qed (simp add: snapshotRewriteBatchBytes_def)

lemma batch_prefix:
  obtains k where "actionSnapshotBatch cursor d = take k (snapshot_rows cursor d)" and "k \<le> 128"
    and "snapshot_rows cursor d \<noteq> [] \<Longrightarrow> 0 < k"
proof -
  from fill_batch_prefix [of "[]" 0 "take 128 (snapshot_rows cursor d)"]
  obtain k where k: "fill_batch [] 0 (take 128 (snapshot_rows cursor d)) = take k (take 128 (snapshot_rows cursor d))"
    "take 128 (snapshot_rows cursor d) \<noteq> [] \<longrightarrow> 0 < k" by auto
  show ?thesis
    by (rule that [of "min k 128"]) (use k in \<open>auto simp: actionSnapshotBatch_def snapshotRewriteBatchRows_def take_take min.commute\<close>)
qed

text \<open>A batch holds at most 128 rows and, unless it is a single row, at most one MiB.\<close>

lemma batch_bounded:
  "length (actionSnapshotBatch cursor d) \<le> 128 \<and>
   (sum_list (map row_size (actionSnapshotBatch cursor d)) \<le> 1048576 \<or> length (actionSnapshotBatch cursor d) = 1)"
proof -
  obtain k where "actionSnapshotBatch cursor d = take k (snapshot_rows cursor d)" "k \<le> 128" by (rule batch_prefix)
  then have "length (actionSnapshotBatch cursor d) \<le> 128" by simp
  with fill_batch_bounded [of "take snapshotRewriteBatchRows (snapshot_rows cursor d)"] show ?thesis
    by (simp add: actionSnapshotBatch_def snapshotRewriteBatchBytes_def)
qed

section \<open>Progress\<close>

lemma fst_snapshot_rows:
  "map fst (snapshot_rows cursor d) = map ev_id (sort_key ev_id (filter (\<lambda>e. has_snapshot e \<and> beyond cursor (ev_id e)) (db_events d)))"
  by (simp add: snapshot_rows_def snapshot_row_def)

lemma snapshot_rows_sorted: "sorted (map fst (snapshot_rows cursor d))"
  by (simp add: fst_snapshot_rows)

lemma snapshot_rows_distinct:
  "distinct (map ev_id (db_events d)) \<Longrightarrow> distinct (map fst (snapshot_rows cursor d))"
  by (auto simp: fst_snapshot_rows distinct_map inj_on_def)

lemma snapshot_rows_after:
  assumes "beyond cursor c"
  shows "snapshot_rows (Some c) d = filter (\<lambda>r. c < fst r) (snapshot_rows cursor d)"
proof -
  have "(has_snapshot e \<and> beyond (Some c) (ev_id e)) = (has_snapshot e \<and> beyond cursor (ev_id e) \<and> c < ev_id e)" for e
    using assms by (auto simp: beyond_def split: option.splits)
  then show ?thesis
    by (simp add: snapshot_rows_def filter_map filter_sort filter_filter comp_def snapshot_row_def)
qed

lemma filter_sorted_drop:
  fixes xs :: "(string \<times> 'b) list"
  assumes "sorted (map fst xs)" "distinct (map fst xs)" "0 < k" "k \<le> length xs"
  shows "filter (\<lambda>r. fst (last (take k xs)) < fst r) xs = drop k xs"
proof -
  have "take k xs \<noteq> []" using assms(3,4) by auto
  then have last: "last (take k xs) = xs ! (k - 1)" using assms(3,4) by (simp add: last_conv_nth)
  have "\<not> fst (xs ! (k - 1)) < fst r" if r: "r \<in> set (take k xs)" for r
  proof -
    obtain i where "i < k" "r = xs ! i" using r assms(4) by (auto simp: in_set_conv_nth)
    then show ?thesis using sorted_nth_mono [OF assms(1), of i "k - 1"] assms(3,4) by (simp add: not_less)
  qed
  moreover have "fst (xs ! (k - 1)) < fst r" if r: "r \<in> set (drop k xs)" for r
  proof -
    obtain i where "i < length xs - k" "r = xs ! (k + i)" using r by (auto simp: in_set_conv_nth)
    then have i: "k + i < length xs" "r = xs ! (k + i)" by auto
    have "fst (xs ! (k - 1)) \<le> fst (xs ! (k + i))"
      using sorted_nth_mono [OF assms(1), of "k - 1" "k + i"] i assms(3) by simp
    moreover have "fst (xs ! (k - 1)) \<noteq> fst (xs ! (k + i))"
      using assms(2,3) i nth_eq_iff_index_eq [OF assms(2), of "k - 1" "k + i"] by auto
    ultimately show ?thesis using i by simp
  qed
  ultimately have "filter (\<lambda>r. fst (xs ! (k - 1)) < fst r) (take k xs @ drop k xs) = drop k xs"
    by (simp add: filter_empty_conv del: append_take_drop_id)
  then show ?thesis by (simp add: last)
qed

text \<open>Rewriting a batch keeps the keys and touches no row outside it.\<close>

lemma update_snapshot_ids:
  "update_snapshot eid raw u d = (r, d1) \<Longrightarrow> map ev_id (db_events d1) = map ev_id (db_events d)"
  by (auto simp: update_snapshot_def Let_def map_update_where)

lemma update_snapshot_others:
  "update_snapshot eid raw u d = (r, d1) \<Longrightarrow> \<not> P eid \<Longrightarrow>
     filter (\<lambda>e. P (ev_id e)) (db_events d1) = filter (\<lambda>e. P (ev_id e)) (db_events d)"
proof -
  assume "update_snapshot eid raw u d = (r, d1)" "\<not> P eid"
  moreover have "filter (\<lambda>e. P (ev_id e)) (update_where (\<lambda>e. ev_id e = eid \<and> ev_actions_json e = Some raw)
      (\<lambda>e. e\<lparr>ev_actions_json := Some u\<rparr>) es) = filter (\<lambda>e. P (ev_id e)) es" if "\<not> P eid" for es
    using that by (induction es) auto
  ultimately show ?thesis by (auto simp: update_snapshot_def Let_def)
qed

lemma rewrite_batch_ids:
  "rewrite_batch R rows changed d = (r, d1) \<Longrightarrow> map ev_id (db_events d1) = map ev_id (db_events d)"
  by (induction R rows changed d arbitrary: r rule: rewrite_batch.induct)
    (auto split: if_splits sum.splits prod.splits dest: update_snapshot_ids)

lemma rewrite_batch_others:
  "rewrite_batch R rows changed d = (r, d1) \<Longrightarrow> (\<And>x. x \<in> set rows \<Longrightarrow> \<not> P (fst x)) \<Longrightarrow>
     filter (\<lambda>e. P (ev_id e)) (db_events d1) = filter (\<lambda>e. P (ev_id e)) (db_events d)"
proof (induction R rows changed d arbitrary: r rule: rewrite_batch.induct)
  case (2 R eid raw rows changed d)
  have "\<not> P eid" using "2.prems"(2) [of "(eid, raw)"] by simp
  note others = update_snapshot_others [where P = P, OF _ this]
  have "\<not> P (fst x)" if "x \<in> set rows" for x using "2.prems"(2) that by simp
  with 2 show ?case by (auto split: if_splits sum.splits prod.splits dest: others)
qed auto

lemma snapshot_rows_cong:
  assumes "filter (\<lambda>e. beyond cursor (ev_id e)) (db_events d1) = filter (\<lambda>e. beyond cursor (ev_id e)) (db_events d)"
  shows "snapshot_rows cursor d1 = snapshot_rows cursor d"
proof -
  have "filter (\<lambda>e. has_snapshot e \<and> beyond cursor (ev_id e)) es = filter has_snapshot (filter (\<lambda>e. beyond cursor (ev_id e)) es)" for es
    by (simp add: conj_commute)
  with assms show ?thesis unfolding snapshot_rows_def by presburger
qed

lemma rewrite_batch_append:
  "rewrite_batch R (xs @ ys) changed d =
     (case rewrite_batch R xs changed d of
        ((c1, Some e), d1) \<Rightarrow> ((c1, Some e), d1)
      | ((c1, None), d1) \<Rightarrow> rewrite_batch R ys c1 d1)"
  by (induction R xs changed d rule: rewrite_batch.induct) (auto split: sum.splits prod.splits option.splits)

section \<open>The loop ends\<close>

lemma next_batch:
  assumes "distinct (map ev_id (db_events d))" "snapshot_rows cursor d \<noteq> []"
    and "rewrite_batch R (actionSnapshotBatch cursor d) changed d = (r, d1)"
  obtains k where "0 < k" "k \<le> length (snapshot_rows cursor d)" "actionSnapshotBatch cursor d = take k (snapshot_rows cursor d)"
    and "snapshot_rows (Some (fst (last (actionSnapshotBatch cursor d)))) d1 = drop k (snapshot_rows cursor d)"
proof -
  define rows where "rows = snapshot_rows cursor d"
  obtain k0 where "actionSnapshotBatch cursor d = take k0 rows" "rows \<noteq> [] \<Longrightarrow> 0 < k0"
    unfolding rows_def using batch_prefix [of cursor d] by blast
  define k where "k = min k0 (length rows)"
  have k: "0 < k" "k \<le> length rows" "actionSnapshotBatch cursor d = take k rows"
    using \<open>actionSnapshotBatch cursor d = take k0 rows\<close> \<open>rows \<noteq> [] \<Longrightarrow> 0 < k0\<close> assms(2)
    by (auto simp: k_def rows_def min_def)
  define c where "c = fst (last (take k rows))"
  note sorted = snapshot_rows_sorted [of cursor d, folded rows_def]
    and dist = snapshot_rows_distinct [OF assms(1), of cursor, folded rows_def]
  have drop: "filter (\<lambda>r. c < fst r) rows = drop k rows"
    unfolding c_def by (rule filter_sorted_drop [OF sorted dist k(1,2)])
  have "last (take k rows) \<in> set rows" using k by (metis in_set_takeD last_in_set take_eq_Nil2 not_less_zero list.size(3) not_less)
  then have "beyond cursor c" by (auto simp: rows_def snapshot_rows_def snapshot_row_def c_def)
  then have "snapshot_rows (Some c) d = drop k rows"
    using snapshot_rows_after drop by (simp add: rows_def)
  moreover have "snapshot_rows (Some c) d1 = snapshot_rows (Some c) d"
  proof (rule snapshot_rows_cong, rule rewrite_batch_others [OF assms(3)])
    fix x assume x: "x \<in> set (actionSnapshotBatch cursor d)"
    have "distinct rows" using dist by (simp add: distinct_map)
    with x k(3) have "x \<notin> set (drop k rows)"
      by (metis disjoint_iff set_take_disj_set_drop_if_distinct order_refl)
    then have "x \<notin> set (filter (\<lambda>r. c < fst r) rows)" by (simp add: drop)
    moreover have "x \<in> set rows" using x k(3) by (auto dest: in_set_takeD)
    ultimately show "\<not> beyond (Some c) (fst x)" by (simp add: beyond_def)
  qed
  ultimately show ?thesis by (intro that [of k]) (use k in \<open>simp_all add: rows_def c_def\<close>)
qed

lemma rewrite_loop_returns:
  assumes "distinct (map ev_id (db_events d))"
  shows "\<exists>n err d'. rewrite_loop R changed cursor d = Some ((n, err), d') \<and>
     (err = None \<longrightarrow> rewrite_batch R (snapshot_rows cursor d) changed d = ((n, None), d'))"
  using assms
proof (induction "length (snapshot_rows cursor d)" arbitrary: changed cursor d rule: less_induct)
  case less
  note unfold = rewrite_loop.simps [of R changed cursor d]
  show ?case
  proof (cases "rw_queryErr R changed cursor \<or> snapshot_rows cursor d = []")
    case True
    then show ?thesis by (subst unfold) (auto simp: actionSnapshotBatch_def)
  next
    case False
    obtain c1 e1 d1 where b: "rewrite_batch R (actionSnapshotBatch cursor d) changed d = ((c1, e1), d1)"
      by (metis prod.exhaust)
    from False have ne: "snapshot_rows cursor d \<noteq> []" by simp
    from less.prems ne b obtain k where k: "0 < k" "k \<le> length (snapshot_rows cursor d)"
      "actionSnapshotBatch cursor d = take k (snapshot_rows cursor d)"
      "snapshot_rows (Some (fst (last (actionSnapshotBatch cursor d)))) d1 = drop k (snapshot_rows cursor d)"
      by (rule next_batch)
    have nb: "actionSnapshotBatch cursor d \<noteq> []" using k(1,3) ne by simp
    show ?thesis
    proof (cases e1)
      case (Some e)
      with False nb b show ?thesis by (subst unfold) (simp add: Let_def)
    next
      case None
      define c where "c = Some (fst (last (actionSnapshotBatch cursor d)))"
      have "length (snapshot_rows c d1) < length (snapshot_rows cursor d)"
        unfolding c_def using k(1,2,4) by simp
      moreover have "distinct (map ev_id (db_events d1))" using less.prems rewrite_batch_ids [OF b] by simp
      ultimately obtain n err d' where IH: "rewrite_loop R c1 c d1 = Some ((n, err), d')"
        "err = None \<longrightarrow> rewrite_batch R (snapshot_rows c d1) c1 d1 = ((n, None), d')"
        using less.hyps by blast
      have "rewrite_loop R changed cursor d = Some ((n, err), d')"
        using False nb b None IH(1) by (subst unfold) (simp add: Let_def c_def)
      moreover have "rewrite_batch R (snapshot_rows cursor d) changed d = ((n, None), d')" if "err = None"
        using rewrite_batch_append [of R "take k (snapshot_rows cursor d)" "drop k (snapshot_rows cursor d)" changed d]
          IH(2) that b None k(3,4) by (simp add: c_def)
      ultimately show ?thesis by blast
    qed
  qed
qed

section \<open>The effect of a complete pass\<close>

definition rewritten :: "'e rewrite_env \<Rightarrow> event_row \<Rightarrow> event_row" where
  "rewritten R e =
     (if has_snapshot e then
        (case rw_rewrite R (coalesce (ev_actions_json e) []) of
           Inr u \<Rightarrow> e\<lparr>ev_actions_json := Some u\<rparr>
         | Inl _ \<Rightarrow> e)
      else e)"

definition changes :: "'e rewrite_env \<Rightarrow> event_row \<Rightarrow> bool" where
  "changes R e \<longleftrightarrow> rewritten R e \<noteq> e"

lemma rewritten_id [simp]: "ev_id (rewritten R e) = ev_id e"
  by (auto simp: rewritten_def split: sum.splits)

lemma length_filter_disjoint:
  "(\<And>x. x \<in> set xs \<Longrightarrow> P x \<Longrightarrow> \<not> Q x) \<Longrightarrow>
     length (filter (\<lambda>x. P x \<or> Q x) xs) = length (filter P xs) + length (filter Q xs)"
  by (induction xs) auto

lemma rewrite_batch_effect:
  assumes "rewrite_batch R rows changed d = ((n, None), d')" "distinct (map fst rows)" "distinct (map ev_id (db_events d))"
    and "set rows \<subseteq> snapshot_row ` {e \<in> set (db_events d). has_snapshot e}"
  shows "d' = d\<lparr>db_events := map (\<lambda>e. if ev_id e \<in> fst ` set rows then rewritten R e else e) (db_events d)\<rparr> \<and>
     n = changed + length (filter (\<lambda>e. ev_id e \<in> fst ` set rows \<and> changes R e) (db_events d))"
  using assms
proof (induction R rows changed d rule: rewrite_batch.induct)
  case (2 R eid raw rows changed d)
  obtain e0 where e0: "e0 \<in> set (db_events d)" "has_snapshot e0" "ev_id e0 = eid" "ev_actions_json e0 = Some raw"
    using "2.prems"(4) by (auto simp: snapshot_row_def has_snapshot_def)
  have only: "e = e0" if "e \<in> set (db_events d)" "ev_id e = eid" for e
    using distinct_map_unique [OF "2.prems"(3) that(1) e0(1)] that e0 by simp
  have out: "eid \<notin> fst ` set rows" using "2.prems"(2) by simp
  obtain u where u: "rw_rewrite R raw = Inr u" "\<not> rw_cancelled R changed eid" using "2.prems"(1) by (auto split: if_splits sum.splits)
  have rw0: "rewritten R e0 = e0\<lparr>ev_actions_json := Some u\<rparr>" using e0 u by (simp add: rewritten_def)
  show ?case
  proof (cases "u = raw")
    case True
    then have same: "rewritten R e0 = e0" using rw0 e0(4) by (simp add: event_row.equality)
    have "rewrite_batch R rows changed d = ((n, None), d')" using "2.prems"(1) u True by simp
    moreover have "set rows \<subseteq> snapshot_row ` {e \<in> set (db_events d). has_snapshot e}" using "2.prems"(4) by simp
    ultimately have IH: "d' = d\<lparr>db_events := map (\<lambda>e. if ev_id e \<in> fst ` set rows then rewritten R e else e) (db_events d)\<rparr> \<and>
       n = changed + length (filter (\<lambda>e. ev_id e \<in> fst ` set rows \<and> changes R e) (db_events d))"
      using "2.IH"(1) [OF u(2,1) True] "2.prems" by simp
    have "(if ev_id e \<in> fst ` set rows then rewritten R e else e) = (if ev_id e \<in> fst ` set ((eid, raw) # rows) then rewritten R e else e)"
      and "(ev_id e \<in> fst ` set rows \<and> changes R e) = (ev_id e \<in> fst ` set ((eid, raw) # rows) \<and> changes R e)"
      if "e \<in> set (db_events d)" for e
      using only [OF that] same by (auto simp: changes_def)
    then show ?thesis using IH by (auto cong: map_cong filter_cong)
  next
    case False
    define d1 where "d1 = snd (update_snapshot eid raw u d)"
    define c where "c = rows_affected (\<lambda>e. ev_id e = eid \<and> ev_actions_json e = Some raw) (db_events d)"
    have us: "update_snapshot eid raw u d = (Inr c, d1)" by (simp add: update_snapshot_def c_def d1_def Let_def)
    have hit: "(ev_id e = eid \<and> ev_actions_json e = Some raw) = (e = e0)" if "e \<in> set (db_events d)" for e
      by (cases "ev_id e = eid") (use only [OF that] e0 in auto)
    have "(if ev_id e = eid \<and> ev_actions_json e = Some raw then e\<lparr>ev_actions_json := Some u\<rparr> else e) =
        (if e = e0 then rewritten R e else e)" if "e \<in> set (db_events d)" for e
      unfolding hit [OF that] by (cases "e = e0") (simp_all add: rw0)
    then have d1: "d1 = d\<lparr>db_events := map (\<lambda>e. if e = e0 then rewritten R e else e) (db_events d)\<rparr>"
      unfolding d1_def update_snapshot_def Let_def update_where_def snd_conv
      by (intro arg_cong [of _ _ "\<lambda>es. d\<lparr>db_events := es\<rparr>"] map_cong [OF refl])
    have "filter (\<lambda>e. ev_id e = eid \<and> ev_actions_json e = Some raw) (db_events d) = filter (\<lambda>e. e = e0) (db_events d)"
      using hit by (rule filter_cong [OF refl])
    moreover have "distinct (db_events d)" using "2.prems"(3) by (simp add: distinct_map)
    ultimately have c: "c = 1" using e0(1) by (simp add: c_def rows_affected_def distinct_length_filter)
    define ids where "ids = fst ` set rows"
    have id0: "(ev_id e = eid) = (e = e0)" if "e \<in> set (db_events d)" for e using only [OF that] e0 by auto
    have run: "rewrite_batch R rows (changed + 1) d1 = ((n, None), d')"
      using "2.prems"(1) u False us c by (auto split: if_splits)
    have sub: "set rows \<subseteq> snapshot_row ` {e \<in> set (db_events d1). has_snapshot e}"
    proof
      fix x assume x: "x \<in> set rows"
      then obtain e where e: "x = snapshot_row e" "e \<in> set (db_events d)" "has_snapshot e" using "2.prems"(4) by auto
      have "fst x \<noteq> eid" using x out by auto
      with e e0 have "e \<noteq> e0" by (auto simp: snapshot_row_def)
      with e show "x \<in> snapshot_row ` {e \<in> set (db_events d1). has_snapshot e}" by (auto simp: d1)
    qed
    have "map ev_id (db_events d1) = map ev_id (db_events d)" by (simp add: d1)
    then have dist1: "distinct (map ev_id (db_events d1))" using "2.prems"(3) by simp
    have nw: "\<not> rw_writeErr R changed eid" using "2.prems"(1) u False by auto
    have dist: "distinct (map fst rows)" using "2.prems"(2) by simp
    note IH0 = "2.IH"(2) [OF u(2,1) False nw us [symmetric] refl, unfolded c, OF run dist dist1 sub]
    then have IH: "d' = d1\<lparr>db_events := map (\<lambda>e. if ev_id e \<in> ids then rewritten R e else e) (db_events d1)\<rparr>"
      "n = changed + 1 + length (filter (\<lambda>e. ev_id e \<in> ids \<and> changes R e) (db_events d1))"
      by (simp_all add: ids_def)
    have "map (\<lambda>e. if ev_id e \<in> ids then rewritten R e else e) (db_events d1) =
        map (\<lambda>e. if ev_id e \<in> insert eid ids then rewritten R e else e) (db_events d)"
    proof -
      have "(if ev_id (if e = e0 then rewritten R e else e) \<in> ids then rewritten R (if e = e0 then rewritten R e else e)
          else (if e = e0 then rewritten R e else e)) = (if ev_id e \<in> insert eid ids then rewritten R e else e)"
        if "e \<in> set (db_events d)" for e
        using id0 [OF that] out e0(3) by (cases "e = e0") (simp_all add: ids_def)
      then show ?thesis by (simp add: d1 comp_def)
    qed
    moreover have "length (filter (\<lambda>e. ev_id e \<in> ids \<and> changes R e) (db_events d1)) =
        length (filter (\<lambda>e. ev_id e \<in> ids \<and> changes R e) (db_events d))"
    proof -
      have "(ev_id (if e = e0 then rewritten R e else e) \<in> ids \<and> changes R (if e = e0 then rewritten R e else e)) =
          (ev_id e \<in> ids \<and> changes R e)" for e
        using out e0(3) by (simp add: ids_def)
      then show ?thesis by (simp add: d1 filter_map comp_def)
    qed
    moreover have "length (filter (\<lambda>e. ev_id e \<in> insert eid ids \<and> changes R e) (db_events d)) =
        1 + length (filter (\<lambda>e. ev_id e \<in> ids \<and> changes R e) (db_events d))"
    proof -
      have "changes R e0" using rw0 e0(4) False by (auto simp: changes_def dest: arg_cong [of _ _ ev_actions_json])
      then have "filter (\<lambda>e. ev_id e \<in> insert eid ids \<and> changes R e) (db_events d) =
          filter (\<lambda>e. e = e0 \<or> (ev_id e \<in> ids \<and> changes R e)) (db_events d)"
        using id0 by (intro filter_cong) auto
      moreover have "length (filter (\<lambda>e. e = e0) (db_events d)) = 1"
        using c \<open>filter _ (db_events d) = filter (\<lambda>e. e = e0) (db_events d)\<close> by (simp add: c_def rows_affected_def)
      ultimately show ?thesis
        using length_filter_disjoint [of "db_events d" "\<lambda>e. e = e0" "\<lambda>e. ev_id e \<in> ids \<and> changes R e"] out e0(3)
        by (auto simp: ids_def)
    qed
    ultimately show ?thesis using IH by (simp add: d1 ids_def)
  qed
qed simp

lemma rewrite_result:
  assumes "db_ok d"
  shows "\<exists>n err d'. RewriteActionSnapshots (Some R) d = Some ((n, err), d') \<and>
     (err = None \<longrightarrow> d' = d\<lparr>db_events := map (rewritten R) (db_events d)\<rparr> \<and>
                     n = length (filter (changes R) (db_events d)))"
proof -
  have dist: "distinct (map ev_id (db_events d))" using assms by (simp add: db_ok_def events_ok_def)
  define rows where "rows = snapshot_rows None d"
  have keys: "ev_id e \<in> fst ` set rows" if "e \<in> set (db_events d)" "has_snapshot e" for e
    using that by (force simp: rows_def snapshot_rows_def snapshot_row_def beyond_def)
  have same: "(if ev_id e \<in> fst ` set rows then rewritten R e else e) = rewritten R e"
    "(ev_id e \<in> fst ` set rows \<and> changes R e) = changes R e" if "e \<in> set (db_events d)" for e
    using keys [OF that] by (auto simp: changes_def rewritten_def)
  have sub: "set rows \<subseteq> snapshot_row ` {e \<in> set (db_events d). has_snapshot e}"
    by (auto simp: rows_def snapshot_rows_def)
  from rewrite_loop_returns [OF dist, of R 0 None]
  obtain n err d' where loop: "rewrite_loop R 0 None d = Some ((n, err), d')"
    "err = None \<longrightarrow> rewrite_batch R rows 0 d = ((n, None), d')"
    by (auto simp: rows_def)
  have "d' = d\<lparr>db_events := map (rewritten R) (db_events d)\<rparr> \<and> n = length (filter (changes R) (db_events d))" if "err = None"
  proof -
    have "rewrite_batch R rows 0 d = ((n, None), d')" using loop(2) that by simp
    from rewrite_batch_effect [OF this snapshot_rows_distinct [OF dist, of None, folded rows_def] dist sub]
    show ?thesis using same by (simp cong: map_cong filter_cong)
  qed
  with loop(1) show ?thesis by (auto simp: RewriteActionSnapshots_def)
qed

section \<open>Property\<close>

text \<open>C25: Rewriting the stored snapshots always ends, whatever the callback returns and wherever a query
  or a write fails; and when it reports no error, every stored snapshot has been replaced by its
  rewritten form exactly once, nothing else in the database has changed, and the number returned is
  the number of events whose snapshot is different now.\<close>

theorem snapshot_rewrite_terminates:
  assumes "db_ok d"
  shows "\<exists>n err d'. RewriteActionSnapshots (Some R) d = Some ((n, err), d') \<and>
     (err = None \<longrightarrow> d' = d\<lparr>db_events := map (rewritten R) (db_events d)\<rparr> \<and>
                     n = length (filter (changes R) (db_events d)))"
  using assms by (rule rewrite_result)

definition demo_rewrite :: "unit rewrite_env" where
  "demo_rewrite = \<lparr>rw_rewrite = (\<lambda>raw. Inr (map (\<lambda>c. if c = CHR ''s'' then CHR ''*'' else c) raw)),
     rw_queryErr = (\<lambda>_ _. False), rw_writeErr = (\<lambda>_ _. False), rw_cancelled = (\<lambda>_ _. False)\<rparr>"

definition demo_snapshots :: db where
  "demo_snapshots = snd (SavePendingEvent ''e2'' ''src'' [] ''{}'' 0 ''d2'' ''h2'' [] ''secret''
     (snd (SavePendingEvent ''e1'' ''src'' [] ''{}'' 0 ''d1'' ''h1'' [] ''none'' empty_db)))"

theorem snapshot_rewrite_terminates_witness:
  "\<exists>d'. RewriteActionSnapshots (Some demo_rewrite) demo_snapshots = Some ((1, None), d') \<and>
     map ev_actions_json (db_events d') = [Some ''none'', Some ''*ecret'']"
proof -
  have "map_option fst (RewriteActionSnapshots (Some demo_rewrite) demo_snapshots) = Some (1, None)" by code_simp
  moreover have "map ev_actions_json (map (rewritten demo_rewrite) (db_events demo_snapshots)) = [Some ''none'', Some ''*ecret'']"
    by code_simp
  moreover have "db_ok demo_snapshots" by code_simp
  ultimately show ?thesis using snapshot_rewrite_terminates [of demo_snapshots demo_rewrite] by auto
qed

end
