(* ===== verification/Template.thy ===== *)
theory Template
  imports Prelude
begin

text \<open>
  The placeholder language of configuration values and action templates: the three fixed
  regular expressions \<^verbatim>\<open>configEnvRe\<close> (\<^verbatim>\<open>internal/config/config.go\<close>),
  \<^verbatim>\<open>explicitSecretRefRe\<close> (\<^verbatim>\<open>internal/config/snapshot.go\<close>) and \<^verbatim>\<open>varRe\<close>
  (\<^verbatim>\<open>internal/handler/handler.go\<close>) as matchers, Go's \<^verbatim>\<open>ReplaceAllStringFunc\<close> and
  \<^verbatim>\<open>FindAllStringSubmatch\<close> as scans, and \<^verbatim>\<open>interpolateWith\<close>, \<^verbatim>\<open>missingExplicitSecret\<close> and
  \<^verbatim>\<open>expandConfigEnv\<close> on top of them. A matcher looks at a suffix of the text and returns the
  submatches and the number of bytes the match consumes. The environment is a function
  argument.
\<close>

section \<open>Matchers\<close>

definition ident_start :: "char \<Rightarrow> bool" where
  "ident_start c \<longleftrightarrow> (let n = of_char c :: int in
     (65 \<le> n \<and> n \<le> 90) \<or> (97 \<le> n \<and> n \<le> 122) \<or> n = 95)"

definition ident_char :: "char \<Rightarrow> bool" where
  "ident_char c \<longleftrightarrow> ident_start c \<or> (let n = of_char c :: int in 48 \<le> n \<and> n \<le> 57)"

definition ident :: "string \<Rightarrow> string option" where
  "ident s = (case s of [] \<Rightarrow> None | c # _ \<Rightarrow> if ident_start c then Some (takeWhile ident_char s) else None)"

text \<open>An identifier closed by a brace: its name and the bytes consumed.\<close>

definition closed_ident :: "string \<Rightarrow> (string \<times> nat) option" where
  "closed_ident s =
     (case ident s of
        None \<Rightarrow> None
      | Some k \<Rightarrow> if HasPrefix (drop (length k) s) ''}'' then Some (k, length k + 1) else None)"

text \<open>\<open>\<^verbatim>\<open>\$\{(?:(ns1|ns2):)?(ident)\}\<close>\<close> with an optional namespace, and the same with
  a namespace required.\<close>

definition spaced_ident :: "string list \<Rightarrow> string \<Rightarrow> (string \<times> string \<times> nat) option" where
  "spaced_ident namespaces s =
     (case find (\<lambda>ns. HasPrefix s (ns @ '':'')) namespaces of
        None \<Rightarrow> None
      | Some ns \<Rightarrow> map_option (\<lambda>(k, n). (ns, k, n + length ns + 1)) (closed_ident (drop (length ns + 1) s)))"

definition match_ref :: "string list \<Rightarrow> string \<Rightarrow> (string \<times> string \<times> nat) option" where
  "match_ref namespaces s =
     (if HasPrefix s ''${'' then
        (case spaced_ident namespaces (drop 2 s) of
           Some (ns, k, n) \<Rightarrow> Some (ns, k, n + 2)
         | None \<Rightarrow> map_option (\<lambda>(k, n). ([], k, n + 2)) (closed_ident (drop 2 s)))
      else None)"

definition varRe :: "string \<Rightarrow> (string \<times> string \<times> nat) option" where
  "varRe = match_ref [''event'', ''secret'']"

definition explicitSecretRefRe :: "string \<Rightarrow> (string \<times> nat) option" where
  "explicitSecretRefRe s =
     (if HasPrefix s ''${'' then map_option (\<lambda>(ns, k, n). (k, n + 2)) (spaced_ident [''secret''] (drop 2 s)) else None)"

definition configEnvRe :: "string \<Rightarrow> (string \<times> nat) option" where
  "configEnvRe s =
     (case match_ref [''ENV''] s of
        Some (_, k, n) \<Rightarrow> Some (k, n)
      | None \<Rightarrow> if HasPrefix s ''$'' then map_option (\<lambda>k. (k, length k + 1)) (ident (drop 1 s)) else None)"

section \<open>Scans\<close>

text \<open>The text as the regular expression sees it: literal bytes and non-overlapping matches,
  leftmost first.\<close>

datatype 'm piece = Lit char | Hit 'm string

function pieces :: "(string \<Rightarrow> ('m \<times> nat) option) \<Rightarrow> string \<Rightarrow> 'm piece list" where
  "pieces re s =
     (case s of
        [] \<Rightarrow> []
      | c # cs \<Rightarrow>
          (case re s of
             Some (m, n) \<Rightarrow> if 0 < n then Hit m (take n s) # pieces re (drop n s) else Lit c # pieces re cs
           | None \<Rightarrow> Lit c # pieces re cs))"
  by pat_completeness auto
termination
  by (relation "measure (\<lambda>(re, s). length s)") auto

declare pieces.simps [simp del]

fun piece_text :: "'m piece \<Rightarrow> string" where
  "piece_text (Lit c) = [c]"
| "piece_text (Hit m s) = s"

fun piece_subst :: "('m \<Rightarrow> string) \<Rightarrow> 'm piece \<Rightarrow> string" where
  "piece_subst f (Lit c) = [c]"
| "piece_subst f (Hit m s) = f m"

definition ReplaceAllStringFunc :: "(string \<Rightarrow> ('m \<times> nat) option) \<Rightarrow> ('m \<Rightarrow> string) \<Rightarrow> string \<Rightarrow> string" where
  "ReplaceAllStringFunc re f s = concat (map (piece_subst f) (pieces re s))"

fun piece_hits :: "'m piece list \<Rightarrow> 'm list" where
  "piece_hits [] = []"
| "piece_hits (Lit c # ps) = piece_hits ps"
| "piece_hits (Hit m s # ps) = m # piece_hits ps"

definition FindAllStringSubmatch :: "(string \<Rightarrow> ('m \<times> nat) option) \<Rightarrow> string \<Rightarrow> 'm list" where
  "FindAllStringSubmatch re s = piece_hits (pieces re s)"

definition varRe_groups :: "string \<Rightarrow> ((string \<times> string) \<times> nat) option" where
  "varRe_groups s = map_option (\<lambda>(ns, k, n). ((ns, k), n)) (varRe s)"

section \<open>Operations\<close>

definition resolve_ref :: "(string \<Rightarrow> string option) \<Rightarrow> (string \<Rightarrow> string option) \<Rightarrow> (string \<Rightarrow> string) \<Rightarrow> string \<times> string \<Rightarrow> string" where
  "resolve_ref env vars escape ref =
     (let (namespace, key) = ref in
      case (if namespace \<noteq> ''secret'' then vars key else None) of
        Some v \<Rightarrow> escape v
      | None \<Rightarrow>
          (case (if namespace \<noteq> ''event'' then env key else None) of
             Some v \<Rightarrow> escape v
           | None \<Rightarrow> []))"

definition interpolateWith :: "(string \<Rightarrow> string option) \<Rightarrow> string \<Rightarrow> (string \<Rightarrow> string option) \<Rightarrow> (string \<Rightarrow> string) \<Rightarrow> string" where
  "interpolateWith env s vars escape = ReplaceAllStringFunc varRe_groups (resolve_ref env vars escape) s"

definition interpolate :: "(string \<Rightarrow> string option) \<Rightarrow> string \<Rightarrow> (string \<Rightarrow> string option) \<Rightarrow> string" where
  "interpolate env s vars = interpolateWith env s vars (\<lambda>v. v)"

fun first_missing :: "(string \<Rightarrow> string option) \<Rightarrow> (string \<times> string) list \<Rightarrow> string option" where
  "first_missing env [] = None"
| "first_missing env ((namespace, key) # refs) =
     (if namespace \<noteq> ''secret'' then first_missing env refs
      else if env key = None \<or> env key = Some [] then Some key
      else first_missing env refs)"

fun missingExplicitSecret :: "(string \<Rightarrow> string option) \<Rightarrow> string list \<Rightarrow> string" where
  "missingExplicitSecret env [] = []"
| "missingExplicitSecret env (value # vals) =
     (case first_missing env (FindAllStringSubmatch varRe_groups value) of
        Some key \<Rightarrow> key
      | None \<Rightarrow> missingExplicitSecret env vals)"

definition expandConfigEnv :: "(string \<Rightarrow> string option) \<Rightarrow> string \<Rightarrow> bool \<Rightarrow> string" where
  "expandConfigEnv env s requireSet =
     concat (map (\<lambda>p. case p of
         Lit c \<Rightarrow> [c]
       | Hit key m \<Rightarrow> (case env key of Some v \<Rightarrow> v | None \<Rightarrow> if requireSet then [] else m))
       (pieces configEnvRe s))"

section \<open>Lemmas\<close>

text \<open>The pieces partition the text.\<close>

lemma pieces_text: "concat (map piece_text (pieces re s)) = s"
proof (induction re s rule: pieces.induct)
  case (1 re s)
  show ?case
  proof (cases s)
    case Nil
    then show ?thesis by (simp add: pieces.simps)
  next
    case (Cons c cs)
    show ?thesis
    proof (cases "\<exists>m n. re s = Some (m, n) \<and> 0 < n")
      case True
      then obtain m n where m: "re s = Some (m, n)" "0 < n" by blast
      with "1.IH"(2) Cons have "concat (map piece_text (pieces re (drop n s))) = drop n s" by blast
      with m Cons show ?thesis by (subst pieces.simps) simp
    next
      case False
      then have "pieces re s = Lit c # pieces re cs"
        using Cons by (subst pieces.simps) (auto split: option.splits prod.splits)
      moreover have "concat (map piece_text (pieces re cs)) = cs"
        using "1.IH"(1,3) [OF Cons] False by (cases "re s") auto
      ultimately show ?thesis using Cons by simp
    qed
  qed
qed

lemma subst_text_id:
  "(\<And>m t. Hit m t \<in> set ps \<Longrightarrow> f m = t) \<Longrightarrow> concat (map (piece_subst f) ps) = concat (map piece_text ps)"
proof (induction ps)
  case (Cons p ps)
  then show ?case by (cases p) auto
qed simp

lemma interpolate_no_refs:
  assumes "piece_hits (pieces varRe_groups s) = []"
  shows "interpolateWith env s vars escape = s"
proof -
  have "Hit m t \<notin> set ps" if "piece_hits ps = []" for m t and ps :: "(string \<times> string) piece list"
    using that by (induction ps rule: piece_hits.induct) auto
  with assms subst_text_id [of "pieces varRe_groups s"] pieces_text [of varRe_groups s]
  show ?thesis by (auto simp: interpolateWith_def ReplaceAllStringFunc_def)
qed

lemma first_missing_None:
  "first_missing env refs = None \<longleftrightarrow> (\<forall>k. (''secret'', k) \<in> set refs \<longrightarrow> env k \<noteq> None \<and> env k \<noteq> Some [])"
  by (induction env refs rule: first_missing.induct) auto

lemma hits_in_pieces: "Hit m t \<in> set ps \<Longrightarrow> m \<in> set (piece_hits ps)"
  by (induction ps rule: piece_hits.induct) auto

lemma concat_map_cong_hits:
  "(\<And>m. m \<in> set (piece_hits ps) \<Longrightarrow> f m = g m) \<Longrightarrow>
     concat (map (piece_subst f) ps) = concat (map (piece_subst g) ps)"
  by (induction ps rule: piece_hits.induct) auto

lemma closed_ident_ne: "closed_ident s = Some (k, n) \<Longrightarrow> k \<noteq> []"
  by (cases s) (auto simp: closed_ident_def ident_def ident_char_def split: if_splits option.splits)

lemma varRe_key_ne: "varRe_groups s = Some ((ns, k), n) \<Longrightarrow> k \<noteq> []"
  by (auto simp: varRe_groups_def varRe_def match_ref_def spaced_ident_def
      split: if_splits option.splits dest: closed_ident_ne)

lemma pieces_hits_from_matcher:
  "m \<in> set (piece_hits (pieces re s)) \<Longrightarrow> \<exists>t n. re t = Some (m, n)"
proof (induction re s rule: pieces.induct)
  case (1 re s)
  from "1.prems" show ?case
    by (subst (asm) pieces.simps)
       (auto split: list.splits option.splits prod.splits if_splits intro: "1.IH")
qed

lemma missingExplicitSecret_empty:
  "missingExplicitSecret env vals = [] \<longleftrightarrow>
     (\<forall>s \<in> set vals. first_missing env (FindAllStringSubmatch varRe_groups s) = None)"
proof (induction vals)
  case (Cons v vs)
  have "k \<noteq> []" if "first_missing env (FindAllStringSubmatch varRe_groups v) = Some k" for k
  proof -
    have "\<exists>ns. (ns, k) \<in> set refs" if "first_missing env refs = Some k" for refs
      using that by (induction env refs rule: first_missing.induct) (auto split: if_splits)
    from this [OF that] obtain ns where "(ns, k) \<in> set (piece_hits (pieces varRe_groups v))"
      by (auto simp: FindAllStringSubmatch_def)
    from pieces_hits_from_matcher [OF this] show ?thesis by (auto dest: varRe_key_ne)
  qed
  with Cons show ?case by (auto split: option.splits)
qed simp

text \<open>C39: secrets come from the environment only. When the handlers' check finds no missing
  secret in an action's strings, every explicit secret reference of such a string has a
  non-empty environment value, and the interpolated text depends on the event's variables only
  through the references outside the secret namespace: event data can neither supply nor
  change a secret.\<close>

theorem secrets_come_from_environment:
  assumes "missingExplicitSecret env vals = []" and "s \<in> set vals"
    and "\<And>ns k. (ns, k) \<in> set (FindAllStringSubmatch varRe_groups s) \<Longrightarrow> ns \<noteq> ''secret'' \<Longrightarrow> vars k = vars' k"
  shows "interpolateWith env s vars escape = interpolateWith env s vars' escape \<and>
    (\<forall>k. (''secret'', k) \<in> set (FindAllStringSubmatch varRe_groups s) \<longrightarrow>
       (\<exists>v. v \<noteq> [] \<and> env k = Some v \<and> resolve_ref env vars escape (''secret'', k) = escape v))"
proof (intro conjI allI impI)
  show "interpolateWith env s vars escape = interpolateWith env s vars' escape"
    unfolding interpolateWith_def ReplaceAllStringFunc_def
    by (rule concat_map_cong_hits)
       (use assms(3) in \<open>auto simp: resolve_ref_def FindAllStringSubmatch_def Let_def\<close>)
  fix k assume "(''secret'', k) \<in> set (FindAllStringSubmatch varRe_groups s)"
  moreover have "first_missing env (FindAllStringSubmatch varRe_groups s) = None"
    using assms(1,2) by (simp add: missingExplicitSecret_empty)
  ultimately have "env k \<noteq> None" "env k \<noteq> Some []" by (auto simp: first_missing_None)
  then show "\<exists>v. v \<noteq> [] \<and> env k = Some v \<and> resolve_ref env vars escape (''secret'', k) = escape v"
    by (auto simp: resolve_ref_def)
qed

definition demo_env :: "string \<Rightarrow> string option" where
  "demo_env = [''TOKEN'' \<mapsto> ''t0ps3cret'']"

theorem secrets_come_from_environment_witness:
  "interpolateWith demo_env ''a ${secret:TOKEN} ${x}'' [''TOKEN'' \<mapsto> ''evil'', ''x'' \<mapsto> ''${TOKEN}''] (\<lambda>v. v) =
     interpolateWith demo_env ''a ${secret:TOKEN} ${x}'' [''x'' \<mapsto> ''${TOKEN}''] (\<lambda>v. v) \<and>
   interpolateWith demo_env ''a ${secret:TOKEN} ${x}'' [''x'' \<mapsto> ''${TOKEN}''] (\<lambda>v. v) = ''a t0ps3cret ${TOKEN}''"
proof -
  have refs: "FindAllStringSubmatch varRe_groups ''a ${secret:TOKEN} ${x}'' = [(''secret'', ''TOKEN''), ([], ''x'')]"
    by code_simp
  have "missingExplicitSecret demo_env [''a ${secret:TOKEN} ${x}''] = []" by code_simp
  from secrets_come_from_environment [OF this, of "''a ${secret:TOKEN} ${x}''"
      "[''TOKEN'' \<mapsto> ''evil'', ''x'' \<mapsto> ''${TOKEN}'']" "[''x'' \<mapsto> ''${TOKEN}'']" "\<lambda>v. v"]
  have "interpolateWith demo_env ''a ${secret:TOKEN} ${x}'' [''TOKEN'' \<mapsto> ''evil'', ''x'' \<mapsto> ''${TOKEN}''] (\<lambda>v. v) =
     interpolateWith demo_env ''a ${secret:TOKEN} ${x}'' [''x'' \<mapsto> ''${TOKEN}''] (\<lambda>v. v)"
    by (simp add: refs)
  moreover have "interpolateWith demo_env ''a ${secret:TOKEN} ${x}'' [''x'' \<mapsto> ''${TOKEN}''] (\<lambda>v. v) =
      ''a t0ps3cret ${TOKEN}''" by code_simp
  ultimately show ?thesis by simp
qed

end
