(* ===== verification/Go_Net.thy ===== *)
theory Go_Net
  imports Prelude "HOL-Library.Word"
begin

unbundle bit_operations_syntax

text \<open>
  What the gateway uses of Go's \<^verbatim>\<open>net\<close>, \<^verbatim>\<open>net/textproto\<close> and \<^verbatim>\<open>net/http\<close>: addresses and their
  textual form, networks, \<open>host:port\<close> strings, HTTP headers and the part of a request that the
  handlers read. An IP is its list of bytes, four or sixteen of them as in \<open>net.IP\<close>; a parse
  error is \<open>None\<close>.
\<close>

section \<open>Positions in strings\<close>

fun IndexByte :: "string \<Rightarrow> char \<Rightarrow> nat option" where
  "IndexByte [] c = None"
| "IndexByte (x # xs) c = (if x = c then Some 0 else map_option Suc (IndexByte xs c))"

definition LastIndexByte :: "string \<Rightarrow> char \<Rightarrow> nat option" where
  "LastIndexByte s c = map_option (\<lambda>i. length s - 1 - i) (IndexByte (rev s) c)"

lemma IndexByte_None [simp]: "IndexByte s c = None \<longleftrightarrow> c \<notin> set s"
  by (induction s) auto

lemma IndexByte_Some:
  "IndexByte s c = Some i \<Longrightarrow> i < length s \<and> s ! i = c \<and> c \<notin> set (take i s)"
  by (induction s arbitrary: i) (auto split: if_splits)

definition isHexDigit :: "char \<Rightarrow> bool" where
  "isHexDigit c = (let n = of_char c :: int in
     (48 \<le> n \<and> n \<le> 57) \<or> (97 \<le> n \<and> n \<le> 102) \<or> (65 \<le> n \<and> n \<le> 70))"

definition hex_val :: "char \<Rightarrow> int" where
  "hex_val c = (let n = of_char c :: int in
     if n \<le> 57 then n - 48 else if n \<le> 70 then n - 55 else n - 87)"

section \<open>Addresses\<close>

type_synonym IP = "8 word list"

definition v4InV6Prefix :: IP where
  "v4InV6Prefix = replicate 10 0 @ [255, 255]"

text \<open>\<open>IP.To4\<close>, \<open>IP.To16\<close> and \<open>IP.Equal\<close>.\<close>

definition To4 :: "IP \<Rightarrow> IP option" where
  "To4 ip = (if length ip = 4 then Some ip
     else if length ip = 16 \<and> take 12 ip = v4InV6Prefix then Some (drop 12 ip) else None)"

definition ip_Equal :: "IP \<Rightarrow> IP \<Rightarrow> bool" where
  "ip_Equal a b =
     (if length a = length b then a = b
      else if length a = 4 \<and> length b = 16 then take 12 b = v4InV6Prefix \<and> a = drop 12 b
      else if length a = 16 \<and> length b = 4 then take 12 a = v4InV6Prefix \<and> drop 12 a = b
      else False)"

text \<open>\<open>netip.ParseAddr\<close> on a dotted address: four decimal octets without leading zeros.\<close>

definition octet :: "string \<Rightarrow> 8 word option" where
  "octet s = (if s \<noteq> [] \<and> list_all is_digit s \<and> length s \<le> 3 \<and> (length s = 1 \<or> hd s \<noteq> CHR ''0'') \<and> undigits 0 s \<le> 255
     then Some (of_int (undigits 0 s)) else None)"

fun all_some :: "'a option list \<Rightarrow> 'a list option" where
  "all_some [] = Some []"
| "all_some (None # xs) = None"
| "all_some (Some x # xs) = map_option ((#) x) (all_some xs)"

definition parseIPv4 :: "string \<Rightarrow> IP option" where
  "parseIPv4 s = (let fs = Split CHR ''.'' s in
     if length fs = 4 then all_some (map octet fs) else None)"

text \<open>The groups of an IPv6 address: \<open>parse_groups\<close> is the loop of \<open>netip.parseIPv6\<close>. Its
  arguments are the bytes parsed so far and the position of the ellipsis; the loop ends at sixteen
  bytes, so a fuel of eight rounds is enough.\<close>

fun hex_run :: "string \<Rightarrow> string \<times> string" where
  "hex_run s = (takeWhile isHexDigit s, dropWhile isHexDigit s)"

fun hex_value :: "int \<Rightarrow> string \<Rightarrow> int" where
  "hex_value acc [] = acc"
| "hex_value acc (c # cs) = hex_value (acc * 16 + hex_val c) cs"

fun parse_groups :: "nat \<Rightarrow> IP \<Rightarrow> nat option \<Rightarrow> string \<Rightarrow> (IP \<times> nat option \<times> string) option" where
  "parse_groups 0 bytes ell s = Some (bytes, ell, s)"
| "parse_groups (Suc fuel) bytes ell s =
     (if 16 \<le> length bytes then Some (bytes, ell, s)
      else let (ds, rest) = hex_run s in
        if ds = [] \<or> 4 < length ds then None
        else if rest \<noteq> [] \<and> hd rest = CHR ''.'' then
          (if (ell = None \<and> length bytes \<noteq> 12) \<or> 16 < length bytes + 4 then None
           else case parseIPv4 s of
              None \<Rightarrow> None
            | Some v4 \<Rightarrow> Some (bytes @ v4, ell, []))
        else
          (let acc = hex_value 0 ds;
               bytes1 = bytes @ [of_int (acc div 256), of_int acc]
           in if rest = [] then Some (bytes1, ell, [])
              else if hd rest \<noteq> CHR '':'' \<or> length rest = 1 then None
              else let s1 = tl rest in
                if hd s1 = CHR '':'' then
                  (if ell \<noteq> None then None
                   else if length s1 = 1 then Some (bytes1, Some (length bytes1), [])
                   else parse_groups fuel bytes1 (Some (length bytes1)) (tl s1))
                else parse_groups fuel bytes1 ell s1))"

definition finish_groups :: "(IP \<times> nat option \<times> string) option \<Rightarrow> IP option" where
  "finish_groups r =
     (case r of
        None \<Rightarrow> None
      | Some (bytes, ell, s) \<Rightarrow>
          if s \<noteq> [] then None
          else if length bytes < 16 then
            (case ell of
               None \<Rightarrow> None
             | Some e \<Rightarrow> Some (take e bytes @ replicate (16 - length bytes) 0 @ drop e bytes))
          else if ell \<noteq> None then None else Some bytes)"

definition parseIPv6 :: "string \<Rightarrow> IP option" where
  "parseIPv6 s =
     (if HasPrefix s ''::'' then
        (if length s = 2 then Some (replicate 16 0)
         else finish_groups (parse_groups 8 [] (Some 0) (drop 2 s)))
      else finish_groups (parse_groups 8 [] None s))"

text \<open>\<open>netip.ParseAddr\<close> without a zone (both callers reject one): the first of dot and colon
  decides. The result is the family and the sixteen bytes, four bytes for a dotted address.\<close>

definition parseAddr :: "string \<Rightarrow> IP option" where
  "parseAddr s =
     (case find (\<lambda>c. c = CHR ''.'' \<or> c = CHR '':'' \<or> c = CHR ''%'') s of
        None \<Rightarrow> None
      | Some c \<Rightarrow>
          if c = CHR ''.'' then parseIPv4 s
          else if c = CHR '':'' then (if CHR ''%'' \<in> set s then None else parseIPv6 s)
          else None)"

definition As16 :: "IP \<Rightarrow> IP" where
  "As16 ip = (if length ip = 4 then v4InV6Prefix @ ip else ip)"

definition ParseIP :: "string \<Rightarrow> IP option" where
  "ParseIP s = map_option As16 (parseAddr s)"

text \<open>\<open>IP.String\<close>: dotted notation for IPv4, otherwise eight hexadecimal groups with the first longest
  run of at least two zero groups written as a double colon.\<close>

function hex_digits :: "int \<Rightarrow> string" where
  "hex_digits n =
     (let d = (if n mod 16 < 10 then digit (n mod 16) else char_of (n mod 16 + 87))
      in if n < 16 then [d] else hex_digits (n div 16) @ [d])"
  by pat_completeness auto
termination by (relation "measure nat") auto

declare hex_digits.simps [simp del]

fun ip_groups :: "IP \<Rightarrow> int list" where
  "ip_groups (a # b # rest) = (uint a * 256 + uint b) # ip_groups rest"
| "ip_groups _ = []"

definition zero_run :: "int list \<Rightarrow> nat" where
  "zero_run gs = length (takeWhile (\<lambda>g. g = 0) gs)"

definition longest_zero_run :: "int list \<Rightarrow> nat \<times> nat" where
  "longest_zero_run gs =
     fold (\<lambda>i (start, len). let l = zero_run (drop i gs) in if 2 \<le> l \<and> len < l then (i, l) else (start, len))
       [0..<length gs] (0, 0)"

definition ip_String :: "IP \<Rightarrow> string" where
  "ip_String ip =
     (if ip = [] then ''<nil>''
      else case To4 ip of
        Some p4 \<Rightarrow> Join ''.'' (map (\<lambda>b. Itoa (uint b)) p4)
      | None \<Rightarrow>
          if length ip = 16 then
            (let gs = ip_groups ip; hex = (\<lambda>xs. Join '':'' (map hex_digits xs))
             in case longest_zero_run gs of
                  (_, 0) \<Rightarrow> hex gs
                | (start, len) \<Rightarrow> hex (take start gs) @ ''::'' @ hex (drop (start + len) gs))
          else ''?'' @ concat (map (\<lambda>b. hex_digits (uint b div 16) @ hex_digits (uint b mod 16)) ip))"

section \<open>Networks\<close>

record IPNet =
  net_IP :: IP
  net_Mask :: IP

fun CIDRMask :: "nat \<Rightarrow> nat \<Rightarrow> IP" where
  "CIDRMask n 0 = []"
| "CIDRMask n (Suc k) =
     (if 8 \<le> n then 255 # CIDRMask (n - 8) k else NOT (drop_bit n 255) # CIDRMask 0 k)"

definition and_bytes :: "IP \<Rightarrow> IP \<Rightarrow> IP" where
  "and_bytes a b = map2 (AND) a b"

definition ip_Mask :: "IP \<Rightarrow> IP \<Rightarrow> IP" where
  "ip_Mask ip msk =
     (let msk1 = (if length msk = 16 \<and> length ip = 4 \<and> list_all (\<lambda>b. b = 255) (take 12 msk)
                   then drop 12 msk else msk);
          ip1 = (if length msk1 = 4 \<and> length ip = 16 \<and> take 12 ip = v4InV6Prefix then drop 12 ip else ip)
      in if length ip1 = length msk1 then and_bytes ip1 msk1 else [])"

text \<open>\<open>net.ParseCIDR\<close>: an address, a slash and a prefix length of plain digits.\<close>

definition ParseCIDR :: "string \<Rightarrow> IPNet option" where
  "ParseCIDR s =
     (case IndexByte s CHR ''/'' of
        None \<Rightarrow> None
      | Some i \<Rightarrow>
          (case parseAddr (take i s) of
             None \<Rightarrow> None
           | Some a \<Rightarrow>
               let m = drop (i + 1) s; n = undigits 0 m in
               if m = [] \<or> \<not> list_all is_digit m \<or> n > 8 * int (length a) then None
               else let msk = CIDRMask (nat n) (length a)
                    in Some \<lparr>net_IP = ip_Mask (As16 a) msk, net_Mask = msk\<rparr>))"

definition net_Contains :: "IPNet \<Rightarrow> IP \<Rightarrow> bool" where
  "net_Contains n ip =
     (let nn = (case To4 (net_IP n) of Some x \<Rightarrow> x | None \<Rightarrow> net_IP n);
          m = (if length (net_Mask n) = 16 \<and> length nn = 4 then drop 12 (net_Mask n) else net_Mask n);
          x = (case To4 ip of Some y \<Rightarrow> y | None \<Rightarrow> ip)
      in (length nn = 4 \<or> length nn = 16) \<and> length m = length nn \<and> length x = length nn
         \<and> and_bytes nn m = and_bytes x m)"

section \<open>Classes of addresses\<close>

definition IsUnspecified :: "IP \<Rightarrow> bool" where
  "IsUnspecified ip \<longleftrightarrow> ip_Equal ip (v4InV6Prefix @ replicate 4 0) \<or> ip_Equal ip (replicate 16 0)"

definition IsLoopback :: "IP \<Rightarrow> bool" where
  "IsLoopback ip = (case To4 ip of Some a \<Rightarrow> a ! 0 = 127 | None \<Rightarrow> ip_Equal ip (replicate 15 0 @ [1]))"

definition IsPrivate :: "IP \<Rightarrow> bool" where
  "IsPrivate ip = (case To4 ip of
     Some a \<Rightarrow> a ! 0 = 10 \<or> (a ! 0 = 172 \<and> a ! 1 AND 240 = 16) \<or> (a ! 0 = 192 \<and> a ! 1 = 168)
   | None \<Rightarrow> length ip = 16 \<and> ip ! 0 AND 254 = 252)"

definition IsMulticast :: "IP \<Rightarrow> bool" where
  "IsMulticast ip = (case To4 ip of Some a \<Rightarrow> a ! 0 AND 240 = 224 | None \<Rightarrow> length ip = 16 \<and> ip ! 0 = 255)"

definition IsLinkLocalMulticast :: "IP \<Rightarrow> bool" where
  "IsLinkLocalMulticast ip = (case To4 ip of
     Some a \<Rightarrow> a ! 0 = 224 \<and> a ! 1 = 0 \<and> a ! 2 = 0
   | None \<Rightarrow> length ip = 16 \<and> ip ! 0 = 255 \<and> ip ! 1 AND 15 = 2)"

definition IsLinkLocalUnicast :: "IP \<Rightarrow> bool" where
  "IsLinkLocalUnicast ip = (case To4 ip of
     Some a \<Rightarrow> a ! 0 = 169 \<and> a ! 1 = 254
   | None \<Rightarrow> length ip = 16 \<and> ip ! 0 = 254 \<and> ip ! 1 AND 192 = 128)"

section \<open>Host and port\<close>

definition SplitHostPort :: "string \<Rightarrow> (string \<times> string) option" where
  "SplitHostPort hp =
     (case LastIndexByte hp CHR '':'' of
        None \<Rightarrow> None
      | Some i \<Rightarrow>
          if hd hp = CHR ''['' then
            (case IndexByte hp CHR '']'' of
               None \<Rightarrow> None
             | Some e \<Rightarrow>
                 if e + 1 \<noteq> i then None
                 else if CHR ''['' \<in> set (drop 1 hp) \<or> CHR '']'' \<in> set (drop (e + 1) hp) then None
                 else Some (take (e - 1) (drop 1 hp), drop (i + 1) hp))
          else
            (if CHR '':'' \<in> set (take i hp) \<or> CHR ''['' \<in> set hp \<or> CHR '']'' \<in> set hp then None
             else Some (take i hp, drop (i + 1) hp)))"

definition JoinHostPort :: "string \<Rightarrow> string \<Rightarrow> string" where
  "JoinHostPort host port =
     (if CHR '':'' \<in> set host then ''['' @ host @ '']:'' @ port else host @ '':'' @ port)"

section \<open>Headers and requests\<close>

definition token_byte :: "char \<Rightarrow> bool" where
  "token_byte c = (let n = of_char c :: int in
     (48 \<le> n \<and> n \<le> 57) \<or> (65 \<le> n \<and> n \<le> 90) \<or> (97 \<le> n \<and> n \<le> 122)
     \<or> c \<in> set ''!#$%&*+-.^_`|~'' \<or> n = 39)"

fun canon_key :: "bool \<Rightarrow> string \<Rightarrow> string" where
  "canon_key up [] = []"
| "canon_key up (c # cs) =
     (if up then upper_char c else lower_char c) # canon_key (c = CHR ''-'') cs"

definition CanonicalHeaderKey :: "string \<Rightarrow> string" where
  "CanonicalHeaderKey k = (if list_all token_byte k then canon_key True k else k)"

type_synonym header = "(string \<times> string list) list"

text \<open>\<open>Header.Get\<close> is the first value under the canonical key, \<open>Header.Set\<close> replaces them all.\<close>

definition header_Get :: "header \<Rightarrow> string \<Rightarrow> string" where
  "header_Get h k = (case map_of h (CanonicalHeaderKey k) of
     Some (v # vs) \<Rightarrow> v | _ \<Rightarrow> [])"

definition header_Set :: "header \<Rightarrow> string \<Rightarrow> string \<Rightarrow> header" where
  "header_Set h k v = (let c = CanonicalHeaderKey k in (c, [v]) # filter (\<lambda>e. fst e \<noteq> c) h)"

lemma header_Get_Set [simp]:
  "header_Get (header_Set h k v) j =
     (if CanonicalHeaderKey j = CanonicalHeaderKey k then v else header_Get h j)"
proof -
  have "map_of (filter (\<lambda>e. fst e \<noteq> CanonicalHeaderKey k) h) c = map_of h c"
    if "c \<noteq> CanonicalHeaderKey k" for c
    using that by (induction h) auto
  then show ?thesis by (simp add: header_Get_def header_Set_def Let_def)
qed

text \<open>A server request: the body is what reading it yields, or the failure to read it.\<close>

record http_request =
  rq_RemoteAddr :: string
  rq_Header :: header
  rq_ContentLength :: int
  rq_Body :: "string option option" \<comment> \<open>\<open>None\<close> no body, \<open>Some None\<close> reading fails\<close>
  rq_Query :: "string \<Rightarrow> string" \<comment> \<open>first value of a query parameter\<close>
  rq_PathValue :: "string \<Rightarrow> string"

definition Get :: "http_request \<Rightarrow> string \<Rightarrow> string" where
  "Get r k = header_Get (rq_Header r) k"

text \<open>\<open>io.ReadAll(io.LimitReader(body, n))\<close>; a server's request body is never nil.\<close>

definition ReadLimited :: "http_request \<Rightarrow> nat \<Rightarrow> string option" where
  "ReadLimited r n = (case rq_Body r of None \<Rightarrow> Some [] | Some b \<Rightarrow> map_option (take n) b)"

section \<open>Facts\<close>

lemma all_some_Some: "all_some xs = Some ys \<longleftrightarrow> xs = map Some ys"
proof (induction xs arbitrary: ys)
  case Nil
  then show ?case by (cases ys) auto
next
  case (Cons x xs)
  then show ?case by (cases x; cases ys) auto
qed

lemma parseIPv4_length: "parseIPv4 s = Some ip \<Longrightarrow> length ip = 4"
  by (auto simp: parseIPv4_def Let_def all_some_Some split: if_splits dest: arg_cong [of _ _ length])

definition groups_fit :: "IP \<Rightarrow> nat option \<Rightarrow> bool" where
  "groups_fit bytes ell \<longleftrightarrow> length bytes \<le> 16 \<and> even (length bytes) \<and> (\<forall>k. ell = Some k \<longrightarrow> k \<le> length bytes)"

lemma parse_groups_fit:
  "parse_groups n bytes ell s = Some (b, e, r) \<Longrightarrow> groups_fit bytes ell \<Longrightarrow> groups_fit b e"
proof (induction n arbitrary: bytes ell s)
  case (Suc n)
  have room: "groups_fit (bytes @ [x, y]) ell" "groups_fit (bytes @ [x, y]) (Some (length bytes + 2))"
    if "\<not> 16 \<le> length bytes" for x y
  proof -
    have "even (length bytes)" using Suc.prems(2) by (simp add: groups_fit_def)
    with that have "length bytes + 2 \<le> 16" by presburger
    then show "groups_fit (bytes @ [x, y]) ell" "groups_fit (bytes @ [x, y]) (Some (length bytes + 2))"
      using Suc.prems(2) by (auto simp: groups_fit_def)
  qed
  have v4: "groups_fit (bytes @ v) ell" if "parseIPv4 t = Some v" "length bytes + 4 \<le> 16" for t v
    using that Suc.prems(2) by (auto simp: groups_fit_def dest!: parseIPv4_length)
  show ?case
    using Suc.prems room v4 Suc.IH
    by (auto simp: Let_def not_less split: if_splits option.splits prod.splits)
qed simp

lemma finish_groups_length:
  assumes "finish_groups (parse_groups n [] ell s) = Some ip" and "groups_fit [] ell"
  shows "length ip = 16"
proof -
  obtain b e r where g: "parse_groups n [] ell s = Some (b, e, r)"
    using assms(1) by (auto simp: finish_groups_def split: option.splits)
  with parse_groups_fit [OF g assms(2)] assms(1) show ?thesis
    by (auto simp: finish_groups_def groups_fit_def split: option.splits if_splits)
qed

lemma parseIPv6_length: "parseIPv6 s = Some ip \<Longrightarrow> length ip = 16"
  by (auto simp: parseIPv6_def groups_fit_def split: if_splits dest!: finish_groups_length)

lemma ParseIP_length: "ParseIP s = Some ip \<Longrightarrow> length ip = 16"
  by (auto simp: ParseIP_def parseAddr_def As16_def v4InV6Prefix_def
      split: option.splits if_splits dest: parseIPv4_length parseIPv6_length)

end
