(* ===== verification/Go_Url.thy ===== *)
theory Go_Url
  imports Go_Net "HOL-Library.List_Lexorder" "HOL-Library.Char_ord"
begin

text \<open>
  What the gateway uses of Go's \<^verbatim>\<open>net/url\<close> and \<^verbatim>\<open>path\<close> on a parsed URL: host name and port, percent
  encoding and decoding, the escaped path, the string form, and \<open>path.Clean\<close> on rooted paths.
  \<open>Go_Url_Parse\<close> has the parser. The flag \<open>OmitHost\<close> of a URL without an authority is left out: it
  only matters to the string form of such a URL, which no caller asks for.
\<close>

record url =
  u_Scheme :: string
  u_Host :: string
  u_Opaque :: string
  u_Fragment :: string
  u_RawFragment :: string
  u_HasUser :: bool
  u_User :: string
  u_Path :: string
  u_RawPath :: string
  u_RawQuery :: string
  u_ForceQuery :: bool

section \<open>Host and port\<close>

definition validOptionalPort :: "string \<Rightarrow> bool" where
  "validOptionalPort p = (case p of [] \<Rightarrow> True | c # ds \<Rightarrow> c = CHR '':'' \<and> list_all is_digit ds)"

definition strip_brackets :: "string \<Rightarrow> string" where
  "strip_brackets h = (if HasPrefix h ''['' \<and> HasSuffix h '']'' \<and> 2 \<le> length h then take (length h - 2) (drop 1 h) else h)"

definition url_splitHostPort :: "string \<Rightarrow> string \<times> string" where
  "url_splitHostPort hp =
     (case LastIndexByte hp CHR '':'' of
        Some i \<Rightarrow> if validOptionalPort (drop i hp) then (strip_brackets (take i hp), drop (i + 1) hp)
                  else (strip_brackets hp, [])
      | None \<Rightarrow> (strip_brackets hp, []))"

definition Hostname :: "url \<Rightarrow> string" where
  "Hostname u = fst (url_splitHostPort (u_Host u))"

definition Port :: "url \<Rightarrow> string" where
  "Port u = snd (url_splitHostPort (u_Host u))"

section \<open>Percent encoding\<close>

datatype encoding = encodePath | encodeHost | encodeZone | encodeUserPassword | encodeQueryComponent | encodeFragment

definition alnum :: "char \<Rightarrow> bool" where
  "alnum c = (let n = of_char c :: int in (48 \<le> n \<and> n \<le> 57) \<or> (65 \<le> n \<and> n \<le> 90) \<or> (97 \<le> n \<and> n \<le> 122))"

definition apostrophe :: char where "apostrophe = CHR 0x27"

definition shouldEscape :: "char \<Rightarrow> encoding \<Rightarrow> bool" where
  "shouldEscape c mode =
     (if alnum c then False
      else if (mode = encodeHost \<or> mode = encodeZone) \<and> (c \<in> set ''!$&()*+,;=:[]<>'' \<or> c = apostrophe \<or> c = CHR 0x22) then False
      else if c \<in> set ''-_.~'' then False
      else if c \<in> set ''$&+,/:;=?@''
      then (case mode of encodePath \<Rightarrow> c = CHR ''?'' | encodeUserPassword \<Rightarrow> c \<in> set ''@/?:'' | encodeFragment \<Rightarrow> False | _ \<Rightarrow> True)
      else if mode = encodeFragment \<and> c \<in> set ''!()*'' then False
      else True)"

definition upper_hex :: "int \<Rightarrow> char" where
  "upper_hex n = (if n < 10 then digit n else char_of (n + 55))"

fun url_escape :: "encoding \<Rightarrow> string \<Rightarrow> string" where
  "url_escape mode [] = []"
| "url_escape mode (c # cs) =
     (if mode = encodeQueryComponent \<and> c = CHR '' '' then CHR ''+'' # url_escape mode cs
      else if shouldEscape c mode
      then (let n = of_char c :: int in CHR ''%'' # upper_hex (n div 16) # upper_hex (n mod 16) # url_escape mode cs)
      else c # url_escape mode cs)"

definition validEncoded :: "string \<Rightarrow> encoding \<Rightarrow> bool" where
  "validEncoded s mode = list_all (\<lambda>c. c \<in> set ''!$&()*+,;=:@[]%'' \<or> c = apostrophe \<or> \<not> shouldEscape c mode) s"

text \<open>\<open>url.PathUnescape\<close>, and the decoding of a raw path: every percent sign starts an escape.\<close>

fun PathUnescape :: "string \<Rightarrow> string option" where
  "PathUnescape [] = Some []"
| "PathUnescape (c # cs) =
     (if c = CHR ''%'' then
        (case cs of
           h # l # rest \<Rightarrow>
             if isHexDigit h \<and> isHexDigit l
             then map_option ((#) (char_of (hex_val h * 16 + hex_val l))) (PathUnescape rest)
             else None
         | _ \<Rightarrow> None)
      else map_option ((#) c) (PathUnescape cs))"

definition EscapedPath :: "url \<Rightarrow> string" where
  "EscapedPath u =
     (if u_RawPath u \<noteq> [] \<and> validEncoded (u_RawPath u) encodePath \<and> PathUnescape (u_RawPath u) = Some (u_Path u)
      then u_RawPath u
      else if u_Path u = ''*'' then ''*''
      else url_escape encodePath (u_Path u))"

definition EscapedFragment :: "url \<Rightarrow> string" where
  "EscapedFragment u =
     (if u_RawFragment u \<noteq> [] \<and> validEncoded (u_RawFragment u) encodeFragment \<and>
         PathUnescape (u_RawFragment u) = Some (u_Fragment u)
      then u_RawFragment u else url_escape encodeFragment (u_Fragment u))"

text \<open>\<open>URL.String\<close> of a URL with a scheme; \<open>u_User\<close> is the encoded userinfo.\<close>

definition url_authority :: "url \<Rightarrow> string" where
  "url_authority u =
     (if u_Host u \<noteq> [] \<or> u_Path u \<noteq> [] \<or> u_HasUser u then ''//'' else []) @
     (if u_HasUser u then u_User u @ ''@'' else []) @ url_escape encodeHost (u_Host u)"

definition url_String :: "url \<Rightarrow> string" where
  "url_String u =
     (let p = EscapedPath u
      in (if u_Scheme u \<noteq> [] then u_Scheme u @ '':'' else []) @
         (if u_Opaque u \<noteq> [] then u_Opaque u
          else url_authority u @ (if p \<noteq> [] \<and> hd p \<noteq> CHR ''/'' \<and> u_Host u \<noteq> [] then ''/'' else []) @ p) @
         (if u_ForceQuery u \<or> u_RawQuery u \<noteq> [] then ''?'' @ u_RawQuery u else []) @
         (if u_Fragment u \<noteq> [] then ''#'' @ EscapedFragment u else []))"

text \<open>Decoding undoes encoding, and what the mode encodes does not occur in the encoded text.\<close>

lemma hex_bytes: "0 \<le> n \<Longrightarrow> n < 16 \<Longrightarrow> isHexDigit (upper_hex n) \<and> hex_val (upper_hex n) = n"
proof -
  assume "0 \<le> n" "n < 16"
  then have "n \<in> set [0..15]" by simp
  moreover have "list_all (\<lambda>n. isHexDigit (upper_hex n) \<and> hex_val (upper_hex n) = n) [0..15]" by code_simp
  ultimately show ?thesis by (simp only: list_all_iff)
qed

lemma of_char_bounds: "0 \<le> (of_char c :: int)" "(of_char c :: int) < 256"
  by (simp_all add: of_char_def)

lemma all_chars: "list_all (\<lambda>n. P (char_of n)) [0..255::int] \<Longrightarrow> P c"
proof -
  assume all: "list_all (\<lambda>n. P (char_of n)) [0..255::int]"
  have "(of_char c :: int) \<in> set [0..255]" using of_char_bounds [of c] by simp
  with all have "P (char_of (of_char c :: int))" unfolding list_all_iff by blast
  then show ?thesis by (simp only: char_of_char)
qed

lemma escape_unescape: "mode \<noteq> encodeQueryComponent \<Longrightarrow> PathUnescape (url_escape mode s) = Some s"
proof (induction s)
  case (Cons c cs)
  let ?n = "of_char c :: int"
  show ?case
  proof (cases "shouldEscape c mode")
    case True
    have hi: "0 \<le> ?n div 16" "?n div 16 < 16" using of_char_bounds [of c] by auto
    have lo: "0 \<le> ?n mod 16" "?n mod 16 < 16" by simp_all
    have "?n div 16 * 16 + ?n mod 16 = ?n" by simp
    moreover have "char_of ?n = c" by (rule char_of_char)
    ultimately show ?thesis using True Cons hex_bytes [OF hi] hex_bytes [OF lo] by (simp add: Let_def)
  next
    case False
    have "\<forall>m \<in> set [encodePath, encodeHost, encodeZone, encodeUserPassword, encodeQueryComponent, encodeFragment]. shouldEscape CHR ''%'' m"
      by code_simp
    then have "shouldEscape CHR ''%'' mode" by (cases mode) simp_all
    with False have "c \<noteq> CHR ''%''" by auto
    with False Cons show ?thesis by simp
  qed
qed simp

lemma escape_plain: "mode \<noteq> encodeQueryComponent \<Longrightarrow> shouldEscape c mode \<Longrightarrow> \<not> alnum c \<Longrightarrow> c \<noteq> CHR ''%'' \<Longrightarrow> c \<notin> set (url_escape mode s)"
proof (induction s)
  case (Cons x xs)
  have hex: "alnum (upper_hex n)" if "0 \<le> n" "n < 16" for n
  proof -
    have "n \<in> set [0..15]" using that by simp
    moreover have "list_all (\<lambda>n. alnum (upper_hex n)) [0..15]" by code_simp
    ultimately show ?thesis by (simp only: list_all_iff)
  qed
  have "alnum (upper_hex (of_char x div 16))" "alnum (upper_hex (of_char x mod 16))"
    using hex of_char_bounds [of x] by auto
  with Cons show ?case by (auto simp: Let_def)
qed simp

section \<open>Queries\<close>

text \<open>\<open>url.Values\<close> as an association list, \<open>url.ParseQuery\<close> with its error flag and \<open>Values.Encode\<close>, which
  sorts the keys. A setting with a bad escape or a semicolon is skipped and reported.\<close>

type_synonym values_map = "(string \<times> string list) list"

definition QueryUnescape :: "string \<Rightarrow> string option" where
  "QueryUnescape s = PathUnescape (map (\<lambda>c. if c = CHR ''+'' then CHR '' '' else c) s)"

definition Cut :: "string \<Rightarrow> char \<Rightarrow> string \<times> string" where
  "Cut s c = (case IndexByte s c of Some i \<Rightarrow> (take i s, drop (i + 1) s) | None \<Rightarrow> (s, []))"

definition values_of :: "values_map \<Rightarrow> string \<Rightarrow> string list" where
  "values_of q k = (case map_of q k of Some vs \<Rightarrow> vs | None \<Rightarrow> [])"

definition values_Get :: "values_map \<Rightarrow> string \<Rightarrow> string" where
  "values_Get q k = (case values_of q k of [] \<Rightarrow> [] | v # _ \<Rightarrow> v)"

definition values_put :: "values_map \<Rightarrow> string \<Rightarrow> string list \<Rightarrow> values_map" where
  "values_put q k vs = (k, vs) # filter (\<lambda>e. fst e \<noteq> k) q"

definition values_Set :: "values_map \<Rightarrow> string \<Rightarrow> string \<Rightarrow> values_map" where
  "values_Set q k v = values_put q k [v]"

fun parse_settings :: "string list \<Rightarrow> values_map \<Rightarrow> bool \<Rightarrow> values_map \<times> bool" where
  "parse_settings [] q ok = (q, ok)"
| "parse_settings (setting # rest) q ok =
     (if CHR '';'' \<in> set setting then parse_settings rest q False
      else if setting = [] then parse_settings rest q ok
      else case Cut setting CHR ''='' of (k, v) \<Rightarrow>
        (case (QueryUnescape k, QueryUnescape v) of
           (Some key, Some value) \<Rightarrow> parse_settings rest (values_put q key (values_of q key @ [value])) ok
         | _ \<Rightarrow> parse_settings rest q False))"

definition ParseQuery :: "string \<Rightarrow> values_map \<times> bool" where
  "ParseQuery query = (if query = [] then ([], True) else parse_settings (Split CHR ''&'' query) [] True)"

definition Encode :: "values_map \<Rightarrow> string" where
  "Encode q = Join ''&'' (concat (map (\<lambda>k. map (\<lambda>v. url_escape encodeQueryComponent k @ ''='' @ url_escape encodeQueryComponent v)
     (values_of q k)) (sort (map fst q))))"

section \<open>Rooted paths\<close>

text \<open>The segments of a rooted path after \<open>path.Clean\<close>: no empty and no dot segments, a double dot
  removes the segment before it and is dropped at the root.\<close>

fun clean_segments :: "string list \<Rightarrow> string list \<Rightarrow> string list" where
  "clean_segments out [] = out"
| "clean_segments out (seg # segs) =
     (if seg = [] \<or> seg = ''.'' then clean_segments out segs
      else if seg = ''..'' then clean_segments (butlast out) segs
      else clean_segments (out @ [seg]) segs)"

definition Clean :: "string \<Rightarrow> string" where
  "Clean p = ''/'' @ Join ''/'' (clean_segments [] (Split CHR ''/'' p))"

definition clean_path :: "string list \<Rightarrow> bool" where
  "clean_path segs = list_all (\<lambda>s. s \<noteq> [] \<and> s \<noteq> ''.'' \<and> s \<noteq> ''..'' \<and> CHR ''/'' \<notin> set s) segs"

definition plain_segment :: "string \<Rightarrow> bool" where
  "plain_segment s \<longleftrightarrow> s \<noteq> [] \<and> s \<noteq> ''.'' \<and> s \<noteq> ''..''"

lemma clean_path_snoc: "clean_path (out @ [s]) \<longleftrightarrow> clean_path out \<and> plain_segment s \<and> CHR ''/'' \<notin> set s"
  by (auto simp: clean_path_def plain_segment_def)

lemma clean_path_butlast: "clean_path out \<Longrightarrow> clean_path (butlast out)"
  unfolding clean_path_def list_all_iff by (blast dest: in_set_butlastD)

lemma clean_segments_ok:
  "clean_path out \<Longrightarrow> list_all (\<lambda>s. CHR ''/'' \<notin> set s) segs \<Longrightarrow> clean_path (clean_segments out segs)"
proof (induction segs arbitrary: out)
  case (Cons seg segs)
  consider "seg = [] \<or> seg = ''.''" | "\<not> (seg = [] \<or> seg = ''.'')" "seg = ''..''"
    | "\<not> (seg = [] \<or> seg = ''.'')" "seg \<noteq> ''..''" by blast
  then show ?case
  proof cases
    case 1
    with Cons show ?thesis by (simp only: clean_segments.simps if_True list.pred_inject(2))
  next
    case 2
    with Cons clean_path_butlast [OF Cons.prems(1)] show ?thesis
      by (simp only: clean_segments.simps if_False if_True simp_thms list.pred_inject(2))
  next
    case 3
    then have "clean_path (out @ [seg])" using Cons.prems by (simp add: clean_path_snoc plain_segment_def)
    with Cons 3 show ?thesis by (simp only: clean_segments.simps if_False list.pred_inject(2))
  qed
qed simp

lemma Clean_segments: "clean_path (clean_segments [] (Split CHR ''/'' p))"
proof (rule clean_segments_ok)
  show "list_all (\<lambda>s. CHR ''/'' \<notin> set s) (Split CHR ''/'' p)"
    unfolding list_all_iff using Split_no_sep by blast
qed (simp add: clean_path_def)

lemma clean_segments_id: "clean_path segs \<Longrightarrow> clean_segments out segs = out @ segs"
  by (induction segs arbitrary: out) (simp_all add: clean_path_def)

end
