(* ===== verification/Go_Url_Parse.thy ===== *)
theory Go_Url_Parse
  imports Go_Url
begin

text \<open>
  \<open>url.Parse\<close>: fragment, scheme, query, authority and path of a URL, as Go 1.26 splits and decodes them.
  A bracketed host must be an IPv6 literal, a host has at most one colon, and a percent sign in a host
  may only encode bytes beyond ASCII. The user info is kept in its encoded form, as \<open>URL.String\<close> prints it.
\<close>

section \<open>Decoding\<close>

text \<open>\<open>unescape\<close> in the modes \<open>encodeHost\<close> and \<open>encodeZone\<close>.\<close>

fun unescape_host :: "encoding \<Rightarrow> string \<Rightarrow> string option" where
  "unescape_host mode [] = Some []"
| "unescape_host mode (c # cs) =
     (if c = CHR ''%'' then
        (case cs of
           h # l # rest \<Rightarrow>
             (let v = char_of (hex_val h * 16 + hex_val l); pct = (h = CHR ''2'' \<and> l = CHR ''5'') in
              if \<not> (isHexDigit h \<and> isHexDigit l) then None
              else if mode = encodeHost \<and> hex_val h < 8 \<and> \<not> pct then None
              else if mode = encodeZone \<and> \<not> pct \<and> v \<noteq> CHR '' '' \<and> shouldEscape v encodeHost then None
              else map_option ((#) v) (unescape_host mode rest))
         | _ \<Rightarrow> None)
      else if (of_char c :: int) < 128 \<and> shouldEscape c mode then None
      else map_option ((#) c) (unescape_host mode cs))"

text \<open>The text before the first \<open>%25\<close>, and the rest from there.\<close>

fun cut_zone :: "string \<Rightarrow> string \<times> string" where
  "cut_zone [] = ([], [])"
| "cut_zone (c # cs) = (if HasPrefix (c # cs) ''%25'' then ([], c # cs) else (case cut_zone cs of (a, b) \<Rightarrow> (c # a, b)))"

definition unescape_literal :: "string \<Rightarrow> string option" where
  "unescape_literal h =
     (case cut_zone h of (a, z) \<Rightarrow>
        (case (unescape_host encodeHost a, unescape_host encodeZone z) of
           (Some a', Some z') \<Rightarrow> Some (a' @ z')
         | _ \<Rightarrow> None))"

text \<open>\<open>netip.ParseAddr\<close> accepts the text as an IPv6 address, with or without a zone.\<close>

definition ip6_literal :: "string \<Rightarrow> bool" where
  "ip6_literal s =
     (case find (\<lambda>c. c = CHR ''.'' \<or> c = CHR '':'' \<or> c = CHR ''%'') s of
        None \<Rightarrow> False
      | Some c \<Rightarrow> c = CHR '':'' \<and> \<not> (CHR ''%'' \<in> set s \<and> snd (Cut s CHR ''%'') = []) \<and> parseIPv6 (fst (Cut s CHR ''%'')) \<noteq> None)"

section \<open>Authority\<close>

text \<open>Only the schemes of PostgreSQL may have several colons in a host.\<close>

definition port_of :: "string \<Rightarrow> string \<Rightarrow> string" where
  "port_of scheme host =
     (case (if scheme = ''postgresql'' \<or> scheme = ''postgres'' then LastIndexByte host CHR '':'' else IndexByte host CHR '':'') of
        None \<Rightarrow> []
      | Some i \<Rightarrow> drop i host)"

definition parseHost :: "string \<Rightarrow> string \<Rightarrow> string option" where
  "parseHost scheme host =
     (case LastIndexByte host CHR ''['' of
        Some i \<Rightarrow>
          if 0 < i then None
          else (case LastIndexByte host CHR '']'' of
                  None \<Rightarrow> None
                | Some j \<Rightarrow>
                    if \<not> validOptionalPort (drop (j + 1) host) then None
                    else (case unescape_literal (take (j - 1) (drop 1 host)) of
                            None \<Rightarrow> None
                          | Some name \<Rightarrow> if ip6_literal name then Some (''['' @ name @ '']'' @ drop (j + 1) host) else None))
      | None \<Rightarrow> if validOptionalPort (port_of scheme host) then unescape_host encodeHost host else None)"

definition validUserinfo :: "string \<Rightarrow> bool" where
  "validUserinfo s = list_all (\<lambda>c. alnum c \<or> c \<in> set ''-._:~!$&()*+,;=%@'' \<or> c = apostrophe) s"

definition parse_userinfo :: "string \<Rightarrow> string option" where
  "parse_userinfo s =
     (if \<not> validUserinfo s then None
      else if CHR '':'' \<in> set s then
        (case Cut s CHR '':'' of (user, pass) \<Rightarrow>
           (case (PathUnescape user, PathUnescape pass) of
              (Some u, Some p) \<Rightarrow> Some (url_escape encodeUserPassword u @ '':'' @ url_escape encodeUserPassword p)
            | _ \<Rightarrow> None))
      else map_option (url_escape encodeUserPassword) (PathUnescape s))"

definition parseAuthority :: "string \<Rightarrow> string \<Rightarrow> (string option \<times> string) option" where
  "parseAuthority scheme authority =
     (case LastIndexByte authority CHR ''@'' of
        None \<Rightarrow> map_option (Pair None) (parseHost scheme authority)
      | Some i \<Rightarrow>
          (case parseHost scheme (drop (i + 1) authority) of
             None \<Rightarrow> None
           | Some host \<Rightarrow> map_option (\<lambda>user. (Some user, host)) (parse_userinfo (take i authority))))"

section \<open>The URL\<close>

definition scheme_char :: "char \<Rightarrow> bool" where
  "scheme_char c \<longleftrightarrow> alnum c \<or> c \<in> set ''+-.''"

definition letter :: "char \<Rightarrow> bool" where
  "letter c \<longleftrightarrow> alnum c \<and> \<not> is_digit c"

text \<open>\<open>getScheme\<close>: \<open>None\<close> for a leading colon; without a scheme the text is returned whole.\<close>

definition getScheme :: "string \<Rightarrow> (string \<times> string) option" where
  "getScheme s =
     (let a = takeWhile scheme_char s in
      case dropWhile scheme_char s of
        [] \<Rightarrow> Some ([], s)
      | c # rest \<Rightarrow>
          if a \<noteq> [] \<and> \<not> letter (hd a) then Some ([], s)
          else if c \<noteq> CHR '':'' then Some ([], s)
          else if a = [] then None
          else Some (a, rest))"

definition setPath :: "string \<Rightarrow> url \<Rightarrow> url option" where
  "setPath p u = map_option (\<lambda>path. u\<lparr>u_Path := path, u_RawPath := (if p = url_escape encodePath path then [] else p)\<rparr>)
     (PathUnescape p)"

definition setFragment :: "string \<Rightarrow> url \<Rightarrow> url option" where
  "setFragment f u = map_option (\<lambda>frag. u\<lparr>u_Fragment := frag,
     u_RawFragment := (if f = url_escape encodeFragment frag then [] else f)\<rparr>) (PathUnescape f)"

definition no_url :: url where
  "no_url = \<lparr>u_Scheme = [], u_Host = [], u_Opaque = [], u_Fragment = [], u_RawFragment = [], u_HasUser = False, u_User = [],
     u_Path = [], u_RawPath = [], u_RawQuery = [], u_ForceQuery = False\<rparr>"

definition split_query :: "string \<Rightarrow> bool \<times> string \<times> string" where
  "split_query rest =
     (if HasSuffix rest ''?'' \<and> count_list rest CHR ''?'' = 1 then (True, butlast rest, [])
      else (case Cut rest CHR ''?'' of (path, query) \<Rightarrow> (False, path, query)))"

definition split_authority :: "string \<Rightarrow> string \<times> string" where
  "split_authority s = (case IndexByte s CHR ''/'' of Some i \<Rightarrow> (take i s, drop i s) | None \<Rightarrow> (s, []))"

definition parse_hierarchy :: "url \<Rightarrow> string \<Rightarrow> url option" where
  "parse_hierarchy u rest =
     (if (u_Scheme u \<noteq> [] \<or> \<not> HasPrefix rest ''///'') \<and> HasPrefix rest ''//'' then
        (case split_authority (drop 2 rest) of (authority, path) \<Rightarrow>
           (case parseAuthority (u_Scheme u) authority of
              None \<Rightarrow> None
            | Some (user, host) \<Rightarrow>
                setPath path (u\<lparr>u_Host := host, u_HasUser := user \<noteq> None, u_User := (case user of None \<Rightarrow> [] | Some s \<Rightarrow> s)\<rparr>)))
      else setPath rest u)"

definition parse_rest :: "string \<Rightarrow> string \<Rightarrow> url option" where
  "parse_rest scheme tail =
     (case split_query tail of (force, rest, query) \<Rightarrow>
        (let u = no_url\<lparr>u_Scheme := scheme, u_ForceQuery := force, u_RawQuery := query\<rparr> in
         if \<not> HasPrefix rest ''/'' \<and> scheme \<noteq> [] then Some (u\<lparr>u_Opaque := rest\<rparr>)
         else if \<not> HasPrefix rest ''/'' \<and> CHR '':'' \<in> set (fst (Cut rest CHR ''/'')) then None
         else parse_hierarchy u rest))"

definition url_ctl :: "char \<Rightarrow> bool" where
  "url_ctl c \<longleftrightarrow> (let n = of_char c :: int in n < 32 \<or> n = 127)"

definition parse_url :: "string \<Rightarrow> url option" where
  "parse_url s =
     (if list_ex url_ctl s then None
      else if s = ''*'' then Some (no_url\<lparr>u_Path := ''*''\<rparr>)
      else (case getScheme s of None \<Rightarrow> None | Some (scheme, tail) \<Rightarrow> parse_rest (ToLower scheme) tail))"

definition url_Parse :: "string \<Rightarrow> url option" where
  "url_Parse raw =
     (case Cut raw CHR ''#'' of (s, frag) \<Rightarrow>
        (case parse_url s of
           None \<Rightarrow> None
         | Some u \<Rightarrow> if frag = [] then Some u else setFragment frag u))"

section \<open>Parsing what was printed\<close>

lemma Cut_at: "c \<notin> set a \<Longrightarrow> Cut (a @ c # b) c = (a, b)"
proof -
  assume "c \<notin> set a"
  then have "IndexByte (a @ c # b) c = Some (length a)" by (induction a) auto
  then show ?thesis by (simp add: Cut_def)
qed

lemma Cut_whole: "c \<notin> set a \<Longrightarrow> Cut a c = (a, [])"
  unfolding Cut_def using IndexByte_None [of a c] by (simp del: IndexByte_None)

lemma split_authority_at: "CHR ''/'' \<notin> set a \<Longrightarrow> split_authority (a @ CHR ''/'' # b) = (a, CHR ''/'' # b)"
proof -
  assume "CHR ''/'' \<notin> set a"
  then have "IndexByte (a @ CHR ''/'' # b) CHR ''/'' = Some (length a)" by (induction a) auto
  then show ?thesis by (simp add: split_authority_def)
qed

text \<open>A URL without user info and with canonical encodings, the form the gateway builds and sends.\<close>

definition plain_scheme :: "string \<Rightarrow> bool" where
  "plain_scheme s \<longleftrightarrow> s \<noteq> [] \<and> letter (hd s) \<and> list_all (\<lambda>c. scheme_char c \<and> lower_char c = c) s"

definition canonical_url :: "url \<Rightarrow> bool" where
  "canonical_url u \<longleftrightarrow> plain_scheme (u_Scheme u) \<and> u_Opaque u = [] \<and> \<not> u_HasUser u \<and> u_User u = [] \<and>
     parseHost (u_Scheme u) (url_escape encodeHost (u_Host u)) = Some (u_Host u) \<and>
     HasPrefix (u_Path u) ''/'' \<and> u_RawPath u = [] \<and> u_RawFragment u = [] \<and> (u_ForceQuery u \<longrightarrow> u_RawQuery u = []) \<and>
     list_all (\<lambda>c. \<not> url_ctl c \<and> c \<noteq> CHR ''#'') (u_RawQuery u)"

lemma ctl_escaped: "url_ctl c \<Longrightarrow> shouldEscape c mode \<and> \<not> alnum c \<and> c \<noteq> CHR ''%''"
proof -
  assume "url_ctl c"
  then have "(of_char c :: int) \<in> set ([0..31] @ [127])" using of_char_bounds [of c] by (auto simp: url_ctl_def Let_def)
  moreover have "\<forall>n \<in> set ([0..31] @ [127]). \<forall>m \<in> set [encodePath, encodeHost, encodeZone, encodeUserPassword, encodeQueryComponent, encodeFragment].
      shouldEscape (char_of (n :: int)) m \<and> \<not> alnum (char_of n) \<and> char_of n \<noteq> CHR ''%''" by code_simp
  ultimately have "\<forall>m \<in> set [encodePath, encodeHost, encodeZone, encodeUserPassword, encodeQueryComponent, encodeFragment].
      shouldEscape c m \<and> \<not> alnum c \<and> c \<noteq> CHR ''%''" by (metis char_of_char)
  then show ?thesis by (cases mode) simp_all
qed

lemma escaped_no_ctl: "mode \<noteq> encodeQueryComponent \<Longrightarrow> list_all (\<lambda>c. \<not> url_ctl c) (url_escape mode s)"
  unfolding list_all_iff using ctl_escaped escape_plain by metis

lemma escaped_delims:
  "CHR ''#'' \<notin> set (url_escape encodePath s)" "CHR ''?'' \<notin> set (url_escape encodePath s)"
  "CHR ''#'' \<notin> set (url_escape encodeHost s)" "CHR ''?'' \<notin> set (url_escape encodeHost s)"
  "CHR ''/'' \<notin> set (url_escape encodeHost s)" "CHR ''@'' \<notin> set (url_escape encodeHost s)"
  by (rule escape_plain; code_simp)+

lemma getScheme_plain: "plain_scheme s \<Longrightarrow> getScheme (s @ CHR '':'' # rest) = Some (s, rest) \<and> ToLower s = s"
proof -
  assume s: "plain_scheme s"
  have "\<not> scheme_char CHR '':''" by code_simp
  then have "takeWhile scheme_char (s @ CHR '':'' # rest) = s" "dropWhile scheme_char (s @ CHR '':'' # rest) = CHR '':'' # rest"
    using s by (auto simp: plain_scheme_def list_all_iff)
  moreover have "map lower_char s = s" using s by (auto simp: plain_scheme_def list_all_iff intro: map_idI)
  ultimately show ?thesis using s by (simp add: getScheme_def ToLower_def plain_scheme_def Let_def)
qed

lemma split_query_plain:
  assumes "CHR ''?'' \<notin> set p" and "force \<longrightarrow> q = []"
  shows "split_query (p @ (if force \<or> q \<noteq> [] then ''?'' @ q else [])) = (force, p, q)"
proof -
  have no: "count_list p CHR ''?'' = 0" using assms(1) by (simp add: count_list_0_iff)
  consider "force" "q = []" | "\<not> force" "q = []" | "\<not> force" "q \<noteq> []" using assms(2) by blast
  then show ?thesis
  proof cases
    case 1
    then show ?thesis by (simp add: split_query_def HasSuffix_def HasPrefix_def no)
  next
    case 2
    have "\<not> HasSuffix p ''?''" using assms(1) by (cases p rule: rev_cases) (auto simp: HasSuffix_def HasPrefix_def)
    with 2 show ?thesis by (simp add: split_query_def Cut_whole [OF assms(1)])
  next
    case 3
    have "\<not> (HasSuffix (p @ CHR ''?'' # q) ''?'' \<and> count_list (p @ CHR ''?'' # q) CHR ''?'' = 1)"
    proof
      assume *: "HasSuffix (p @ CHR ''?'' # q) ''?'' \<and> count_list (p @ CHR ''?'' # q) CHR ''?'' = 1"
      then have "CHR ''?'' \<notin> set q" by (simp add: no count_list_0_iff)
      moreover have "last q = CHR ''?''" using * 3 by (cases q rule: rev_cases) (auto simp: HasSuffix_def HasPrefix_def)
      ultimately show False using 3 last_in_set by metis
    qed
    with 3 show ?thesis by (simp add: split_query_def Cut_at [OF assms(1)])
  qed
qed

lemma parse_hierarchy_plain:
  assumes "u_Scheme u \<noteq> []" "parseHost (u_Scheme u) (url_escape encodeHost host) = Some host" "HasPrefix path ''/''"
    "u_HasUser u = False" "u_User u = []" "u_RawPath u = []"
  shows "parse_hierarchy u (''//'' @ url_escape encodeHost host @ url_escape encodePath path) = Some (u\<lparr>u_Host := host, u_Path := path\<rparr>)"
proof -
  obtain p where p: "path = CHR ''/'' # p" using assms(3) by (cases path) (auto simp: HasPrefix_def)
  have slash: "url_escape encodePath path = CHR ''/'' # url_escape encodePath p" by (simp add: p shouldEscape_def alnum_def)
  have "LastIndexByte (url_escape encodeHost host) CHR ''@'' = None" by (simp add: LastIndexByte_def escaped_delims)
  then have auth: "parseAuthority (u_Scheme u) (url_escape encodeHost host) = Some (None, host)"
    by (simp add: parseAuthority_def assms(2))
  have "split_authority (url_escape encodeHost host @ url_escape encodePath path) = (url_escape encodeHost host, url_escape encodePath path)"
    using split_authority_at [OF escaped_delims(5) [of host]] by (simp add: slash)
  with assms auth show ?thesis
    by (simp add: parse_hierarchy_def HasPrefix_def setPath_def escape_unescape)
qed

definition url_plain :: "char \<Rightarrow> bool" where
  "url_plain c \<longleftrightarrow> \<not> url_ctl c \<and> c \<noteq> CHR ''#''"

lemma scheme_char_plain: "scheme_char c \<longrightarrow> url_plain c"
  by (rule all_chars) code_simp

lemma url_plain_chars: "url_plain CHR '':''" "url_plain CHR ''/''" "url_plain CHR ''?''"
  by code_simp+

lemma escaped_plain: "mode = encodePath \<or> mode = encodeHost \<Longrightarrow> list_all url_plain (url_escape mode s)"
proof -
  assume mode: "mode = encodePath \<or> mode = encodeHost"
  then have "CHR ''#'' \<notin> set (url_escape mode s)" using escaped_delims(1) [of s] escaped_delims(3) [of s] by blast
  moreover have "list_all (\<lambda>c. \<not> url_ctl c) (url_escape mode s)" using mode by (intro escaped_no_ctl) auto
  ultimately show ?thesis unfolding list_all_iff url_plain_def by blast
qed

text \<open>Parsing undoes printing on canonical URLs.\<close>

theorem parse_String:
  assumes "canonical_url u"
  shows "url_Parse (url_String u) = Some u"
proof -
  let ?h = "url_escape encodeHost (u_Host u)" and ?p = "url_escape encodePath (u_Path u)"
  let ?q = "if u_ForceQuery u \<or> u_RawQuery u \<noteq> [] then ''?'' @ u_RawQuery u else []"
  let ?body = "u_Scheme u @ CHR '':'' # ''//'' @ ?h @ ?p @ ?q"
  have s: "plain_scheme (u_Scheme u)" and pre: "HasPrefix (u_Path u) ''/''" and c: "u_Opaque u = []" "u_HasUser u = False" "u_User u = []"
      "parseHost (u_Scheme u) ?h = Some (u_Host u)" "u_RawPath u = []" "u_RawFragment u = []" "u_ForceQuery u \<longrightarrow> u_RawQuery u = []"
      and q: "list_all (\<lambda>c. \<not> url_ctl c \<and> c \<noteq> CHR ''#'') (u_RawQuery u)"
    using assms by (simp_all add: canonical_url_def)
  have path: "u_Path u \<noteq> []" "u_Path u \<noteq> ''*''" "hd ?p = CHR ''/''"
    using pre by (cases "u_Path u"; auto simp: HasPrefix_def shouldEscape_def alnum_def)+
  have str: "url_String u = ?body @ (if u_Fragment u = [] then [] else ''#'' @ url_escape encodeFragment (u_Fragment u))"
    using s path c by (simp add: url_String_def url_authority_def EscapedPath_def EscapedFragment_def plain_scheme_def Let_def)
  have "list_all url_plain (u_Scheme u)" using s by (auto simp: plain_scheme_def list_all_iff scheme_char_plain)
  moreover have "list_all url_plain (u_RawQuery u)" using q by (simp add: url_plain_def [abs_def])
  ultimately have "list_all url_plain ?body" by (simp add: url_plain_chars escaped_plain)
  then have hash: "CHR ''#'' \<notin> set ?body" and ctl: "\<not> list_ex url_ctl ?body"
    unfolding list_all_iff list_ex_iff url_plain_def by blast+
  have cut: "Cut (url_String u) CHR ''#'' = (?body, if u_Fragment u = [] then [] else url_escape encodeFragment (u_Fragment u))"
    unfolding str using Cut_at [OF hash] Cut_whole [OF hash] by simp
  let ?u = "no_url\<lparr>u_Scheme := u_Scheme u, u_ForceQuery := u_ForceQuery u, u_RawQuery := u_RawQuery u\<rparr>"
  have "split_query ((''//'' @ ?h @ ?p) @ ?q) = (u_ForceQuery u, ''//'' @ ?h @ ?p, u_RawQuery u)"
    using c(7) by (intro split_query_plain) (simp_all add: escaped_delims)
  moreover have "parse_hierarchy ?u (''//'' @ ?h @ ?p) = Some (?u\<lparr>u_Host := u_Host u, u_Path := u_Path u\<rparr>)"
    using s c pre by (intro parse_hierarchy_plain) (simp_all add: plain_scheme_def no_url_def)
  ultimately have rest: "parse_rest (u_Scheme u) (''//'' @ ?h @ ?p @ ?q) = Some (?u\<lparr>u_Host := u_Host u, u_Path := u_Path u\<rparr>)"
    by (simp add: parse_rest_def HasPrefix_def)
  have "?body \<noteq> ''*''" by (cases "u_Scheme u") auto
  then have body: "parse_url ?body = Some (?u\<lparr>u_Host := u_Host u, u_Path := u_Path u\<rparr>)"
    using ctl getScheme_plain [OF s, of "''//'' @ ?h @ ?p @ ?q"] rest by (simp add: parse_url_def)
  have "url_escape encodeFragment (u_Fragment u) = [] \<longleftrightarrow> u_Fragment u = []" by (cases "u_Fragment u") (simp_all add: Let_def)
  with cut body c show ?thesis
    by (simp add: url_Parse_def setFragment_def escape_unescape no_url_def)
qed

end
