(* ===== verification/Utf8.thy ===== *)
theory Utf8
  imports Prelude
begin

text \<open>
  Runes of a Go string: what \<^verbatim>\<open>for range\<close>, \<open>strings.ToValidUTF8\<close> and \<open>strings.Map\<close> see of a byte string
  (\<^verbatim>\<open>unicode/utf8\<close>). A byte that does not start a well-formed encoding is one invalid rune.
\<close>

section \<open>Decoding\<close>

abbreviation (input) byte_in :: "int \<Rightarrow> int \<Rightarrow> char \<Rightarrow> bool" where
  "byte_in a b c \<equiv> a \<le> of_char c \<and> of_char c \<le> b"

definition ascii :: "char \<Rightarrow> bool" where "ascii c \<longleftrightarrow> (of_char c :: int) < 128"
definition cont :: "char \<Rightarrow> bool" where "cont c \<longleftrightarrow> byte_in 128 191 c"

text \<open>The lead bytes: the number of continuation bytes and the range of the first of them.\<close>

definition lead :: "char \<Rightarrow> (nat \<times> int \<times> int) option" where
  "lead c =
     (if byte_in 194 223 c then Some (1, 128, 191)
      else if of_char c = (224 :: int) then Some (2, 160, 191)
      else if of_char c = (237 :: int) then Some (2, 128, 159)
      else if byte_in 225 239 c then Some (2, 128, 191)
      else if of_char c = (240 :: int) then Some (3, 144, 191)
      else if byte_in 241 243 c then Some (3, 128, 191)
      else if of_char c = (244 :: int) then Some (3, 128, 143)
      else None)"

text \<open>The width of the well-formed encoding at the start of the string, if there is one.\<close>

definition rune_width :: "string \<Rightarrow> nat option" where
  "rune_width s =
     (case s of
        [] \<Rightarrow> None
      | c # cs \<Rightarrow>
          if ascii c then Some 1
          else (case lead c of
                  None \<Rightarrow> None
                | Some (n, a, b) \<Rightarrow>
                    if n \<le> length cs \<and> byte_in a b (hd cs) \<and> list_all cont (take n cs) then Some (Suc n) else None))"

datatype rune = Rune string | Invalid char

function runes :: "string \<Rightarrow> rune list" where
  "runes s =
     (case s of
        [] \<Rightarrow> []
      | c # cs \<Rightarrow>
          (case rune_width s of
             Some n \<Rightarrow> if 0 < n then Rune (take n s) # runes (drop n s) else Invalid c # runes cs
           | None \<Rightarrow> Invalid c # runes cs))"
  by pat_completeness auto
termination
  by (relation "measure length") auto

declare runes.simps [simp del]

fun valid_rune :: "rune \<Rightarrow> string" where
  "valid_rune (Rune r) = r"
| "valid_rune (Invalid c) = []"

text \<open>\<open>strings.ToValidUTF8(s, "")\<close>: the invalid bytes are dropped.\<close>

definition ToValidUTF8 :: "string \<Rightarrow> string" where
  "ToValidUTF8 s = concat (map valid_rune (runes s))"

text \<open>\<open>unicode.IsControl\<close>, the code points below 32 and from 127 to 159.\<close>

definition IsControl :: "string \<Rightarrow> bool" where
  "IsControl r =
     (case r of
        [c] \<Rightarrow> (of_char c :: int) < 32 \<or> (of_char c :: int) = 127
      | [a, b] \<Rightarrow> of_char a = (194 :: int) \<and> byte_in 128 159 b
      | _ \<Rightarrow> False)"

text \<open>The encoding of U+FFFD, which stands for an invalid byte when a rune is written back.\<close>

definition RuneError :: string where
  "RuneError = [CHR 0xEF, CHR 0xBF, CHR 0xBD]"

fun rune_bytes :: "rune \<Rightarrow> string" where
  "rune_bytes (Rune r) = r"
| "rune_bytes (Invalid c) = RuneError"

text \<open>\<open>strings.Map\<close> with a mapping of runes to runes.\<close>

definition map_runes :: "(string \<Rightarrow> string) \<Rightarrow> string \<Rightarrow> string" where
  "map_runes f s = concat (map (\<lambda>r. f (rune_bytes r)) (runes s))"

text \<open>The runes beyond ASCII that fold to an ASCII letter in a case-insensitive pattern: the long s and
  the Kelvin sign.\<close>

definition long_s :: string where "long_s = [CHR 0xC5, CHR 0xBF]"
definition kelvin :: string where "kelvin = [CHR 0xE2, CHR 0x84, CHR 0xAA]"

text \<open>A literal in any case: the number of bytes it takes.\<close>

definition fold_char :: "char \<Rightarrow> string \<Rightarrow> nat option" where
  "fold_char l s =
     (if l = CHR ''s'' \<and> HasPrefix s long_s then Some 2
      else if l = CHR ''k'' \<and> HasPrefix s kelvin then Some 3
      else case s of c # _ \<Rightarrow> if lower_char c = l then Some 1 else None | [] \<Rightarrow> None)"

fun fold_lit :: "string \<Rightarrow> string \<Rightarrow> nat option" where
  "fold_lit [] s = Some 0"
| "fold_lit (l # ls) s =
     (case fold_char l s of None \<Rightarrow> None | Some n \<Rightarrow> map_option ((+) n) (fold_lit ls (drop n s)))"

definition valid_utf8 :: "string \<Rightarrow> bool" where
  "valid_utf8 s \<longleftrightarrow> ToValidUTF8 s = s"

section \<open>Lemmas\<close>

lemma cont_not_ascii: "cont c \<Longrightarrow> \<not> ascii c"
  by (simp add: cont_def ascii_def)

lemma cont_not_lead: "cont c \<Longrightarrow> lead c = None"
  by (simp add: cont_def lead_def)

lemma rune_width_Nil [simp]: "rune_width [] = None"
  by (simp add: rune_width_def)

lemma rune_width_bounds: "rune_width s = Some n \<Longrightarrow> 0 < n \<and> n \<le> length s"
  by (auto simp: rune_width_def split: list.splits option.splits if_splits)

lemma rune_width_take: "rune_width s = Some n \<Longrightarrow> rune_width (take n s @ t) = Some n"
proof (cases s)
  case (Cons c cs)
  assume w: "rune_width s = Some n"
  show ?thesis
  proof (cases "ascii c")
    case True
    with w Cons show ?thesis by (auto simp: rune_width_def)
  next
    case False
    then obtain k a b where l: "lead c = Some (k, a, b)" "k \<le> length cs" "byte_in a b (hd cs)"
        "list_all cont (take k cs)" "n = Suc k"
      using w Cons by (auto simp: rune_width_def split: option.splits if_splits)
    moreover have "0 < k" using l(1) by (auto simp: lead_def split: if_splits)
    moreover have "hd (take k cs @ t) = hd cs" using l(2) \<open>0 < k\<close> by (cases cs; cases k) auto
    ultimately show ?thesis using False Cons by (simp add: rune_width_def)
  qed
qed (simp add: rune_width_def)

lemma runes_Nil [simp]: "runes [] = []"
  by (simp add: runes.simps)

lemma runes_width: "rune_width s = Some n \<Longrightarrow> runes s = Rune (take n s) # runes (drop n s)"
  using rune_width_bounds [of s n] by (subst runes.simps) (auto split: list.splits)

lemma runes_invalid: "rune_width (c # cs) = None \<Longrightarrow> runes (c # cs) = Invalid c # runes cs"
  by (subst runes.simps) simp

lemma rune_induct [case_names Nil Rune Invalid]:
  assumes "P []"
    and "\<And>s n. rune_width s = Some n \<Longrightarrow> 0 < n \<Longrightarrow> n \<le> length s \<Longrightarrow> P (drop n s) \<Longrightarrow> P s"
    and "\<And>c cs. rune_width (c # cs) = None \<Longrightarrow> P cs \<Longrightarrow> P (c # cs)"
  shows "P s"
proof (induction s rule: length_induct)
  case (1 s)
  show ?case
  proof (cases "rune_width s")
    case None
    with 1 assms(1,3) show ?thesis by (cases s) auto
  next
    case (Some n)
    with rune_width_bounds [OF Some] have "P (drop n s)" using 1 by (metis diff_less length_drop less_le_trans)
    with Some rune_width_bounds [OF Some] show ?thesis by (blast intro: assms(2))
  qed
qed

lemma ToValidUTF8_simps:
  "ToValidUTF8 [] = []"
  "rune_width s = Some n \<Longrightarrow> ToValidUTF8 s = take n s @ ToValidUTF8 (drop n s)"
  "rune_width (c # cs) = None \<Longrightarrow> ToValidUTF8 (c # cs) = ToValidUTF8 cs"
  by (simp_all add: ToValidUTF8_def runes_width runes_invalid)

lemma length_ToValidUTF8: "length (ToValidUTF8 s) \<le> length s"
  by (induction s rule: rune_induct) (simp_all add: ToValidUTF8_simps)

text \<open>A valid string is one in which the scan meets no invalid byte.\<close>

lemma valid_simps:
  "valid_utf8 []"
  "rune_width s = Some n \<Longrightarrow> valid_utf8 s \<longleftrightarrow> valid_utf8 (drop n s)"
  "rune_width (c # cs) = None \<Longrightarrow> \<not> valid_utf8 (c # cs)"
proof -
  show "valid_utf8 []" by (simp add: valid_utf8_def ToValidUTF8_simps(1))
  show "rune_width s = Some n \<Longrightarrow> valid_utf8 s \<longleftrightarrow> valid_utf8 (drop n s)"
    unfolding valid_utf8_def ToValidUTF8_simps(2) by (metis append_take_drop_id same_append_eq)
  show "rune_width (c # cs) = None \<Longrightarrow> \<not> valid_utf8 (c # cs)"
    using length_ToValidUTF8 [of cs] by (auto simp: valid_utf8_def ToValidUTF8_simps(3) dest!: arg_cong [where f = length])
qed

lemma valid_append: "valid_utf8 a \<Longrightarrow> valid_utf8 (a @ b) \<longleftrightarrow> valid_utf8 b"
proof (induction a rule: rune_induct)
  case (Rune a n)
  have "rune_width (a @ b) = Some n"
    using rune_width_take [OF Rune(1), of "drop n a @ b"] by (simp only: append_assoc [symmetric] append_take_drop_id)
  from valid_simps(2) [OF this] Rune valid_simps(2) [OF Rune(1)] show ?case by simp
qed (use valid_simps(3) in auto)

lemma ToValidUTF8_valid: "valid_utf8 (ToValidUTF8 s)"
proof (induction s rule: rune_induct)
  case (Rune s n)
  from valid_simps(2) [OF rune_width_take [OF Rune(1)]] Rune show ?case by (simp add: ToValidUTF8_simps(2))
qed (simp_all add: ToValidUTF8_simps valid_simps(1))

text \<open>A byte that is not a continuation byte starts a rune.\<close>

lemma rune_tail_cont:
  assumes "rune_width s = Some n" "0 < i" "i < n"
  shows "cont (s ! i)"
proof (cases s)
  case (Cons c cs)
  with assms have "\<not> ascii c" by (auto simp: rune_width_def)
  with assms(1) Cons obtain k where k: "list_all cont (take k cs)" "k \<le> length cs" "n = Suc k"
    by (auto simp: rune_width_def split: option.splits if_splits)
  with assms have "take k cs ! (i - 1) = s ! i" "i - 1 < length (take k cs)" using Cons by (cases i; auto)+
  with k(1) show ?thesis by (metis list_all_length)
qed (use assms in \<open>simp add: rune_width_def\<close>)

lemma valid_split: "valid_utf8 (a @ c # b) \<Longrightarrow> \<not> cont c \<Longrightarrow> valid_utf8 a \<and> valid_utf8 (c # b)"
proof (induction "a @ c # b" arbitrary: a rule: rune_induct)
  case (Rune n)
  show ?case
  proof (cases "a = []")
    case False
    have "\<not> length a < n"
      using rune_tail_cont [OF Rune(1), of "length a"] False Rune.prems(2) by (auto simp: nth_append)
    then have le: "n \<le> length a" by simp
    have "valid_utf8 (drop n a @ c # b)" using Rune.prems(1) valid_simps(2) [OF Rune(1)] le by simp
    with Rune.hyps(4) [of "drop n a"] le Rune.prems(2) have ih: "valid_utf8 (drop n a)" "valid_utf8 (c # b)" by simp_all
    have "rune_width a = Some n" using rune_width_take [OF Rune(1), of "drop n a"] le by simp
    from valid_simps(2) [OF this] ih show ?thesis by simp
  qed (use Rune.prems valid_simps(1) in simp)
next
  case (Invalid d ds)
  then show ?case using valid_simps(3) by metis
qed simp

lemma rune_valid: "rune_width s = Some n \<Longrightarrow> valid_utf8 (take n s)"
  using rune_width_take [of s n "[]"] valid_simps(1,2) by fastforce

lemma ToValidUTF8_conts: "list_all cont s \<Longrightarrow> ToValidUTF8 s = []"
proof (induction s)
  case (Cons c s)
  then have "rune_width (c # s) = None" by (simp add: rune_width_def cont_not_ascii cont_not_lead)
  with Cons show ?case by (simp add: ToValidUTF8_simps(3))
qed (simp add: ToValidUTF8_simps(1))

lemma ToValidUTF8_partial_rune:
  assumes "rune_width s = Some n" "k < n"
  shows "ToValidUTF8 (take k s) = []"
proof (cases k)
  case (Suc j)
  obtain c cs where s: "s = c # cs" using assms(1) by (cases s) auto
  with assms Suc have "\<not> ascii c" by (auto simp: rune_width_def)
  with assms(1) s obtain m a b where m: "lead c = Some (m, a, b)" "list_all cont (take m cs)" "n = Suc m"
    by (auto simp: rune_width_def split: option.splits if_splits)
  have "rune_width (c # take j cs) = None"
    using m(1,3) assms(2) Suc \<open>\<not> ascii c\<close> by (simp add: rune_width_def)
  moreover have "list_all cont (take j cs)"
    using m(2,3) assms(2) Suc set_take_subset_set_take [of j m cs] unfolding list_all_iff by auto
  ultimately show ?thesis using s Suc by (simp add: ToValidUTF8_simps(3) ToValidUTF8_conts)
qed (simp add: ToValidUTF8_simps(1))

text \<open>Cutting a valid string and dropping the broken rune at the end leaves a prefix of it.\<close>

lemma ToValidUTF8_take: "valid_utf8 s \<Longrightarrow> \<exists>b. s = ToValidUTF8 (take k s) @ b"
proof (induction s arbitrary: k rule: rune_induct)
  case (Rune s n)
  show ?case
  proof (cases "k < n")
    case True
    with ToValidUTF8_partial_rune [OF Rune(1)] show ?thesis by simp
  next
    case False
    obtain b where b: "drop n s = ToValidUTF8 (take (k - n) (drop n s)) @ b"
      using Rune valid_simps(2) [OF Rune(1)] by metis
    have t: "take k s = take n s @ take (k - n) (drop n s)"
      using False by (metis le_add_diff_inverse not_less take_add)
    have "rune_width (take k s) = Some n" unfolding t by (rule rune_width_take [OF Rune(1)])
    then have "ToValidUTF8 (take k s) = take n s @ ToValidUTF8 (take (k - n) (drop n s))"
      using t Rune(3) by (simp add: ToValidUTF8_simps(2))
    with b show ?thesis by (metis append_assoc append_take_drop_id)
  qed
qed (use valid_simps(3) in \<open>auto simp: ToValidUTF8_simps(1)\<close>)

end
