(* ===== verification/Go_Json.thy ===== *)
theory Go_Json
  imports Utf8 Go_Url
begin

text \<open>
  The text of Go's \<^verbatim>\<open>encoding/json\<close>: the printer with HTML escaping and the parser with the grammar and the
  nesting limit of the scanner. Printed values parse back, with U+FFFD for every invalid byte of a string,
  and the parser's bound on its calls is never reached.
\<close>

datatype json =
  JNull | JBool bool | JNumber string | JString string | JArray "json list" | JObject "(string \<times> json) list"

section \<open>Printing\<close>

abbreviation quote_char :: char where "quote_char \<equiv> CHR 0x22"
abbreviation backslash :: char where "backslash \<equiv> CHR 0x5C"

definition lower_hex :: "int \<Rightarrow> char" where
  "lower_hex n = (if n < 10 then digit n else char_of (n + 87))"

definition escape_char :: "char \<Rightarrow> string" where
  "escape_char c =
     (if c = quote_char \<or> c = backslash then [backslash, c]
      else if c = CHR 0x08 then [backslash, CHR ''b'']
      else if c = CHR 0x0C then [backslash, CHR ''f'']
      else if c = CHR 0x0A then [backslash, CHR ''n'']
      else if c = CHR 0x0D then [backslash, CHR ''r'']
      else if c = CHR 0x09 then [backslash, CHR ''t'']
      else if (of_char c :: int) < 32 \<or> c \<in> set ''<>&''
      then [backslash, CHR ''u'', CHR ''0'', CHR ''0'', lower_hex (of_char c div 16), lower_hex (of_char c mod 16)]
      else [c])"

definition line_separator :: string where "line_separator = [CHR 0xE2, CHR 0x80, CHR 0xA8]"
definition paragraph_separator :: string where "paragraph_separator = [CHR 0xE2, CHR 0x80, CHR 0xA9]"

fun escape_rune :: "rune \<Rightarrow> string" where
  "escape_rune (Invalid c) = backslash # ''ufffd''"
| "escape_rune (Rune r) =
     (if r = line_separator then backslash # ''u2028''
      else if r = paragraph_separator then backslash # ''u2029''
      else case r of [c] \<Rightarrow> escape_char c | _ \<Rightarrow> r)"

definition json_quote :: "string \<Rightarrow> string" where
  "json_quote s = quote_char # concat (map escape_rune (runes s)) @ [quote_char]"

fun print_json :: "json \<Rightarrow> string" where
  "print_json JNull = ''null''"
| "print_json (JBool b) = (if b then ''true'' else ''false'')"
| "print_json (JNumber n) = n"
| "print_json (JString s) = json_quote s"
| "print_json (JArray js) = ''['' @ Join '','' (map print_json js) @ '']''"
| "print_json (JObject kvs) = ''{'' @ Join '','' (map (\<lambda>(k, v). json_quote k @ '':'' @ print_json v) kvs) @ ''}''"

section \<open>Parsing\<close>

definition json_space :: "char \<Rightarrow> bool" where
  "json_space c \<longleftrightarrow> c = CHR '' '' \<or> c = CHR 0x09 \<or> c = CHR 0x0A \<or> c = CHR 0x0D"

definition skip_space :: "string \<Rightarrow> string" where
  "skip_space = dropWhile json_space"

text \<open>The UTF-8 encoding of a code point; a surrogate has none.\<close>

definition encode_rune :: "int \<Rightarrow> string" where
  "encode_rune n =
     (if n < 128 then [char_of n]
      else if n < 2048 then [char_of (192 + n div 64), char_of (128 + n mod 64)]
      else if 55296 \<le> n \<and> n \<le> 57343 \<or> n > 1114111 then RuneError
      else if n < 65536 then [char_of (224 + n div 4096), char_of (128 + n div 64 mod 64), char_of (128 + n mod 64)]
      else [char_of (240 + n div 262144), char_of (128 + n div 4096 mod 64), char_of (128 + n div 64 mod 64), char_of (128 + n mod 64)])"

text \<open>The four digits of an escape \<open>\uXXXX\<close>.\<close>

definition hex4 :: "string \<Rightarrow> int option" where
  "hex4 s = (if 4 \<le> length s \<and> list_all isHexDigit (take 4 s) then Some (hex_value 0 (take 4 s)) else None)"

definition low_surrogate :: "string \<Rightarrow> int option" where
  "low_surrogate s =
     (case s of
        a # b # rest \<Rightarrow>
          (case (if a = backslash \<and> b = CHR ''u'' then hex4 rest else None) of
             Some n \<Rightarrow> if 56320 \<le> n \<and> n \<le> 57343 then Some n else None
           | None \<Rightarrow> None)
      | _ \<Rightarrow> None)"

text \<open>The text of one escape after the backslash, and the number of bytes it takes: a surrogate pair is one
  code point, a lone surrogate is the replacement character.\<close>

definition unescape_json :: "string \<Rightarrow> (string \<times> nat) option" where
  "unescape_json s =
     (case s of
        [] \<Rightarrow> None
      | c # cs \<Rightarrow>
          if c \<in> {quote_char, backslash, CHR ''/''} then Some ([c], 1)
          else if c = CHR ''b'' then Some ([CHR 0x08], 1)
          else if c = CHR ''f'' then Some ([CHR 0x0C], 1)
          else if c = CHR ''n'' then Some ([CHR 0x0A], 1)
          else if c = CHR ''r'' then Some ([CHR 0x0D], 1)
          else if c = CHR ''t'' then Some ([CHR 0x09], 1)
          else if c = CHR ''u'' then
            (case hex4 cs of
               None \<Rightarrow> None
             | Some n \<Rightarrow>
                 if 55296 \<le> n \<and> n \<le> 56319 then
                   (case low_surrogate (drop 4 cs) of
                      Some m \<Rightarrow> Some (encode_rune (65536 + (n - 55296) * 1024 + (m - 56320)), 11)
                    | None \<Rightarrow> Some (RuneError, 5))
                 else Some (encode_rune n, 5))
          else None)"

text \<open>A string after its opening quote: the decoded text and what follows the closing quote.\<close>

function parse_string :: "string \<Rightarrow> (string \<times> string) option" where
  "parse_string [] = None"
| "parse_string (c # cs) =
     (if c = quote_char then Some ([], cs)
      else if c = backslash then
        (case unescape_json cs of
           None \<Rightarrow> None
         | Some (t, n) \<Rightarrow> (case parse_string (drop n cs) of None \<Rightarrow> None | Some (s, rest) \<Rightarrow> Some (t @ s, rest)))
      else if (of_char c :: int) < 32 then None
      else (case rune_width (c # cs) of
              None \<Rightarrow> (case parse_string cs of None \<Rightarrow> None | Some (s, rest) \<Rightarrow> Some (RuneError @ s, rest))
            | Some n \<Rightarrow> (case parse_string (drop (n - 1) cs) of None \<Rightarrow> None | Some (s, rest) \<Rightarrow> Some (take n (c # cs) @ s, rest))))"
  by pat_completeness auto
termination
  by (relation "measure length") auto

definition digits_of :: "string \<Rightarrow> (string \<times> string) option" where
  "digits_of s = (if takeWhile is_digit s = [] then None else Some (takeWhile is_digit s, dropWhile is_digit s))"

definition int_part :: "string \<Rightarrow> (string \<times> string) option" where
  "int_part s = (if HasPrefix s ''0'' then Some (''0'', drop 1 s) else digits_of s)"

definition frac_part :: "string \<Rightarrow> (string \<times> string) option" where
  "frac_part s =
     (if HasPrefix s ''.'' then map_option (\<lambda>(ds, rest). (CHR ''.'' # ds, rest)) (digits_of (drop 1 s)) else Some ([], s))"

definition exp_part :: "string \<Rightarrow> (string \<times> string) option" where
  "exp_part s =
     (if HasPrefix s ''e'' \<or> HasPrefix s ''E'' then
        (let k = (if HasPrefix (drop 1 s) ''+'' \<or> HasPrefix (drop 1 s) ''-'' then 2 else 1)
         in map_option (\<lambda>(ds, rest). (take k s @ ds, rest)) (digits_of (drop k s)))
      else Some ([], s))"

definition parse_number :: "string \<Rightarrow> (string \<times> string) option" where
  "parse_number s =
     (let sign = (if HasPrefix s ''-'' then ''-'' else []) in
      case int_part (drop (length sign) s) of
        None \<Rightarrow> None
      | Some (i, s1) \<Rightarrow>
          (case frac_part s1 of
             None \<Rightarrow> None
           | Some (f, s2) \<Rightarrow> map_option (\<lambda>(e, rest). (sign @ i @ f @ e, rest)) (exp_part s2)))"

definition maxNestingDepth :: int where "maxNestingDepth = 10000"

text \<open>The first argument bounds the calls: twice the length of the text and one more is always enough. The
  second is the nesting depth.\<close>

fun parse_value :: "nat \<Rightarrow> int \<Rightarrow> string \<Rightarrow> (json \<times> string) option"
  and parse_elements :: "nat \<Rightarrow> int \<Rightarrow> string \<Rightarrow> (json list \<times> string) option"
  and parse_members :: "nat \<Rightarrow> int \<Rightarrow> string \<Rightarrow> ((string \<times> json) list \<times> string) option" where
  "parse_value 0 d s = None"
| "parse_value (Suc n) d s =
     (case skip_space s of
        [] \<Rightarrow> None
      | c # cs \<Rightarrow>
          if c = quote_char then map_option (\<lambda>(t, rest). (JString t, rest)) (parse_string cs)
          else if c = CHR ''['' then
            (if maxNestingDepth \<le> d then None
             else if HasPrefix (skip_space cs) '']'' then Some (JArray [], drop 1 (skip_space cs))
             else map_option (\<lambda>(js, rest). (JArray js, rest)) (parse_elements n (d + 1) cs))
          else if c = CHR ''{'' then
            (if maxNestingDepth \<le> d then None
             else if HasPrefix (skip_space cs) ''}'' then Some (JObject [], drop 1 (skip_space cs))
             else map_option (\<lambda>(kvs, rest). (JObject kvs, rest)) (parse_members n (d + 1) cs))
          else if HasPrefix (c # cs) ''null'' then Some (JNull, drop 3 cs)
          else if HasPrefix (c # cs) ''true'' then Some (JBool True, drop 3 cs)
          else if HasPrefix (c # cs) ''false'' then Some (JBool False, drop 4 cs)
          else map_option (\<lambda>(t, rest). (JNumber t, rest)) (parse_number (c # cs)))"
| "parse_elements 0 d s = None"
| "parse_elements (Suc n) d s =
     (case parse_value n d s of
        None \<Rightarrow> None
      | Some (v, rest) \<Rightarrow>
          (case skip_space rest of
             [] \<Rightarrow> None
           | c # cs \<Rightarrow>
               if c = CHR '']'' then Some ([v], cs)
               else if c = CHR '','' then map_option (\<lambda>(js, rest). (v # js, rest)) (parse_elements n d cs)
               else None))"
| "parse_members 0 d s = None"
| "parse_members (Suc n) d s =
     (case skip_space s of
        [] \<Rightarrow> None
      | q # qs \<Rightarrow>
          if q \<noteq> quote_char then None
          else (case parse_string qs of
                  None \<Rightarrow> None
                | Some (k, s1) \<Rightarrow>
                    if \<not> HasPrefix (skip_space s1) '':'' then None
                    else (case parse_value n d (drop 1 (skip_space s1)) of
                            None \<Rightarrow> None
                          | Some (v, rest) \<Rightarrow>
                              (case skip_space rest of
                                 [] \<Rightarrow> None
                               | c # cs \<Rightarrow>
                                   if c = CHR ''}'' then Some ([(k, v)], cs)
                                   else if c = CHR '','' then map_option (\<lambda>(kvs, rest). ((k, v) # kvs, rest)) (parse_members n d cs)
                                   else None))))"

definition parse_json :: "string \<Rightarrow> json option" where
  "parse_json s =
     (case parse_value (2 * length s + 1) 0 s of
        Some (v, rest) \<Rightarrow> if skip_space rest = [] then Some v else None
      | None \<Rightarrow> None)"

definition jsonValid :: "string \<Rightarrow> bool" where
  "jsonValid s \<longleftrightarrow> parse_json s \<noteq> None"

section \<open>Strings survive\<close>

text \<open>What a decoder gets of an encoded string: every invalid byte has become U+FFFD.\<close>

definition utf8_text :: "string \<Rightarrow> string" where
  "utf8_text s = concat (map rune_bytes (runes s))"

lemma parse_string_escape:
  "unescape_json s = Some (t, n) \<Longrightarrow>
     parse_string (backslash # s) = (case parse_string (drop n s) of None \<Rightarrow> None | Some (u, rest) \<Rightarrow> Some (t @ u, rest))"
  by simp

lemma parse_string_rune:
  assumes "rune_width (c # cs) = Some n" "c \<noteq> quote_char" "c \<noteq> backslash" "32 \<le> (of_char c :: int)"
  shows "parse_string (c # cs) = (case parse_string (drop n (c # cs)) of None \<Rightarrow> None | Some (u, rest) \<Rightarrow> Some (take n (c # cs) @ u, rest))"
proof -
  obtain m where n: "n = Suc m" using rune_width_bounds [OF assms(1)] by (cases n) auto
  show ?thesis using assms unfolding n by (simp del: of_char_def)
qed

lemma parse_string_quote: "parse_string (quote_char # cs) = Some ([], cs)"
  by simp

declare parse_string.simps [simp del]

lemma hex4_00: "hex4 (CHR ''0'' # CHR ''0'' # a # b # s) =
  (if isHexDigit a \<and> isHexDigit b then Some (hex_val a * 16 + hex_val b) else None)"
proof -
  have "isHexDigit CHR ''0''" "hex_val CHR ''0'' = 0" by code_simp+
  then show ?thesis by (simp add: hex4_def)
qed

lemma lower_hex_digit: "0 \<le> n \<Longrightarrow> n < 16 \<Longrightarrow> isHexDigit (lower_hex n) \<and> hex_val (lower_hex n) = n"
proof -
  assume "0 \<le> n" "n < 16"
  then have "n \<in> set [0..15]" by simp
  moreover have "list_all (\<lambda>n. isHexDigit (lower_hex n) \<and> hex_val (lower_hex n) = n) [0..15]" by code_simp
  ultimately show ?thesis by (simp only: list_all_iff)
qed

text \<open>One rune: decoding its encoding gives its bytes, U+FFFD for an invalid byte, and goes on behind it.\<close>

definition reads_as :: "string \<Rightarrow> string \<Rightarrow> bool" where
  "reads_as e b \<longleftrightarrow> (\<forall>t. parse_string (e @ t) =
     (case parse_string t of None \<Rightarrow> None | Some (u, rest) \<Rightarrow> Some (b @ u, rest)))"

lemma reads_as_escape:
  "(\<And>t. unescape_json (e @ t) = Some (b, length e)) \<Longrightarrow> reads_as (backslash # e) b"
  unfolding reads_as_def by (simp only: append_Cons parse_string_escape) simp

lemma reads_unicode:
  assumes "length ds = 4" "hex4 ds = Some n" "\<not> (55296 \<le> n \<and> n \<le> 56319)"
  shows "reads_as (backslash # CHR ''u'' # ds) (encode_rune n)"
proof (rule reads_as_escape)
  fix t
  have "hex4 (ds @ t) = Some n" using assms(1,2) by (simp add: hex4_def split: if_splits)
  with assms(1,3) show "unescape_json ((CHR ''u'' # ds) @ t) = Some (encode_rune n, length (CHR ''u'' # ds))"
    by (auto simp: unescape_json_def)
qed

lemma reads_char_hex:
  assumes "(of_char c :: int) < 128"
  shows "reads_as [backslash, CHR ''u'', CHR ''0'', CHR ''0'', lower_hex (of_char c div 16), lower_hex (of_char c mod 16)] [c]"
proof (rule reads_as_escape)
  fix t
  let ?n = "of_char c :: int"
  have "0 \<le> ?n div 16" "?n div 16 < 16" "0 \<le> ?n mod 16" "?n mod 16 < 16" using assms of_char_bounds [of c] by auto
  moreover have "?n div 16 * 16 + ?n mod 16 = ?n" by simp
  ultimately have "hex4 (CHR ''0'' # CHR ''0'' # lower_hex (?n div 16) # lower_hex (?n mod 16) # t) = Some ?n"
    by (simp only: hex4_00 lower_hex_digit if_True simp_thms)
  moreover have "encode_rune ?n = [c]" using assms by (simp add: encode_rune_def del: of_char_def)
  ultimately show "unescape_json ([CHR ''u'', CHR ''0'', CHR ''0'', lower_hex (?n div 16), lower_hex (?n mod 16)] @ t) =
      Some ([c], length [CHR ''u'', CHR ''0'', CHR ''0'', lower_hex (?n div 16), lower_hex (?n mod 16)])"
    using assms by (simp add: unescape_json_def del: of_char_def)
qed

lemma reads_rune:
  assumes "rune_width r = Some (length r)" "hd r \<noteq> quote_char" "hd r \<noteq> backslash" "32 \<le> (of_char (hd r) :: int)"
  shows "reads_as r r"
proof -
  obtain c cs where r: "r = c # cs" using rune_width_bounds [OF assms(1)] by (cases r) auto
  have "rune_width (r @ t) = Some (length r)" for t using rune_width_take [OF assms(1), of t] by simp
  with assms show ?thesis unfolding reads_as_def r
    by (auto simp: parse_string_rune simp del: of_char_def split: option.split)
qed

lemma reads_escape_char: "ascii c \<Longrightarrow> reads_as (escape_char c) [c]"
proof -
  assume c: "ascii c"
  have lits: "reads_as [backslash, quote_char] [quote_char]" "reads_as [backslash, backslash] [backslash]"
    "reads_as [backslash, CHR ''b''] [CHR 0x08]" "reads_as [backslash, CHR ''f''] [CHR 0x0C]" "reads_as [backslash, CHR ''n''] [CHR 0x0A]"
    "reads_as [backslash, CHR ''r''] [CHR 0x0D]" "reads_as [backslash, CHR ''t''] [CHR 0x09]"
    by (rule reads_as_escape, simp add: unescape_json_def)+
  have hex: "reads_as [backslash, CHR ''u'', CHR ''0'', CHR ''0'', lower_hex (of_char c div 16), lower_hex (of_char c mod 16)] [c]"
    using c by (intro reads_char_hex) (simp add: ascii_def del: of_char_def)
  have plain: "reads_as [c] [c]" if "c \<noteq> quote_char" "c \<noteq> backslash" "\<not> (of_char c :: int) < 32"
    using that c by (intro reads_rune) (simp_all add: rune_width_def del: of_char_def)
  consider "c \<in> {quote_char, backslash, CHR 0x08, CHR 0x0C, CHR 0x0A, CHR 0x0D, CHR 0x09}"
    | "c \<notin> {quote_char, backslash, CHR 0x08, CHR 0x0C, CHR 0x0A, CHR 0x0D, CHR 0x09}" by blast
  then show ?thesis
  proof cases
    case 1
    then show ?thesis using lits by (elim insertE emptyE) (simp_all add: escape_char_def)
  next
    case 2
    then show ?thesis using hex plain by (simp add: escape_char_def del: of_char_def)
  qed
qed

lemma reads_escape_rune:
  assumes "rune_width s = Some n"
  shows "reads_as (escape_rune (Rune (take n s))) (take n s)"
proof -
  let ?r = "take n s"
  have n: "0 < n" "n \<le> length s" using rune_width_bounds [OF assms] by auto
  have w: "rune_width ?r = Some (length ?r)" using rune_width_take [OF assms, of "[]"] n by simp
  have "hex4 ''2028'' = Some 8232" "encode_rune 8232 = line_separator" "hex4 ''2029'' = Some 8233" "encode_rune 8233 = paragraph_separator"
    by code_simp+
  then have seps: "reads_as (backslash # ''u2028'') line_separator" "reads_as (backslash # ''u2029'') paragraph_separator"
    using reads_unicode [of "''2028''" 8232] reads_unicode [of "''2029''" 8233] by simp_all
  obtain c cs where s: "?r = c # cs" using n by (cases ?r) auto
  show ?thesis
  proof (cases "ascii c")
    case True
    then have "?r = [c]" using w s by (simp add: rune_width_def)
    with True reads_escape_char [OF True] show ?thesis by (simp add: line_separator_def paragraph_separator_def)
  next
    case False
    then have "cs \<noteq> []" using w s by (auto simp: rune_width_def lead_def split: option.splits if_splits)
    moreover have "c \<noteq> quote_char \<and> c \<noteq> backslash \<and> 32 \<le> (of_char c :: int)" using False by (auto simp: ascii_def)
    then have "reads_as ?r ?r" using w s by (intro reads_rune) auto
    ultimately show ?thesis using seps s by (auto split: list.splits)
  qed
qed

lemma reads_invalid: "reads_as (escape_rune (Invalid c)) RuneError"
proof -
  have "hex4 ''fffd'' = Some 65533" "encode_rune 65533 = RuneError" by code_simp+
  then show ?thesis using reads_unicode [of "''fffd''" 65533] by simp
qed

lemma parse_string_quoted:
  "parse_string (concat (map escape_rune (runes s)) @ quote_char # rest) = Some (utf8_text s, rest)"
proof (induction s rule: rune_induct)
  case (Rune s n)
  from reads_escape_rune [OF Rune(1)] Rune(4) show ?case
    by (simp add: runes_width [OF Rune(1)] utf8_text_def reads_as_def del: escape_rune.simps)
next
  case (Invalid c cs)
  from reads_invalid [of c] Invalid(2) show ?case
    by (simp add: runes_invalid [OF Invalid(1)] utf8_text_def reads_as_def del: escape_rune.simps)
qed (simp add: utf8_text_def parse_string_quote)

lemma utf8_text_valid: "valid_utf8 s \<Longrightarrow> utf8_text s = s"
proof (induction s rule: rune_induct)
  case (Rune s n)
  then show ?case by (simp add: runes_width [OF Rune(1)] utf8_text_def valid_simps(2))
qed (auto simp: utf8_text_def valid_simps)

section \<open>Values survive\<close>

text \<open>What may follow a value in printed text.\<close>

definition stops :: "string \<Rightarrow> bool" where
  "stops rest \<longleftrightarrow> (case rest of [] \<Rightarrow> True | c # _ \<Rightarrow> c = CHR '','' \<or> c = CHR '']'' \<or> c = CHR ''}'')"

lemma stops_simps [simp]: "stops []" "stops (CHR '','' # s)" "stops (CHR '']'' # s)" "stops (CHR ''}'' # s)"
  by (simp_all add: stops_def)

lemma stops_facts:
  assumes "stops rest"
  shows "takeWhile is_digit rest = []" "dropWhile is_digit rest = rest" "\<not> HasPrefix rest ''.''"
    "\<not> HasPrefix rest ''e''" "\<not> HasPrefix rest ''E''"
proof -
  have no: "\<not> is_digit CHR '',''" "\<not> is_digit CHR '']''" "\<not> is_digit CHR ''}''" by code_simp+
  show "takeWhile is_digit rest = []" "dropWhile is_digit rest = rest" "\<not> HasPrefix rest ''.''"
    "\<not> HasPrefix rest ''e''" "\<not> HasPrefix rest ''E''"
    using assms no by (auto simp: stops_def HasPrefix_def split: list.splits)
qed

lemma digits_of_append: "digits_of s = Some (ds, r) \<Longrightarrow> stops rest \<Longrightarrow> digits_of (s @ rest) = Some (ds, r @ rest)"
proof -
  assume d: "digits_of s = Some (ds, r)" and "stops rest"
  note f = stops_facts [OF \<open>stops rest\<close>]
  from d have ds: "takeWhile is_digit s = ds" "dropWhile is_digit s = r" "ds \<noteq> []" by (auto simp: digits_of_def split: if_splits)
  show ?thesis
  proof (cases "list_all is_digit s")
    case True
    then have "takeWhile is_digit s = s" "dropWhile is_digit s = []" by (auto simp: list_all_iff takeWhile_eq_all_conv dropWhile_eq_Nil_conv)
    with ds f True show ?thesis by (auto simp: digits_of_def list_all_iff takeWhile_append2 dropWhile_append2)
  next
    case False
    then obtain x where "x \<in> set s" "\<not> is_digit x" by (auto simp: list_all_iff)
    with ds show ?thesis by (auto simp: digits_of_def takeWhile_append1 dropWhile_append1)
  qed
qed

lemma HasPrefix_one: "HasPrefix (c # s) [a] \<longleftrightarrow> c = a" "\<not> HasPrefix [] [a]"
  by (auto simp: HasPrefix_def)

lemma int_part_append: "int_part s = Some (i, r) \<Longrightarrow> stops rest \<Longrightarrow> int_part (s @ rest) = Some (i, r @ rest)"
  using digits_of_append [of s i r rest]
  by (cases s) (auto simp: int_part_def HasPrefix_one digits_of_def split: if_splits)

lemma frac_part_append: "frac_part s = Some (f, r) \<Longrightarrow> stops rest \<Longrightarrow> frac_part (s @ rest) = Some (f, r @ rest)"
  by (cases s) (auto simp: frac_part_def HasPrefix_one stops_facts digits_of_append split: if_splits)

lemma exp_part_append: "exp_part s = Some (e, r) \<Longrightarrow> stops rest \<Longrightarrow> exp_part (s @ rest) = Some (e, r @ rest)"
proof (cases s)
  case (Cons c cs)
  assume e: "exp_part s = Some (e, r)" and rest: "stops rest"
  show ?thesis
  proof (cases "c = CHR ''e'' \<or> c = CHR ''E''")
    case True
    show ?thesis
    proof (cases cs)
      case Nil
      with e True \<open>s = c # cs\<close> show ?thesis by (auto simp: exp_part_def HasPrefix_one digits_of_def)
    next
      case (Cons c' cs')
      with e True \<open>s = c # cs\<close> rest digits_of_append [where s = cs'] digits_of_append [where s = cs] show ?thesis
        by (auto simp: exp_part_def HasPrefix_one Let_def split: if_splits)
    qed
  next
    case False
    with e Cons show ?thesis by (auto simp: exp_part_def HasPrefix_one)
  qed
qed (auto simp: exp_part_def HasPrefix_one stops_facts)

lemma parse_number_append:
  assumes "parse_number s = Some (t, r)" "stops rest"
  shows "parse_number (s @ rest) = Some (t, r @ rest)"
proof -
  define sg where "sg = (if HasPrefix s ''-'' then ''-'' else [] :: string)"
  from assms(1) obtain i s1 f s2 e where p: "int_part (drop (length sg) s) = Some (i, s1)" "frac_part s1 = Some (f, s2)"
      "exp_part s2 = Some (e, r)" "t = sg @ i @ f @ e"
    by (auto simp: parse_number_def sg_def Let_def split: option.splits)
  have ne: "s \<noteq> []" using p(1) by (auto simp: int_part_def HasPrefix_one digits_of_def)
  then have "(if HasPrefix (s @ rest) ''-'' then ''-'' else []) = sg" by (cases s) (simp_all add: sg_def HasPrefix_one)
  moreover have "drop (length sg) (s @ rest) = drop (length sg) s @ rest" using ne by (cases s) (simp_all add: sg_def)
  ultimately show ?thesis
    using int_part_append [OF p(1) assms(2)] frac_part_append [OF p(2) assms(2)] exp_part_append [OF p(3) assms(2)] p(4)
    by (simp add: parse_number_def Let_def)
qed

lemma parse_number_hd: "parse_number s = Some (t, r) \<Longrightarrow> \<exists>c cs. s = c # cs \<and> (c = CHR ''-'' \<or> is_digit c)"
proof (cases s)
  case (Cons c cs)
  assume "parse_number s = Some (t, r)"
  moreover have "is_digit CHR ''0''" by code_simp
  ultimately show ?thesis using Cons
    by (auto simp: parse_number_def int_part_def digits_of_def HasPrefix_one Let_def split: if_splits option.splits)
qed (simp add: parse_number_def int_part_def HasPrefix_one digits_of_def)

fun json_ok :: "int \<Rightarrow> json \<Rightarrow> bool" where
  "json_ok d (JNumber t) \<longleftrightarrow> parse_number t = Some (t, [])"
| "json_ok d (JArray js) \<longleftrightarrow> d < maxNestingDepth \<and> (\<forall>j \<in> set js. json_ok (d + 1) j)"
| "json_ok d (JObject kvs) \<longleftrightarrow> d < maxNestingDepth \<and> (\<forall>kv \<in> set kvs. json_ok (d + 1) (snd kv))"
| "json_ok d j \<longleftrightarrow> True"

fun utf8_json :: "json \<Rightarrow> json" where
  "utf8_json (JString s) = JString (utf8_text s)"
| "utf8_json (JArray js) = JArray (map utf8_json js)"
| "utf8_json (JObject kvs) = JObject (map (\<lambda>(k, v). (utf8_text k, utf8_json v)) kvs)"
| "utf8_json j = j"

lemma skip_space_Cons [simp]: "\<not> json_space c \<Longrightarrow> skip_space (c # cs) = c # cs"
  by (simp add: skip_space_def)

lemma print_json_hd: "json_ok d j \<Longrightarrow> \<exists>c cs. print_json j = c # cs \<and> \<not> json_space c \<and> c \<noteq> CHR '']''"
proof (cases j)
  case (JNumber t)
  assume "json_ok d j"
  with JNumber have "parse_number t = Some (t, [])" by simp
  from parse_number_hd [OF this] obtain c cs where t: "t = c # cs" "c = CHR ''-'' \<or> is_digit c" by blast
  have "c = CHR ''-'' \<or> is_digit c \<longrightarrow> \<not> json_space c \<and> c \<noteq> CHR '']''" by (rule all_chars) code_simp
  with JNumber t show ?thesis by simp
qed (auto simp: json_quote_def json_space_def)

lemma parse_number_value:
  assumes "parse_number t = Some (t, [])" "stops rest" "0 < n"
  shows "parse_value n d (t @ rest) = Some (JNumber t, rest)"
proof -
  obtain m where n: "n = Suc m" using assms(3) by (cases n) auto
  obtain c cs where t: "t = c # cs" "c = CHR ''-'' \<or> is_digit c" using parse_number_hd [OF assms(1)] by blast
  have "c = CHR ''-'' \<or> is_digit c \<longrightarrow> \<not> json_space c \<and> c \<notin> set (quote_char # ''[{ntf'')" by (rule all_chars) code_simp
  then have c: "\<not> json_space c" "c \<noteq> quote_char" "c \<noteq> CHR ''[''" "c \<noteq> CHR ''{''" "c \<noteq> CHR ''n''" "c \<noteq> CHR ''t''" "c \<noteq> CHR ''f''"
    using t by simp_all
  have "parse_number (c # cs @ rest) = Some (t, rest)" using parse_number_append [OF assms(1,2)] t by simp
  with c show ?thesis by (simp add: n t(1) HasPrefix_def)
qed

lemma parse_string_value:
  assumes "0 < n"
  shows "parse_value n d (json_quote s @ rest) = Some (JString (utf8_text s), rest)"
proof -
  obtain m where n: "n = Suc m" using assms by (cases n) auto
  have "\<not> json_space quote_char" by code_simp
  then have "skip_space (quote_char # t) = quote_char # t" for t by (rule skip_space_Cons)
  moreover have "json_quote s @ rest = quote_char # concat (map escape_rune (runes s)) @ quote_char # rest" by (simp add: json_quote_def)
  ultimately show ?thesis by (simp only: n parse_value.simps list.case parse_string_quoted if_True option.map prod.case simp_thms)
qed

lemma parse_elements_print:
  assumes "\<And>j rest n. j \<in> set js \<Longrightarrow> stops rest \<Longrightarrow> 2 * length (print_json j @ rest) + 1 \<le> n \<Longrightarrow>
      parse_value n d (print_json j @ rest) = Some (utf8_json j, rest)"
    and "js \<noteq> []" and "2 * length (Join '','' (map print_json js) @ CHR '']'' # rest) + 2 \<le> n"
  shows "parse_elements n d (Join '','' (map print_json js) @ CHR '']'' # rest) = Some (map utf8_json js, rest)"
  using assms
proof (induction js arbitrary: n)
  case (Cons j js)
  have sp: "\<not> json_space CHR '']''" "\<not> json_space CHR '',''" by code_simp+
  obtain m where n: "n = Suc m" using Cons.prems(3) by (cases n) auto
  show ?case
  proof (cases js)
    case Nil
    have "parse_value m d (print_json j @ CHR '']'' # rest) = Some (utf8_json j, CHR '']'' # rest)"
      using Cons.prems(3) Nil n by (intro Cons.prems(1)) auto
    with Nil n sp show ?thesis by simp
  next
    case (Cons k ks)
    let ?more = "Join '','' (map print_json js) @ CHR '']'' # rest"
    have shape: "Join '','' (map print_json (j # js)) @ CHR '']'' # rest = print_json j @ CHR '','' # ?more" by (simp add: Cons)
    have "parse_value m d (print_json j @ CHR '','' # ?more) = Some (utf8_json j, CHR '','' # ?more)"
      using Cons.prems(3) n unfolding shape by (intro Cons.prems(1)) auto
    moreover have "parse_elements m d ?more = Some (map utf8_json js, rest)"
      using Cons.prems n Cons unfolding shape by (intro Cons.IH) auto
    ultimately show ?thesis unfolding shape n using sp by simp
  qed
qed simp

lemma parse_members_print:
  assumes "\<And>kv rest n. kv \<in> set kvs \<Longrightarrow> stops rest \<Longrightarrow> 2 * length (print_json (snd kv) @ rest) + 1 \<le> n \<Longrightarrow>
      parse_value n d (print_json (snd kv) @ rest) = Some (utf8_json (snd kv), rest)"
    and "kvs \<noteq> []" and "2 * length (Join '','' (map (\<lambda>(k, v). json_quote k @ '':'' @ print_json v) kvs) @ CHR ''}'' # rest) + 2 \<le> n"
  shows "parse_members n d (Join '','' (map (\<lambda>(k, v). json_quote k @ '':'' @ print_json v) kvs) @ CHR ''}'' # rest) =
      Some (map (\<lambda>(k, v). (utf8_text k, utf8_json v)) kvs, rest)"
  using assms
proof (induction kvs arbitrary: n)
  case (Cons kv kvs)
  obtain k v where kv: "kv = (k, v)" by (cases kv)
  have sp: "\<not> json_space CHR ''}''" "\<not> json_space CHR '',''" "\<not> json_space CHR '':''" "\<not> json_space quote_char" by code_simp+
  obtain m where n: "n = Suc m" using Cons.prems(3) by (cases n) auto
  have key: "parse_string (concat (map escape_rune (runes k)) @ quote_char # t) = Some (utf8_text k, t)" for t
    by (rule parse_string_quoted)
  show ?case
  proof (cases kvs)
    case Nil
    have "parse_value m d (print_json v @ CHR ''}'' # rest) = Some (utf8_json v, CHR ''}'' # rest)"
      using Cons.prems(3) Cons.prems(1) [of kv] Nil n by (simp add: kv)
    with Nil n sp key show ?thesis by (simp add: kv json_quote_def HasPrefix_one)
  next
    case (Cons kw kws)
    let ?more = "Join '','' (map (\<lambda>(k, v). json_quote k @ '':'' @ print_json v) kvs) @ CHR ''}'' # rest"
    have shape: "Join '','' (map (\<lambda>(k, v). json_quote k @ '':'' @ print_json v) (kv # kvs)) @ CHR ''}'' # rest =
        json_quote k @ CHR '':'' # print_json v @ CHR '','' # ?more" by (simp add: Cons kv)
    have "parse_value m d (print_json v @ CHR '','' # ?more) = Some (utf8_json v, CHR '','' # ?more)"
      using Cons.prems(3) Cons.prems(1) [of kv] n unfolding shape by (simp add: kv)
    moreover have "parse_members m d ?more = Some (map (\<lambda>(k, v). (utf8_text k, utf8_json v)) kvs, rest)"
      using Cons.prems n Cons unfolding shape by (intro Cons.IH) auto
    ultimately show ?thesis unfolding shape n using sp key by (simp add: kv json_quote_def HasPrefix_one)
  qed
qed simp

lemma parse_value_print:
  "json_ok d j \<Longrightarrow> stops rest \<Longrightarrow> 2 * length (print_json j @ rest) + 1 \<le> n \<Longrightarrow>
     parse_value n d (print_json j @ rest) = Some (utf8_json j, rest)"
proof (induction j arbitrary: d n rest)
  case JNull
  then show ?case by (cases n) (auto simp: json_space_def HasPrefix_def)
next
  case (JBool b)
  then show ?case by (cases n) (auto simp: json_space_def HasPrefix_def)
next
  case (JNumber t)
  then show ?case by (simp add: parse_number_value)
next
  case (JString s)
  then show ?case by (simp add: parse_string_value)
next
  case (JArray js)
  then obtain m where n: "n = Suc m" by (cases n) auto
  have sp: "\<not> json_space CHR ''[''" "\<not> json_space CHR '']''" by code_simp+
  have d: "d < maxNestingDepth" using JArray.prems(1) by simp
  show ?case
  proof (cases "js = []")
    case True
    with sp d show ?thesis by (simp add: n HasPrefix_one)
  next
    case False
    then obtain k ks where js: "js = k # ks" by (cases js) auto
    obtain c cs where c: "print_json k = c # cs" "\<not> json_space c" "c \<noteq> CHR '']''"
      using print_json_hd [of "d + 1" k] JArray.prems(1) js by auto
    let ?more = "Join '','' (map print_json js) @ CHR '']'' # rest"
    have "\<exists>u. ?more = c # u" by (cases ks) (simp_all add: js c)
    then obtain u where u: "?more = c # u" by blast
    have "\<not> HasPrefix (skip_space ?more) '']''" using c by (simp add: u HasPrefix_one)
    moreover have "parse_elements m (d + 1) ?more = Some (map utf8_json js, rest)"
      using JArray.prems n False by (intro parse_elements_print) (auto intro!: JArray.IH)
    moreover have "print_json (JArray js) @ rest = CHR ''['' # ?more" by simp
    ultimately show ?thesis using sp d by (simp only: n parse_value.simps skip_space_Cons list.case) simp
  qed
next
  case (JObject kvs)
  then obtain m where n: "n = Suc m" by (cases n) auto
  have sp: "\<not> json_space CHR ''{''" "\<not> json_space CHR ''}''" "\<not> json_space quote_char" by code_simp+
  have d: "d < maxNestingDepth" using JObject.prems(1) by simp
  let ?p = "\<lambda>(k, v). json_quote k @ '':'' @ print_json v"
  show ?case
  proof (cases "kvs = []")
    case True
    with sp d show ?thesis by (simp add: n HasPrefix_one)
  next
    case False
    then obtain k v ks where kvs: "kvs = (k, v) # ks" by (cases kvs) auto
    let ?more = "Join '','' (map ?p kvs) @ CHR ''}'' # rest"
    have "\<exists>u. ?more = quote_char # u" by (cases ks) (simp_all add: kvs json_quote_def)
    then obtain u where u: "?more = quote_char # u" by blast
    have "\<not> HasPrefix (skip_space ?more) ''}''" unfolding u using sp by (simp add: HasPrefix_one)
    moreover have "parse_members m (d + 1) ?more = Some (map (\<lambda>(k, v). (utf8_text k, utf8_json v)) kvs, rest)"
      using JObject.prems n False
      by (intro parse_members_print) (auto intro!: JObject.IH simp: snds.simps)
    moreover have "print_json (JObject kvs) @ rest = CHR ''{'' # ?more" by simp
    ultimately show ?thesis using sp d by (simp only: n parse_value.simps skip_space_Cons list.case) simp
  qed
qed

lemma parse_print:
  assumes "json_ok 0 j"
  shows "parse_json (print_json j) = Some (utf8_json j)"
proof -
  have "parse_value (2 * length (print_json j) + 1) 0 (print_json j @ []) = Some (utf8_json j, [])"
    by (rule parse_value_print) (use assms in simp_all)
  then show ?thesis by (simp add: parse_json_def skip_space_def)
qed

section \<open>The bound on the calls\<close>

lemma skip_space_le: "length (skip_space s) \<le> length s"
  by (simp add: skip_space_def length_dropWhile_le)

lemma skip_space_less: "skip_space s = c # cs \<Longrightarrow> length cs < length s"
  using skip_space_le [of s] by simp

lemma parse_string_less: "parse_string s = Some (t, r) \<Longrightarrow> length r < length s"
proof (induction s arbitrary: t r rule: parse_string.induct)
  case (2 c cs)
  from "2.prems" "2.IH" show ?case
    by (subst (asm) parse_string.simps) (fastforce split: if_splits option.splits)
qed (simp add: parse_string.simps)

lemma digits_of_less: "digits_of s = Some (ds, r) \<Longrightarrow> length r < length s"
proof -
  assume "digits_of s = Some (ds, r)"
  then have "takeWhile is_digit s \<noteq> []" "r = dropWhile is_digit s" by (auto simp: digits_of_def split: if_splits)
  moreover have "length (takeWhile is_digit s) + length (dropWhile is_digit s) = length s"
    by (metis length_append takeWhile_dropWhile_id)
  ultimately show ?thesis by (cases "takeWhile is_digit s") auto
qed

lemma parse_number_less: "parse_number s = Some (t, r) \<Longrightarrow> length r < length s"
proof -
  assume "parse_number s = Some (t, r)"
  then obtain k i s1 f s2 e where p: "int_part (drop k s) = Some (i, s1)" "frac_part s1 = Some (f, s2)" "exp_part s2 = Some (e, r)"
    by (auto simp: parse_number_def Let_def split: option.splits)
  have "length s1 < length s" using p(1) digits_of_less [of "drop k s" i s1]
    by (cases "drop k s") (auto simp: int_part_def HasPrefix_one dest: arg_cong [where f = length] split: if_splits)
  moreover have "length s2 \<le> length s1" using p(2) by (auto simp: frac_part_def split: if_splits dest!: digits_of_less)
  moreover have "length r \<le> length s2" using p(3) by (auto simp: exp_part_def Let_def split: if_splits dest!: digits_of_less)
  ultimately show ?thesis by simp
qed

lemma drop_skip_less: "HasPrefix (skip_space s) [c] \<Longrightarrow> length (drop 1 (skip_space s)) < length s"
  using skip_space_le [of s] by (cases "skip_space s") (auto simp: HasPrefix_one)

lemma parse_value_less:
  assumes "parse_value (Suc n) d s = Some (v, r)"
    and "\<And>d s js r. parse_elements n d s = Some (js, r) \<Longrightarrow> length r < length s"
    and "\<And>d s kvs r. parse_members n d s = Some (kvs, r) \<Longrightarrow> length r < length s"
  shows "length r < length s"
proof -
  obtain c cs where s: "skip_space s = c # cs" using assms(1) by (cases "skip_space s") auto
  have "length r < length (c # cs)"
    using assms(1) by (auto simp: s split: if_splits dest!: assms(2,3) parse_string_less parse_number_less)
      (use skip_space_le [of cs] in auto)
  with s skip_space_le [of s] show ?thesis by simp
qed

lemma parse_less:
  "(\<forall>d s v r. parse_value n d s = Some (v, r) \<longrightarrow> length r < length s) \<and>
   (\<forall>d s js r. parse_elements n d s = Some (js, r) \<longrightarrow> length r < length s) \<and>
   (\<forall>d s kvs r. parse_members n d s = Some (kvs, r) \<longrightarrow> length r < length s)"
proof (induction n)
  case (Suc n)
  then have v: "\<And>d s v r. parse_value n d s = Some (v, r) \<Longrightarrow> length r < length s"
    and e: "\<And>d s js r. parse_elements n d s = Some (js, r) \<Longrightarrow> length r < length s"
    and m: "\<And>d s kvs r. parse_members n d s = Some (kvs, r) \<Longrightarrow> length r < length s" by blast+
  have "length r < length s" if "parse_value (Suc n) d s = Some (v, r)" for d s v r
    by (rule parse_value_less [OF that e m])
  moreover have "length r < length s" if run: "parse_elements (Suc n) d s = Some (js, r)" for d s js r
  proof -
    obtain w s1 where s1: "parse_value n d s = Some (w, s1)" using run by (cases "parse_value n d s") auto
    obtain c cs where c: "skip_space s1 = c # cs" using run s1 by (cases "skip_space s1") auto
    show ?thesis using run v [OF s1] skip_space_less [OF c]
      by (auto simp: s1 c split: if_splits dest!: e)
  qed
  moreover have "length r < length s" if run: "parse_members (Suc n) d s = Some (kvs, r)" for d s kvs r
  proof -
    obtain qs where q: "skip_space s = quote_char # qs" using run by (cases "skip_space s") (auto split: if_splits)
    obtain k s1 where k: "parse_string qs = Some (k, s1)" "HasPrefix (skip_space s1) '':''"
      using run q by (auto split: option.splits if_splits)
    obtain w s2 where w: "parse_value n d (drop 1 (skip_space s1)) = Some (w, s2)" using run q k by (auto split: option.splits)
    obtain c cs where c: "skip_space s2 = c # cs" using run q k w by (cases "skip_space s2") auto
    have "length cs < length s"
      using skip_space_less [OF c] v [OF w] drop_skip_less [OF k(2)] parse_string_less [OF k(1)] skip_space_less [OF q] by simp
    then show ?thesis using run by (auto simp: q k w [simplified] c split: if_splits dest!: e m)
  qed
  ultimately show ?case by blast
qed simp

text \<open>More than twice the length of the text makes no difference: the bound of \<open>parse_json\<close> never cuts a parse.\<close>

lemma parse_fuel:
  "(\<forall>d s. 2 * length s + 1 \<le> n \<longrightarrow> parse_value (Suc n) d s = parse_value n d s) \<and>
   (\<forall>d s. 2 * length s + 2 \<le> n \<longrightarrow> parse_elements (Suc n) d s = parse_elements n d s) \<and>
   (\<forall>d s. 2 * length s + 2 \<le> n \<longrightarrow> parse_members (Suc n) d s = parse_members n d s)"
proof (induction n)
  case (Suc n)
  then have v: "\<And>d s. 2 * length s + 1 \<le> n \<Longrightarrow> parse_value (Suc n) d s = parse_value n d s"
    and e: "\<And>d s. 2 * length s + 2 \<le> n \<Longrightarrow> parse_elements (Suc n) d s = parse_elements n d s"
    and m: "\<And>d s. 2 * length s + 2 \<le> n \<Longrightarrow> parse_members (Suc n) d s = parse_members n d s" by blast+
  have "parse_value (Suc (Suc n)) d s = parse_value (Suc n) d s" if "2 * length s + 1 \<le> Suc n" for d s
  proof (cases "skip_space s")
    case (Cons c cs)
    with that skip_space_less [OF Cons] have "2 * length cs + 2 \<le> n" by simp
    then show ?thesis using e [of cs] m [of cs] by (simp only: parse_value.simps Cons list.case)
  qed simp
  moreover have "parse_elements (Suc (Suc n)) d s = parse_elements (Suc n) d s" if "2 * length s + 2 \<le> Suc n" for d s
  proof (cases "parse_value n d s")
    case (Some p)
    obtain w s1 where p: "p = (w, s1)" by (cases p)
    have eq: "parse_value (Suc n) d s = Some (w, s1)" using Some p v that by simp
    show ?thesis
    proof (cases "skip_space s1")
      case (Cons c cs)
      have "length s1 < length s" using parse_less [of n] Some p by blast
      with skip_space_less [OF Cons] that have "2 * length cs + 2 \<le> n" by simp
      from e [OF this, of d] show ?thesis
        by (simp only: parse_elements.simps(2) [of "Suc n"] parse_elements.simps(2) [of n] eq Some p option.case prod.case Cons list.case)
    qed (simp only: parse_elements.simps(2) [of "Suc n"] parse_elements.simps(2) [of n] eq Some p option.case prod.case list.case)
  qed (use v that in \<open>simp only: parse_elements.simps(2) [of "Suc n"] parse_elements.simps(2) [of n] option.case; simp\<close>)
  moreover have "parse_members (Suc (Suc n)) d s = parse_members (Suc n) d s" if "2 * length s + 2 \<le> Suc n" for d s
  proof (cases "skip_space s")
    case q: (Cons q qs)
    show ?thesis
    proof (cases "parse_string qs")
      case k: (Some p)
      obtain key s1 where p: "p = (key, s1)" by (cases p)
      let ?s2 = "drop 1 (skip_space s1)"
      have len: "length ?s2 < length s" using parse_string_less [of qs key s1] k p skip_space_less [OF q] skip_space_le [of s1] by simp
      then have eq: "parse_value (Suc n) d ?s2 = parse_value n d ?s2" using that by (intro v) simp
      have "parse_members (Suc n) d cs = parse_members n d cs" if "parse_value n d ?s2 = Some (w, s3)" "skip_space s3 = c # cs" for w s3 c cs
      proof -
        have "length s3 < length ?s2" using parse_less [of n] that(1) by blast
        with len skip_space_less [OF that(2)] \<open>2 * length s + 2 \<le> Suc n\<close> show ?thesis by (intro m) simp
      qed
      then show ?thesis
        unfolding parse_members.simps(2) [of "Suc n"] parse_members.simps(2) [of n] q k p list.case option.case prod.case eq
        by (auto split: option.split list.split)
    qed (simp only: parse_members.simps(2) [of "Suc n"] parse_members.simps(2) [of n] q list.case option.case)
  qed (simp only: parse_members.simps(2) [of "Suc n"] parse_members.simps(2) [of n] list.case)
  ultimately show ?case by blast
qed simp

end
