(* ===== verification/Go_Json_Decode.thy ===== *)
theory Go_Json_Decode
  imports Go_Json "HOL-Library.AList"
begin

text \<open>
  How \<^verbatim>\<open>json.Unmarshal\<close> and \<^verbatim>\<open>json.Marshal\<close> treat the Go values the gateway uses: strings, booleans,
  integers, slices, string maps, structs and pointers. A decoder returns \<open>None\<close> for every error: the callers
  use a decoded value only when there is none. In a decoded map the keys stand in the order of the document,
  and a field that occurs twice as an array is the second one.
\<close>

section \<open>Decoding into Go values\<close>

text \<open>A decoder changes the value it is given, as \<open>json.Unmarshal\<close> does; \<open>null\<close> changes nothing.\<close>

fun decode_string :: "string \<Rightarrow> json \<Rightarrow> string option" where
  "decode_string cur (JString s) = Some s"
| "decode_string cur JNull = Some cur"
| "decode_string cur j = None"

fun decode_bool :: "bool \<Rightarrow> json \<Rightarrow> bool option" where
  "decode_bool cur (JBool b) = Some b"
| "decode_bool cur JNull = Some cur"
| "decode_bool cur j = None"

text \<open>An \<open>int64\<close>: a literal with a fraction or an exponent, or out of range, is an error.\<close>

definition int_literal :: "string \<Rightarrow> int option" where
  "int_literal t =
     (let neg = HasPrefix t ''-''; ds = (if neg then drop 1 t else t); v = (if neg then - undigits 0 ds else undigits 0 ds)
      in if ds \<noteq> [] \<and> list_all is_digit ds \<and> - (2 ^ 63) \<le> v \<and> v < 2 ^ 63 then Some v else None)"

fun decode_int :: "int \<Rightarrow> json \<Rightarrow> int option" where
  "decode_int cur (JNumber t) = int_literal t"
| "decode_int cur JNull = Some cur"
| "decode_int cur j = None"

text \<open>The elements of a list are decoded from the zero value.\<close>

fun decode_list :: "('a \<Rightarrow> json \<Rightarrow> 'a option) \<Rightarrow> 'a \<Rightarrow> json \<Rightarrow> 'a list option" where
  "decode_list dec zero (JArray js) = all_some (map (dec zero) js)"
| "decode_list dec zero JNull = Some []"
| "decode_list dec zero j = None"

fun decode_entries :: "(string \<times> string) list \<Rightarrow> (string \<times> json) list \<Rightarrow> (string \<times> string) list option" where
  "decode_entries m [] = Some m"
| "decode_entries m ((k, v) # kvs) =
     (case decode_string [] v of None \<Rightarrow> None | Some s \<Rightarrow> decode_entries (AList.update k s m) kvs)"

text \<open>A \<open>map[string]string\<close>; the inner \<open>None\<close> is the nil map.\<close>

fun decode_map :: "(string \<times> string) list option \<Rightarrow> json \<Rightarrow> (string \<times> string) list option option" where
  "decode_map cur (JObject kvs) = map_option Some (decode_entries (case cur of None \<Rightarrow> [] | Some m \<Rightarrow> m) kvs)"
| "decode_map cur JNull = Some None"
| "decode_map cur j = None"

text \<open>The field an object key names: the exact name first, then the first name equal up to case.\<close>

definition struct_field :: "string list \<Rightarrow> string \<Rightarrow> string option" where
  "struct_field names key =
     (if key \<in> set names then Some key else find (\<lambda>f. fold_lit (ToLower f) key = Some (length key)) names)"

fun decode_fields :: "string list \<Rightarrow> (string \<Rightarrow> json \<Rightarrow> 'a \<Rightarrow> 'a option) \<Rightarrow> (string \<times> json) list \<Rightarrow> 'a \<Rightarrow> 'a option" where
  "decode_fields names set_field [] cur = Some cur"
| "decode_fields names set_field ((k, v) # kvs) cur =
     (case struct_field names k of
        None \<Rightarrow> decode_fields names set_field kvs cur
      | Some f \<Rightarrow> (case set_field f v cur of None \<Rightarrow> None | Some cur' \<Rightarrow> decode_fields names set_field kvs cur'))"

fun decode_struct :: "string list \<Rightarrow> (string \<Rightarrow> json \<Rightarrow> 'a \<Rightarrow> 'a option) \<Rightarrow> 'a \<Rightarrow> json \<Rightarrow> 'a option" where
  "decode_struct names set_field cur (JObject kvs) = decode_fields names set_field kvs cur"
| "decode_struct names set_field cur JNull = Some cur"
| "decode_struct names set_field cur j = None"

text \<open>A pointer to a struct: \<open>null\<close> makes it nil, anything else is decoded into what it points to.\<close>

fun decode_pointer :: "('a \<Rightarrow> json \<Rightarrow> 'a option) \<Rightarrow> 'a \<Rightarrow> 'a option \<Rightarrow> json \<Rightarrow> 'a option option" where
  "decode_pointer dec zero cur JNull = Some None"
| "decode_pointer dec zero cur j = map_option Some (dec (case cur of None \<Rightarrow> zero | Some x \<Rightarrow> x) j)"

definition Unmarshal :: "('a \<Rightarrow> json \<Rightarrow> 'a option) \<Rightarrow> 'a \<Rightarrow> string \<Rightarrow> 'a option" where
  "Unmarshal dec zero s = (case parse_json s of None \<Rightarrow> None | Some j \<Rightarrow> dec zero j)"

lemma struct_field_exact: "key \<in> set names \<Longrightarrow> struct_field names key = Some key"
  by (simp add: struct_field_def)

section \<open>Text in UTF-8\<close>

fun json_utf8 :: "json \<Rightarrow> bool" where
  "json_utf8 (JString s) \<longleftrightarrow> valid_utf8 s"
| "json_utf8 (JArray js) \<longleftrightarrow> (\<forall>j \<in> set js. json_utf8 j)"
| "json_utf8 (JObject kvs) \<longleftrightarrow> (\<forall>(k, v) \<in> set kvs. valid_utf8 k \<and> json_utf8 v)"
| "json_utf8 j \<longleftrightarrow> True"

lemma utf8_json_id: "json_utf8 j \<Longrightarrow> utf8_json j = j"
proof (induction j)
  case (JArray js)
  then show ?case by (simp add: map_idI)
next
  case (JObject kvs)
  have "(case kv of (k, v) \<Rightarrow> (utf8_text k, utf8_json v)) = kv" if "kv \<in> set kvs" for kv
    using JObject that by (cases kv) (fastforce simp: utf8_text_valid snds.simps)
  then show ?case by (simp add: map_idI)
qed (simp_all add: utf8_text_valid)

lemma parse_print_utf8: "json_ok 0 j \<Longrightarrow> json_utf8 j \<Longrightarrow> parse_json (print_json j) = Some j"
  by (simp add: parse_print utf8_json_id)

section \<open>String maps\<close>

text \<open>\<open>json.Marshal\<close> sorts the keys of a map. Marshalling a string map never fails.\<close>

definition json_entries :: "(string \<times> string) list \<Rightarrow> (string \<times> json) list" where
  "json_entries m = map (\<lambda>(k, v). (k, JString v)) (sort_key fst m)"

definition marshalVars :: "(string \<times> string) list \<Rightarrow> string option" where
  "marshalVars vars = Some (print_json (JObject (json_entries vars)))"

definition unmarshalVars :: "string \<Rightarrow> (string \<times> string) list option option" where
  "unmarshalVars = Unmarshal decode_map None"

lemma AList_update_fresh: "k \<notin> fst ` set m \<Longrightarrow> AList.update k v m = m @ [(k, v)]"
  by (induction m) auto

lemma decode_entries_fresh:
  "distinct (map fst (m @ kvs)) \<Longrightarrow> decode_entries m (map (\<lambda>(k, v). (k, JString v)) kvs) = Some (m @ kvs)"
proof (induction kvs arbitrary: m)
  case (Cons kv kvs)
  obtain k v where kv: "kv = (k, v)" by (cases kv)
  have "AList.update k v m = m @ [(k, v)]" using Cons.prems by (intro AList_update_fresh) (auto simp: kv)
  with Cons.IH [of "m @ [(k, v)]"] Cons.prems show ?case by (simp add: kv)
qed simp

text \<open>A string map survives encoding and decoding up to the order of its keys and invalid UTF-8 in its values.\<close>

lemma vars_roundtrip:
  assumes "distinct (map fst vars)" and "list_all (\<lambda>(k, v). valid_utf8 k) vars"
  shows "\<exists>s. marshalVars vars = Some s \<and>
    unmarshalVars s = Some (Some (map (\<lambda>(k, v). (k, utf8_text v)) (sort_key fst vars)))"
proof -
  let ?s = "map (\<lambda>(k, v). (k, utf8_text v)) (sort_key fst vars)"
  have ok: "json_ok 0 (JObject (json_entries vars))" by (auto simp: json_entries_def maxNestingDepth_def)
  have key: "utf8_text k = k" if "(k, v) \<in> set vars" for k v
    using assms(2) that by (intro utf8_text_valid) (auto simp: list_all_iff)
  have norm: "utf8_json (JObject (json_entries vars)) = JObject (map (\<lambda>(k, v). (k, JString v)) ?s)"
    using key by (auto simp: json_entries_def)
  have "map fst ?s = map fst (sort_key fst vars)" by (auto simp: comp_def case_prod_beta)
  moreover have "distinct (map fst (sort_key fst vars))" using assms(1) by (simp add: distinct_map)
  ultimately have "distinct (map fst ([] @ ?s))" by (simp only: append_Nil)
  from decode_entries_fresh [OF this] have "decode_entries [] (map (\<lambda>(k, v). (k, JString v)) ?s) = Some ?s" by simp
  then show ?thesis using parse_print [OF ok] norm by (simp add: marshalVars_def unmarshalVars_def Unmarshal_def)
qed

end
