(* ===== verification/Config_Data.thy ===== *)
theory Config_Data
  imports Complex_Main Template Go_Url_Parse Go_Json_Decode
begin

text \<open>
  The records of the gateway's configuration (\<^verbatim>\<open>internal/config/config.go\<close>, \<^verbatim>\<open>ratelimit.go\<close>, \<^verbatim>\<open>snapshot.go\<close>)
  and the environment \<open>golib\<close> its functions take as an argument. A Go map is an association list, a pointer
  an option; an HTTP \<open>float64\<close> rate is a rational or one of the special values. A nil slice and an empty
  one are the same list, a nil map and an empty one the same association list.
\<close>

section \<open>Data\<close>

datatype regexp = Regexp string

datatype float64 = Finite rat | NaN | PosInf | NegInf

type_synonym gomap = "(string \<times> string) list"

record RateLimitConfig =
  rl_Burst :: int
  rl_PerSecond :: float64

record RateLimitsConfig =
  rls_PreAuthPerIP :: RateLimitConfig
  rls_Global :: RateLimitConfig
  rls_SourcePerIP :: RateLimitConfig
  rls_AdminPerIP :: RateLimitConfig

record HeartbeatTarget =
  ht_Name :: string
  ht_URL :: string
  ht_Token :: string
  ht_Mode :: string
  ht_AllowHTTP :: bool

record HeartbeatConfig =
  hc_Interval :: duration
  hc_Timeout :: duration
  hc_Host :: string
  hc_Targets :: "HeartbeatTarget list"

record AdminConfig =
  ad_Header :: string
  ad_Token :: string

record ServerConfig =
  sv_Addr :: string
  sv_TrustedProxies :: "string list"
  sv_MaxInFlight :: int
  sv_MaxInFlightBytes :: int
  sv_RateLimit :: RateLimitsConfig

record StoreConfig =
  sc_Path :: string
  sc_Retention :: duration
  sc_RetainPayload :: "bool option"

record QueueConfig =
  qc_Workers :: int
  qc_Buffer :: int
  qc_MaxRetries :: int
  qc_RetryBase :: duration
  qc_MaxRetryDelay :: duration
  qc_MaxRetryAge :: duration

record LogPolicyConfig =
  lp_Mode :: string
  lp_Field :: string
  lp_Services :: "string list"
  lp_OnReject :: string

record RedactionConfig =
  rd_Patterns :: "string list"
  rd_Compiled :: "regexp list"

record AuthConfig =
  au_Type :: string
  au_Header :: string
  au_Secret :: string
  au_SignedHeaders :: "string list"

record Rule =
  ru_Var :: string
  ru_Regex :: string

record ActionConfig =
  ac_Type :: string
  ac_URL :: string
  ac_Method :: string
  ac_Headers :: gomap
  ac_Body :: string
  ac_URLAllowlist :: "string list"
  ac_AllowPrivate :: bool
  ac_Command :: string
  ac_Args :: "string list"
  ac_Timeout :: duration

record Source =
  src_Name :: string
  src_Auth :: AuthConfig
  src_Extract :: gomap
  src_Rules :: "Rule list"
  src_Actions :: "ActionConfig list"
  src_LogPolicy :: "LogPolicyConfig option"
  src_Redaction :: "RedactionConfig option"

record Config =
  cf_Server :: ServerConfig
  cf_Admin :: AdminConfig
  cf_LogLevel :: string
  cf_Store :: StoreConfig
  cf_Queue :: QueueConfig
  cf_Heartbeat :: HeartbeatConfig
  cf_Sources :: "Source list"

record SourceSnapshot =
  sn_Name :: string
  sn_Extract :: gomap
  sn_Rules :: "Rule list"
  sn_Actions :: "ActionConfig list"
  sn_LogPolicy :: "LogPolicyConfig option"
  sn_Redaction :: "RedactionConfig option"

text \<open>What the sources take from outside: the process environment, regular expressions (the patterns are
  configuration, the engine is Go's), SHA-256, HMAC and gjson.\<close>

record golib =
  lookupEnv :: "string \<Rightarrow> string option"
  reCompile :: "string \<Rightarrow> regexp option"
  reMatch :: "regexp \<Rightarrow> string \<Rightarrow> bool"
  reReplace :: "regexp \<Rightarrow> string \<Rightarrow> string \<Rightarrow> string"
  reReplaceFunc :: "regexp \<Rightarrow> string \<Rightarrow> (string \<Rightarrow> string) \<Rightarrow> string"
  gjsonGet :: "string \<Rightarrow> string \<Rightarrow> string option"
  sha256hex :: "string \<Rightarrow> string"
  hmacHex :: "string \<Rightarrow> string \<Rightarrow> string"

end
