(* ===== verification/Plan_Json.thy ===== *)
theory Plan_Json
  imports Config_Data
begin

text \<open>
  The JSON of a durable execution plan: what \<^verbatim>\<open>json.Marshal\<close> makes of a \<open>SourceSnapshot\<close> and what
  \<^verbatim>\<open>json.Unmarshal\<close> reads back (\<^verbatim>\<open>internal/config/snapshot.go\<close>, the struct tags of \<^verbatim>\<open>config.go\<close>). The
  compiled patterns are not written. An empty slice or map without \<open>omitempty\<close> is printed as a nil one.
\<close>

section \<open>Encoding\<close>

definition json_list :: "('a \<Rightarrow> json) \<Rightarrow> 'a list \<Rightarrow> json" where
  "json_list f xs = (if xs = [] then JNull else JArray (map f xs))"

definition json_map :: "gomap \<Rightarrow> json" where
  "json_map m = (if m = [] then JNull else JObject (json_entries m))"

definition json_rule :: "Rule \<Rightarrow> json" where
  "json_rule r = JObject [(''Var'', JString (ru_Var r)), (''Regex'', JString (ru_Regex r))]"

definition json_action :: "ActionConfig \<Rightarrow> json" where
  "json_action a = JObject
     [(''Type'', JString (ac_Type a)), (''URL'', JString (ac_URL a)), (''Method'', JString (ac_Method a)),
      (''Headers'', json_map (ac_Headers a)), (''Body'', JString (ac_Body a)),
      (''URLAllowlist'', json_list JString (ac_URLAllowlist a)), (''AllowPrivate'', JBool (ac_AllowPrivate a)),
      (''Command'', JString (ac_Command a)), (''Args'', json_list JString (ac_Args a)),
      (''Timeout'', JObject [(''Duration'', JNumber (Itoa (ac_Timeout a)))])]"

definition json_policy :: "LogPolicyConfig \<Rightarrow> json" where
  "json_policy lp = JObject
     [(''Mode'', JString (lp_Mode lp)), (''Field'', JString (lp_Field lp)),
      (''Services'', json_list JString (lp_Services lp)), (''OnReject'', JString (lp_OnReject lp))]"

definition json_redaction :: "RedactionConfig \<Rightarrow> json" where
  "json_redaction r = JObject [(''patterns'', json_list JString (rd_Patterns r))]"

definition json_snapshot :: "SourceSnapshot \<Rightarrow> json" where
  "json_snapshot s = JObject
     ([(''name'', JString (sn_Name s))] @
      (if sn_Extract s = [] then [] else [(''extract'', json_map (sn_Extract s))]) @
      (if sn_Rules s = [] then [] else [(''rules'', json_list json_rule (sn_Rules s))]) @
      [(''actions'', json_list json_action (sn_Actions s))] @
      (case sn_LogPolicy s of None \<Rightarrow> [] | Some lp \<Rightarrow> [(''log_policy'', json_policy lp)]) @
      (case sn_Redaction s of None \<Rightarrow> [] | Some r \<Rightarrow> [(''redaction'', json_redaction r)]))"

definition marshalSnapshot :: "SourceSnapshot \<Rightarrow> string option" where
  "marshalSnapshot s = Some (print_json (json_snapshot s))"

definition marshalPlans :: "SourceSnapshot list \<Rightarrow> string option" where
  "marshalPlans ss = Some (print_json (JArray (map json_snapshot ss)))"

section \<open>Decoding\<close>

definition zero_rule :: Rule where "zero_rule = \<lparr>ru_Var = [], ru_Regex = []\<rparr>"

definition rule_field :: "string \<Rightarrow> json \<Rightarrow> Rule \<Rightarrow> Rule option" where
  "rule_field f v r =
     (if f = ''Var'' then map_option (\<lambda>s. r\<lparr>ru_Var := s\<rparr>) (decode_string (ru_Var r) v)
      else map_option (\<lambda>s. r\<lparr>ru_Regex := s\<rparr>) (decode_string (ru_Regex r) v))"

definition decode_rule :: "Rule \<Rightarrow> json \<Rightarrow> Rule option" where
  "decode_rule = decode_struct [''Var'', ''Regex''] rule_field"

text \<open>A map that stays nil is the empty association list.\<close>

definition decode_gomap :: "gomap \<Rightarrow> json \<Rightarrow> gomap option" where
  "decode_gomap cur j = map_option (\<lambda>m. case m of None \<Rightarrow> [] | Some kvs \<Rightarrow> kvs) (decode_map (Some cur) j)"

definition zero_action :: ActionConfig where
  "zero_action = \<lparr>ac_Type = [], ac_URL = [], ac_Method = [], ac_Headers = [], ac_Body = [], ac_URLAllowlist = [],
     ac_AllowPrivate = False, ac_Command = [], ac_Args = [], ac_Timeout = 0\<rparr>"

definition decode_duration :: "duration \<Rightarrow> json \<Rightarrow> duration option" where
  "decode_duration = decode_struct [''Duration''] (\<lambda>f v d. decode_int d v)"

definition action_field :: "string \<Rightarrow> json \<Rightarrow> ActionConfig \<Rightarrow> ActionConfig option" where
  "action_field f v a =
     (if f = ''Type'' then map_option (\<lambda>s. a\<lparr>ac_Type := s\<rparr>) (decode_string (ac_Type a) v)
      else if f = ''URL'' then map_option (\<lambda>s. a\<lparr>ac_URL := s\<rparr>) (decode_string (ac_URL a) v)
      else if f = ''Method'' then map_option (\<lambda>s. a\<lparr>ac_Method := s\<rparr>) (decode_string (ac_Method a) v)
      else if f = ''Headers'' then map_option (\<lambda>m. a\<lparr>ac_Headers := m\<rparr>) (decode_gomap (ac_Headers a) v)
      else if f = ''Body'' then map_option (\<lambda>s. a\<lparr>ac_Body := s\<rparr>) (decode_string (ac_Body a) v)
      else if f = ''URLAllowlist'' then map_option (\<lambda>l. a\<lparr>ac_URLAllowlist := l\<rparr>) (decode_list decode_string [] v)
      else if f = ''AllowPrivate'' then map_option (\<lambda>b. a\<lparr>ac_AllowPrivate := b\<rparr>) (decode_bool (ac_AllowPrivate a) v)
      else if f = ''Command'' then map_option (\<lambda>s. a\<lparr>ac_Command := s\<rparr>) (decode_string (ac_Command a) v)
      else if f = ''Args'' then map_option (\<lambda>l. a\<lparr>ac_Args := l\<rparr>) (decode_list decode_string [] v)
      else map_option (\<lambda>t. a\<lparr>ac_Timeout := t\<rparr>) (decode_duration (ac_Timeout a) v))"

definition decode_action :: "ActionConfig \<Rightarrow> json \<Rightarrow> ActionConfig option" where
  "decode_action = decode_struct [''Type'', ''URL'', ''Method'', ''Headers'', ''Body'', ''URLAllowlist'', ''AllowPrivate'', ''Command'',
     ''Args'', ''Timeout''] action_field"

definition zero_policy :: LogPolicyConfig where
  "zero_policy = \<lparr>lp_Mode = [], lp_Field = [], lp_Services = [], lp_OnReject = []\<rparr>"

definition policy_field :: "string \<Rightarrow> json \<Rightarrow> LogPolicyConfig \<Rightarrow> LogPolicyConfig option" where
  "policy_field f v lp =
     (if f = ''Mode'' then map_option (\<lambda>s. lp\<lparr>lp_Mode := s\<rparr>) (decode_string (lp_Mode lp) v)
      else if f = ''Field'' then map_option (\<lambda>s. lp\<lparr>lp_Field := s\<rparr>) (decode_string (lp_Field lp) v)
      else if f = ''Services'' then map_option (\<lambda>l. lp\<lparr>lp_Services := l\<rparr>) (decode_list decode_string [] v)
      else map_option (\<lambda>s. lp\<lparr>lp_OnReject := s\<rparr>) (decode_string (lp_OnReject lp) v))"

definition decode_policy :: "LogPolicyConfig \<Rightarrow> json \<Rightarrow> LogPolicyConfig option" where
  "decode_policy = decode_struct [''Mode'', ''Field'', ''Services'', ''OnReject''] policy_field"

definition zero_redaction :: RedactionConfig where
  "zero_redaction = \<lparr>rd_Patterns = [], rd_Compiled = []\<rparr>"

definition decode_redaction :: "RedactionConfig \<Rightarrow> json \<Rightarrow> RedactionConfig option" where
  "decode_redaction = decode_struct [''patterns'']
     (\<lambda>f v r. map_option (\<lambda>l. r\<lparr>rd_Patterns := l\<rparr>) (decode_list decode_string [] v))"

definition zero_snapshot :: SourceSnapshot where
  "zero_snapshot = \<lparr>sn_Name = [], sn_Extract = [], sn_Rules = [], sn_Actions = [], sn_LogPolicy = None, sn_Redaction = None\<rparr>"

definition snapshot_field :: "string \<Rightarrow> json \<Rightarrow> SourceSnapshot \<Rightarrow> SourceSnapshot option" where
  "snapshot_field f v s =
     (if f = ''name'' then map_option (\<lambda>t. s\<lparr>sn_Name := t\<rparr>) (decode_string (sn_Name s) v)
      else if f = ''extract'' then map_option (\<lambda>m. s\<lparr>sn_Extract := m\<rparr>) (decode_gomap (sn_Extract s) v)
      else if f = ''rules'' then map_option (\<lambda>l. s\<lparr>sn_Rules := l\<rparr>) (decode_list decode_rule zero_rule v)
      else if f = ''actions'' then map_option (\<lambda>l. s\<lparr>sn_Actions := l\<rparr>) (decode_list decode_action zero_action v)
      else if f = ''log_policy'' then map_option (\<lambda>lp. s\<lparr>sn_LogPolicy := lp\<rparr>) (decode_pointer decode_policy zero_policy (sn_LogPolicy s) v)
      else map_option (\<lambda>r. s\<lparr>sn_Redaction := r\<rparr>) (decode_pointer decode_redaction zero_redaction (sn_Redaction s) v))"

definition unmarshalSnapshot :: "string \<Rightarrow> SourceSnapshot option" where
  "unmarshalSnapshot = Unmarshal (decode_struct [''name'', ''extract'', ''rules'', ''actions'', ''log_policy'', ''redaction''] snapshot_field) zero_snapshot"

section \<open>The round trip\<close>

lemma takeWhile_digits: "list_all is_digit ds \<Longrightarrow> takeWhile is_digit ds = ds \<and> dropWhile is_digit ds = []"
  by (auto simp: list_all_iff takeWhile_eq_all_conv dropWhile_eq_Nil_conv)

lemma parse_decimal: "0 \<le> n \<Longrightarrow> int_part (decimal n) = Some (decimal n, [])"
proof -
  assume n: "0 \<le> n"
  consider "n = 0" | "0 < n" using n by linarith
  then show ?thesis
  proof cases
    case 1
    then have "decimal n = ''0''" by (simp add: decimal.simps digit_def)
    then show ?thesis by (simp add: int_part_def HasPrefix_def)
  next
    case 2
    from decimal_hd [OF 2] obtain c cs where c: "decimal n = c # cs" "c \<noteq> CHR ''0''" by (cases "decimal n") auto
    with takeWhile_digits [OF decimal_digits [OF n]] show ?thesis by (simp add: int_part_def HasPrefix_one digits_of_def)
  qed
qed

lemma parse_Itoa: "parse_number (Itoa n) = Some (Itoa n, [])"
proof (cases "n < 0")
  case True
  have "\<not> HasPrefix (CHR ''-'' # s) ''0''" for s by (simp add: HasPrefix_one)
  with True parse_decimal [of "- n"] show ?thesis
    by (simp add: Itoa_def parse_number_def frac_part_def exp_part_def HasPrefix_one)
next
  case False
  then have n: "0 \<le> n" by simp
  obtain c cs where c: "decimal n = c # cs" by (cases "decimal n") (use parse_decimal [OF n] in \<open>auto simp: int_part_def HasPrefix_one digits_of_def\<close>)
  then have "is_digit c" using decimal_digits [OF n] by simp
  moreover have "is_digit c \<longrightarrow> c \<noteq> CHR ''-''" by (rule all_chars) code_simp
  ultimately have "\<not> HasPrefix (decimal n) ''-''" by (simp add: c HasPrefix_one)
  with False parse_decimal [OF n] show ?thesis
    by (simp add: Itoa_def parse_number_def frac_part_def exp_part_def HasPrefix_one)
qed

lemma int_literal_Itoa: "- (2 ^ 63) \<le> n \<Longrightarrow> n < 2 ^ 63 \<Longrightarrow> int_literal (Itoa n) = Some n"
proof (cases "n < 0")
  case True
  assume r: "- (2 ^ 63) \<le> n" "n < 2 ^ 63"
  have "decimal (- n) \<noteq> []" "list_all is_digit (decimal (- n))" using True decimal_hd [of "- n"] decimal_digits [of "- n"] by auto
  with True r show ?thesis by (simp add: Itoa_def int_literal_def HasPrefix_one undigits_decimal Let_def)
next
  case False
  assume r: "- (2 ^ 63) \<le> n" "n < 2 ^ 63"
  then have n: "0 \<le> n" using False by simp
  have d: "list_all is_digit (decimal n)" using decimal_digits [OF n] by simp
  obtain c cs where c: "decimal n = c # cs" by (cases "decimal n") (use parse_decimal [OF n] in \<open>auto simp: int_part_def HasPrefix_one digits_of_def\<close>)
  have "is_digit c \<longrightarrow> c \<noteq> CHR ''-''" by (rule all_chars) code_simp
  with d c have "\<not> HasPrefix (decimal n) ''-''" by (simp add: HasPrefix_one)
  with False r d c undigits_decimal [OF n] show ?thesis by (simp add: Itoa_def int_literal_def Let_def)
qed

text \<open>What a plan must satisfy to survive: UTF-8 throughout, distinct keys, a timeout that is an \<open>int64\<close>.\<close>

definition utf8_map :: "gomap \<Rightarrow> bool" where
  "utf8_map m \<longleftrightarrow> distinct (map fst m) \<and> list_all (\<lambda>(k, v). valid_utf8 k \<and> valid_utf8 v) m"

definition utf8_rule :: "Rule \<Rightarrow> bool" where
  "utf8_rule r \<longleftrightarrow> valid_utf8 (ru_Var r) \<and> valid_utf8 (ru_Regex r)"

definition utf8_action :: "ActionConfig \<Rightarrow> bool" where
  "utf8_action a \<longleftrightarrow> list_all valid_utf8 [ac_Type a, ac_URL a, ac_Method a, ac_Body a, ac_Command a] \<and> utf8_map (ac_Headers a) \<and>
     list_all valid_utf8 (ac_URLAllowlist a) \<and> list_all valid_utf8 (ac_Args a) \<and> - (2 ^ 63) \<le> ac_Timeout a \<and> ac_Timeout a < 2 ^ 63"

definition utf8_policy :: "LogPolicyConfig \<Rightarrow> bool" where
  "utf8_policy lp \<longleftrightarrow> list_all valid_utf8 [lp_Mode lp, lp_Field lp, lp_OnReject lp] \<and> list_all valid_utf8 (lp_Services lp)"

definition utf8_plan :: "SourceSnapshot \<Rightarrow> bool" where
  "utf8_plan s \<longleftrightarrow> valid_utf8 (sn_Name s) \<and> utf8_map (sn_Extract s) \<and> list_all utf8_rule (sn_Rules s) \<and>
     list_all utf8_action (sn_Actions s) \<and> (\<forall>lp. sn_LogPolicy s = Some lp \<longrightarrow> utf8_policy lp) \<and>
     (\<forall>r. sn_Redaction s = Some r \<longrightarrow> list_all valid_utf8 (rd_Patterns r))"

text \<open>The plan as it is read back: the maps list their keys in order, the patterns are not compiled.\<close>

definition stored_action :: "ActionConfig \<Rightarrow> ActionConfig" where
  "stored_action a = a\<lparr>ac_Headers := sort_key fst (ac_Headers a)\<rparr>"

definition stored_plan :: "SourceSnapshot \<Rightarrow> SourceSnapshot" where
  "stored_plan s = s\<lparr>sn_Extract := sort_key fst (sn_Extract s), sn_Actions := map stored_action (sn_Actions s),
     sn_Redaction := map_option (rd_Compiled_update (\<lambda>_. [])) (sn_Redaction s)\<rparr>"

lemma decode_strings: "decode_list decode_string [] (json_list JString xs) = Some xs"
proof -
  have "all_some (map (decode_string []) (map JString ys)) = Some ys" for ys by (induction ys) auto
  then show ?thesis by (simp add: json_list_def)
qed

lemma decode_json_list:
  assumes "\<And>x. x \<in> set xs \<Longrightarrow> dec zero (f x) = Some (g x)"
  shows "decode_list dec zero (json_list f xs) = Some (map g xs)"
proof -
  have "(\<And>x. x \<in> set ys \<Longrightarrow> dec zero (f x) = Some (g x)) \<Longrightarrow> all_some (map (dec zero) (map f ys)) = Some (map g ys)" for ys
    by (induction ys) auto
  with assms show ?thesis by (auto simp: json_list_def)
qed

lemma decode_json_map: "utf8_map m \<Longrightarrow> decode_gomap [] (json_map m) = Some (sort_key fst m)"
proof -
  assume "utf8_map m"
  then have "distinct (map fst ([] @ sort_key fst m))" by (simp add: utf8_map_def distinct_map)
  from decode_entries_fresh [OF this] show ?thesis by (simp add: decode_gomap_def json_map_def json_entries_def)
qed

lemma decode_json_rule: "decode_rule zero_rule (json_rule r) = Some r"
  by (simp add: decode_rule_def json_rule_def struct_field_exact rule_field_def zero_rule_def)

lemma decode_json_action: "utf8_action a \<Longrightarrow> decode_action zero_action (json_action a) = Some (stored_action a)"
  by (simp add: decode_action_def json_action_def struct_field_exact action_field_def zero_action_def utf8_action_def
      decode_strings decode_json_map decode_duration_def int_literal_Itoa stored_action_def)

lemma decode_json_policy: "decode_policy zero_policy (json_policy lp) = Some lp"
  by (simp add: decode_policy_def json_policy_def struct_field_exact policy_field_def zero_policy_def decode_strings)

lemma decode_json_redaction: "decode_redaction zero_redaction (json_redaction r) = Some (r\<lparr>rd_Compiled := []\<rparr>)"
  by (simp add: decode_redaction_def json_redaction_def struct_field_exact zero_redaction_def decode_strings)

lemma decode_json_snapshot:
  assumes "utf8_plan s"
  shows "decode_struct [''name'', ''extract'', ''rules'', ''actions'', ''log_policy'', ''redaction''] snapshot_field zero_snapshot (json_snapshot s) =
    Some (stored_plan s)"
proof -
  let ?names = "[''name'', ''extract'', ''rules'', ''actions'', ''log_policy'', ''redaction'']"
  have act: "decode_list decode_action zero_action (json_list json_action (sn_Actions s)) = Some (map stored_action (sn_Actions s))"
    using assms by (intro decode_json_list decode_json_action) (simp add: utf8_plan_def list_all_iff)
  have rules: "decode_list decode_rule zero_rule (json_list json_rule (sn_Rules s)) = Some (sn_Rules s)"
    using decode_json_list [of "sn_Rules s" decode_rule zero_rule json_rule id] decode_json_rule by simp
  have ext: "decode_gomap [] (json_map (sn_Extract s)) = Some (sort_key fst (sn_Extract s))"
    using assms by (simp add: utf8_plan_def decode_json_map)
  have obj: "\<exists>kvs. json_policy lp = JObject kvs" "\<exists>kvs. json_redaction r = JObject kvs" for lp r
    by (auto simp: json_policy_def json_redaction_def)
  have pol: "decode_pointer decode_policy zero_policy None (json_policy lp) = Some (Some lp)" for lp
    using decode_json_policy [of lp] obj(1) [of lp] by auto
  have red: "decode_pointer decode_redaction zero_redaction None (json_redaction r) = Some (Some (r\<lparr>rd_Compiled := []\<rparr>))" for r
    using decode_json_redaction [of r] obj(2) [of r] by auto
  note facts = struct_field_exact snapshot_field_def zero_snapshot_def act rules ext pol red
  have names: "set ?names = {''name'', ''extract'', ''rules'', ''actions'', ''log_policy'', ''redaction''}" by simp
  show ?thesis
    by (cases "sn_LogPolicy s"; cases "sn_Redaction s"; cases "sn_Extract s = []"; cases "sn_Rules s = []")
      (simp_all add: json_snapshot_def facts stored_plan_def)
qed

lemma json_ok_strings: "json_ok 0 (json_list JString xs)" "json_ok d (JString x)"
  by (auto simp: json_list_def maxNestingDepth_def)

lemma json_ok_deeper: "d < 100 \<Longrightarrow> json_ok d (json_list JString xs) \<and> json_ok d (json_map m)"
  by (auto simp: json_list_def json_map_def json_entries_def maxNestingDepth_def)

lemma json_ok_snapshot: "json_ok 0 (json_snapshot s)"
proof -
  have act: "json_ok d (json_action a)" if "d < 50" for d a
    using that json_ok_deeper [of "d + 1"] by (auto simp: json_action_def maxNestingDepth_def parse_Itoa)
  have rule: "json_ok d (json_rule r)" if "d < 50" for d r
    using that by (auto simp: json_rule_def maxNestingDepth_def)
  have acts: "json_ok d (json_list json_action as)" "json_ok d (json_list json_rule rs)" if "d < 40" for d as rs
    using that act [of "d + 1"] rule [of "d + 1"] by (auto simp: json_list_def maxNestingDepth_def)
  have pol: "json_ok d (json_policy lp)" "json_ok d (json_redaction r)" if "d < 50" for d lp r
    using that json_ok_deeper [of "d + 1"] by (auto simp: json_policy_def json_redaction_def maxNestingDepth_def)
  show ?thesis
    using acts [of 1] pol [of 1] json_ok_deeper [of 1]
    by (auto simp: json_snapshot_def maxNestingDepth_def split: option.splits)
qed

lemma json_utf8_strings: "json_utf8 (json_list JString xs) \<longleftrightarrow> list_all valid_utf8 xs"
  by (auto simp: json_list_def list_all_iff)

lemma json_utf8_map: "utf8_map m \<Longrightarrow> json_utf8 (json_map m)"
  by (auto simp: json_map_def json_entries_def utf8_map_def list_all_iff)

lemma valid_ascii: "list_all ascii s \<Longrightarrow> valid_utf8 s"
proof (induction s)
  case (Cons c cs)
  then have "rune_width (c # cs) = Some 1" by (simp add: rune_width_def)
  with Cons show ?case by (simp add: valid_simps(2))
qed (simp add: valid_simps)

lemma json_utf8_list: "(\<And>x. x \<in> set xs \<Longrightarrow> json_utf8 (f x)) \<Longrightarrow> json_utf8 (json_list f xs)"
  by (simp add: json_list_def)

definition plan_names :: "string list" where
  "plan_names = [''name'', ''extract'', ''rules'', ''actions'', ''log_policy'', ''redaction'', ''patterns'', ''Var'', ''Regex'', ''Mode'',
     ''Field'', ''Services'', ''OnReject'', ''Type'', ''URL'', ''Method'', ''Headers'', ''Body'', ''URLAllowlist'', ''AllowPrivate'',
     ''Command'', ''Args'', ''Timeout'', ''Duration'']"

lemma plan_names_valid: "list_all valid_utf8 plan_names"
proof -
  have "list_all (list_all ascii) plan_names" by code_simp
  then show ?thesis by (simp add: list_all_iff valid_ascii)
qed

lemma json_utf8_snapshot:
  assumes "utf8_plan s"
  shows "json_utf8 (json_snapshot s)"
proof -
  note names = plan_names_valid [unfolded plan_names_def list.pred_inject]
  have act: "json_utf8 (json_action a)" if "utf8_action a" for a
    using that names by (simp add: json_action_def utf8_action_def json_utf8_strings json_utf8_map)
  have rule: "json_utf8 (json_rule r)" if "utf8_rule r" for r
    using that names by (simp add: json_rule_def utf8_rule_def)
  have pol: "json_utf8 (json_policy lp)" if "utf8_policy lp" for lp
    using that names by (simp add: json_policy_def utf8_policy_def json_utf8_strings)
  have red: "json_utf8 (json_redaction r)" if "list_all valid_utf8 (rd_Patterns r)" for r
    using that names by (simp add: json_redaction_def json_utf8_strings)
  have lists: "json_utf8 (json_list json_action (sn_Actions s))" "json_utf8 (json_list json_rule (sn_Rules s))"
    using assms act rule by (auto simp: utf8_plan_def list_all_iff intro!: json_utf8_list)
  show ?thesis
    using assms names lists pol red
    by (cases "sn_LogPolicy s"; cases "sn_Redaction s") (auto simp: json_snapshot_def utf8_plan_def json_utf8_map)
qed

lemma snapshot_roundtrip:
  assumes "utf8_plan s"
  shows "\<exists>raw. marshalSnapshot s = Some raw \<and> raw \<noteq> [] \<and> unmarshalSnapshot raw = Some (stored_plan s)"
proof -
  have "parse_json (print_json (json_snapshot s)) = Some (json_snapshot s)"
    using assms by (intro parse_print_utf8 json_ok_snapshot json_utf8_snapshot)
  then have "unmarshalSnapshot (print_json (json_snapshot s)) = Some (stored_plan s)"
    using decode_json_snapshot [OF assms] by (simp add: unmarshalSnapshot_def Unmarshal_def)
  moreover have "print_json (json_snapshot s) \<noteq> []" by (simp add: json_snapshot_def)
  ultimately show ?thesis by (simp add: marshalSnapshot_def)
qed

end
