(* ===== verification/Go_Duration.thy ===== *)
theory Go_Duration
  imports Prelude Float64
begin

text \<open>
  Go's \<^verbatim>\<open>time.ParseDuration\<close>, with its 64-bit overflow checks and the \<open>float64\<close> arithmetic of fractions.
\<close>

definition duration_units :: "(string \<times> int) list" where
  "duration_units =
     [(''ns'', 1), (''us'', 1000), ([CHR 0xC2, CHR 0xB5, CHR ''s''], 1000), ([CHR 0xCE, CHR 0xBC, CHR ''s''], 1000),
      (''ms'', Millisecond), (''s'', Second), (''m'', Minute), (''h'', Hour)]"

text \<open>\<open>leadingInt\<close>: the digits at the start, an error above \<open>2^63\<close>.\<close>

fun leading_digits :: "int \<Rightarrow> string \<Rightarrow> (int \<times> string) option" where
  "leading_digits x [] = Some (x, [])"
| "leading_digits x (c # cs) =
     (if \<not> is_digit c then Some (x, c # cs)
      else if x > 2 ^ 63 div 10 then None
      else (let y = x * 10 + (of_char c - 48) in if y > 2 ^ 63 then None else leading_digits y cs))"

text \<open>\<open>leadingFraction\<close>: the digits after the point and their scale; digits that no longer fit are dropped.\<close>

fun leading_fraction :: "int \<Rightarrow> int \<Rightarrow> bool \<Rightarrow> string \<Rightarrow> int \<times> int \<times> string" where
  "leading_fraction x scale overflow [] = (x, scale, [])"
| "leading_fraction x scale overflow (c # cs) =
     (if \<not> is_digit c then (x, scale, c # cs)
      else if overflow \<or> x > (2 ^ 63 - 1) div 10 \<or> x * 10 + (of_char c - 48) > 2 ^ 63 then leading_fraction x scale True cs
      else leading_fraction (x * 10 + (of_char c - 48)) (scale * 10) False cs)"

text \<open>One number with its unit: the nanoseconds and the rest of the text.\<close>

definition duration_part :: "string \<Rightarrow> (int \<times> string) option" where
  "duration_part s =
     (case leading_digits 0 s of
        None \<Rightarrow> None
      | Some (v, s1) \<Rightarrow>
          (let point = HasPrefix s1 ''.'';
               (f, scale, s2) = (if point then leading_fraction 0 1 False (drop 1 s1) else (0, 1, s1));
               pre = length s \<noteq> length s1; post = point \<and> length s2 \<noteq> length (drop 1 s1);
               u = takeWhile (\<lambda>c. c \<noteq> CHR ''.'' \<and> \<not> is_digit c) s2
           in if \<not> pre \<and> \<not> post then None
              else case map_of duration_units u of
                None \<Rightarrow> None
              | Some unit \<Rightarrow>
                  if v > 2 ^ 63 div unit then None
                  else let w = v * unit + (if f > 0 then \<lfloor>f64 (f64 (of_int f) * f64 (of_int unit / of_int scale))\<rfloor> else 0)
                       in if w > 2 ^ 63 then None else Some (w, drop (length u) s2)))"

text \<open>Every part consumes something, so the length of the text is enough for the number of parts.\<close>

fun duration_parts :: "nat \<Rightarrow> int \<Rightarrow> string \<Rightarrow> int option" where
  "duration_parts n d [] = Some d"
| "duration_parts 0 d (c # cs) = None"
| "duration_parts (Suc n) d (c # cs) =
     (if c \<noteq> CHR ''.'' \<and> \<not> is_digit c then None
      else case duration_part (c # cs) of
        None \<Rightarrow> None
      | Some (w, rest) \<Rightarrow> if d + w > 2 ^ 63 then None else duration_parts n (d + w) rest)"

definition ParseDuration :: "string \<Rightarrow> duration option" where
  "ParseDuration s0 =
     (let neg = HasPrefix s0 ''-''; s = (if neg \<or> HasPrefix s0 ''+'' then drop 1 s0 else s0) in
      if s = ''0'' then Some 0
      else if s = [] then None
      else case duration_parts (length s) 0 s of
        None \<Rightarrow> None
      | Some d \<Rightarrow> if neg then Some (- d) else if d > 2 ^ 63 - 1 then None else Some d)"

lemma parse_duration_examples:
  "map ParseDuration [''300s'', ''-1.5h'', ''1h15m30.918s'', ''2h'', ''9223372036854775808ns'', ''1'', [], ''1.s'', ''.s'', ''1d''] =
     [Some (300 * Second), Some (- (90 * Minute)), Some (4530918 * Millisecond), Some (2 * Hour), None, None, None, Some Second, None, None]"
  by code_simp

end
