(* ===== verification/Config.thy ===== *)
theory Config
  imports Plan_Json Go_Duration
begin

text \<open>
  The gateway's configuration (\<^verbatim>\<open>internal/config\<close>): the defaults, the validation and the durable source
  snapshots. \<open>Config_Data\<close> has the records, \<open>Plan_Json\<close> the JSON of a plan. The decoding of the YAML file
  is outside the model, except for the durations: \<open>Load\<close> starts from the decoded records.
\<close>

section \<open>Durations\<close>

text \<open>A duration in the file is a string; an empty one leaves the field as it is, an invalid one is an error.\<close>

definition UnmarshalYAML :: "string \<Rightarrow> duration \<Rightarrow> duration option" where
  "UnmarshalYAML value d = (if value = [] then Some d else ParseDuration value)"

section \<open>Constants\<close>

definition minSecretLen :: nat where "minSecretLen = 16"
definition maxWorkers :: int where "maxWorkers = 64"
definition maxBuffer :: int where "maxBuffer = 10000"
definition maxRetriesBound :: int where "maxRetriesBound = 20"
definition maxActionTimeout :: duration where "maxActionTimeout = 15 * Minute"
definition defaultMaxRetries :: int where "defaultMaxRetries = 2"

datatype source_err =
  SourceEmptyName | SourceInvalidName | SourceDuplicate | AuthTypeRequired | AuthTypeUnknown
| SecretRequired | SecretTooShort | SignedUnknown string | SignedDuplicate string | SignedRequiresHMAC
| SignedOrder | RuleEmptyVar | RuleEmptyRegex | RuleInvalidRegex string | PolicyMode | PolicyNoServices
| PolicyEmptyService | PolicyOnReject | RedactionEmpty nat | RedactionInvalid nat | NoActions
| ActionEmptyType | ActionNoURL | ActionMethod string | ActionNoCommand | ActionTimeoutNegative
| ActionTimeoutTooLong | ActionUnknownType string | ActionMissingSecret string

datatype heartbeat_err =
  HbInterval | HbTimeout | HbTimeoutOverInterval | HbHost | HbHostControl | HbTooManyTargets
| HbTargetNoName | HbTargetName | HbTargetDuplicate | HbTargetURL | HbTargetURLShape | HbTargetScheme
| HbTargetUser | HbTargetMode

datatype config_err =
  ErrBurst string | ErrPerSecond string | ErrAdminToken | ErrAdminHeader | ErrTrustedProxy string
| ErrMaxInFlight | ErrMaxInFlightBytes | ErrWorkers | ErrBuffer | ErrMaxRetries | ErrRetryBase
| ErrMaxRetryDelay | ErrMaxRetryAge | ErrHeartbeat heartbeat_err | ErrSource string source_err

section \<open>Rate limits\<close>

definition limit_default :: "int \<Rightarrow> rat \<Rightarrow> RateLimitConfig \<Rightarrow> RateLimitConfig" where
  "limit_default burst rate f =
     (let f1 = (if rl_Burst f = 0 then f\<lparr>rl_Burst := burst\<rparr> else f)
      in if rl_PerSecond f1 = Finite 0 then f1\<lparr>rl_PerSecond := Finite rate\<rparr> else f1)"

definition WithDefaults :: "RateLimitsConfig \<Rightarrow> RateLimitsConfig" where
  "WithDefaults c = c\<lparr>
     rls_PreAuthPerIP := limit_default 120 20 (rls_PreAuthPerIP c),
     rls_Global := limit_default 120 2 (rls_Global c),
     rls_SourcePerIP := limit_default 30 (1 / 2) (rls_SourcePerIP c),
     rls_AdminPerIP := limit_default 60 1 (rls_AdminPerIP c)\<rparr>"

text \<open>The literal 0.01 of the code is the nearest \<open>float64\<close>.\<close>

definition f64_min_rate :: rat where
  "f64_min_rate = Fract 5764607523034235 576460752303423488"

definition rate_invalid :: "float64 \<Rightarrow> bool" where
  "rate_invalid r = (case r of Finite q \<Rightarrow> q < f64_min_rate \<or> q > 100000 | _ \<Rightarrow> True)"

definition validate_limits :: "RateLimitsConfig \<Rightarrow> config_err option" where
  "validate_limits c = first_err (concat (map
     (\<lambda>(name, v). [(rl_Burst v < 1 \<or> rl_Burst v > 100000, ErrBurst name),
                   (rate_invalid (rl_PerSecond v), ErrPerSecond name)])
     [(''pre_auth_per_ip'', rls_PreAuthPerIP c), (''global'', rls_Global c),
      (''source_per_ip'', rls_SourcePerIP c), (''admin_per_ip'', rls_AdminPerIP c)]))"

section \<open>Defaults\<close>

definition positive_or :: "int \<Rightarrow> int \<Rightarrow> int" where
  "positive_or v dflt = (if v \<le> 0 then dflt else v)"

definition nonempty_or :: "string \<Rightarrow> string \<Rightarrow> string" where
  "nonempty_or s dflt = (if s = [] then dflt else s)"

definition applyDefaults :: "Config \<Rightarrow> Config" where
  "applyDefaults c = c\<lparr>
     cf_Server := (cf_Server c)\<lparr>
       sv_RateLimit := WithDefaults (sv_RateLimit (cf_Server c)),
       sv_Addr := nonempty_or (sv_Addr (cf_Server c)) '':8080'',
       sv_MaxInFlight := positive_or (sv_MaxInFlight (cf_Server c)) 16,
       sv_MaxInFlightBytes := positive_or (sv_MaxInFlightBytes (cf_Server c)) (32 * 2 ^ 20)\<rparr>,
     cf_Admin := (cf_Admin c)\<lparr>ad_Header := nonempty_or (ad_Header (cf_Admin c)) ''Authorization''\<rparr>,
     cf_LogLevel := nonempty_or (cf_LogLevel c) ''info'',
     cf_Store := (cf_Store c)\<lparr>
       sc_Path := nonempty_or (sc_Path (cf_Store c)) ''data/webhook.db'',
       sc_Retention := positive_or (sc_Retention (cf_Store c)) (30 * 24 * Hour),
       sc_RetainPayload := (case sc_RetainPayload (cf_Store c) of None \<Rightarrow> Some False | Some v \<Rightarrow> Some v)\<rparr>,
     cf_Queue := (cf_Queue c)\<lparr>
       qc_Workers := positive_or (qc_Workers (cf_Queue c)) 4,
       qc_Buffer := positive_or (qc_Buffer (cf_Queue c)) 256,
       qc_RetryBase := positive_or (qc_RetryBase (cf_Queue c)) Second,
       qc_MaxRetryDelay := positive_or (qc_MaxRetryDelay (cf_Queue c)) (15 * Minute),
       qc_MaxRetryAge := positive_or (qc_MaxRetryAge (cf_Queue c)) (24 * Hour)\<rparr>,
     cf_Heartbeat := (cf_Heartbeat c)\<lparr>
       hc_Interval := positive_or (hc_Interval (cf_Heartbeat c)) (60 * Second),
       hc_Timeout := positive_or (hc_Timeout (cf_Heartbeat c)) (10 * Second),
       hc_Host := nonempty_or (hc_Host (cf_Heartbeat c)) ''general-webhook'',
       hc_Targets := map (\<lambda>t. if TrimSpace (ht_Mode t) = [] then t\<lparr>ht_Mode := ''kuma''\<rparr> else t)
                       (hc_Targets (cf_Heartbeat c))\<rparr>\<rparr>"

section \<open>Validation\<close>

definition name_char :: "char \<Rightarrow> bool" where
  "name_char r \<longleftrightarrow> (let n = of_char r :: int in
     (97 \<le> n \<and> n \<le> 122) \<or> (65 \<le> n \<and> n \<le> 90) \<or> (48 \<le> n \<and> n \<le> 57) \<or> r = CHR ''_'' \<or> r = CHR ''-'')"

definition validSourceName :: "string \<Rightarrow> bool" where
  "validSourceName name \<longleftrightarrow> \<not> (length name = 0 \<or> length name > 64) \<and> list_all name_char name"

definition normal_header :: "string \<Rightarrow> string" where
  "normal_header h = ToLower (TrimSpace h)"

definition signed_fields :: "string list" where
  "signed_fields = [''timestamp'', ''delivery_id'', ''body'']"

fun validate_signed :: "string list \<Rightarrow> string list \<Rightarrow> source_err option" where
  "validate_signed signedSeen [] = None"
| "validate_signed signedSeen (raw # hs) =
     (let h = normal_header raw in
      if h \<notin> set signed_fields then Some (SignedUnknown h)
      else if h \<in> set signedSeen then Some (SignedDuplicate h)
      else validate_signed (h # signedSeen) hs)"

definition validate_auth :: "AuthConfig \<Rightarrow> source_err option" where
  "validate_auth a =
     (case first_err
        [(au_Type a = [], AuthTypeRequired),
         (au_Type a \<notin> {''hmac'', ''token'', ''none''}, AuthTypeUnknown),
         (au_Type a \<in> {''hmac'', ''token''} \<and> au_Secret a = [], SecretRequired),
         (au_Type a \<in> {''hmac'', ''token''} \<and> length (au_Secret a) < minSecretLen, SecretTooShort)] of
        Some e \<Rightarrow> Some e
      | None \<Rightarrow>
          (case validate_signed [] (au_SignedHeaders a) of
             Some e \<Rightarrow> Some e
           | None \<Rightarrow> if au_SignedHeaders a = [] then None
                     else first_err
                       [(au_Type a \<noteq> ''hmac'', SignedRequiresHMAC),
                        (length (au_SignedHeaders a) \<noteq> length signed_fields, SignedOrder),
                        (map normal_header (au_SignedHeaders a) \<noteq> signed_fields, SignedOrder)]))"

fun validate_rules :: "golib \<Rightarrow> Rule list \<Rightarrow> source_err option" where
  "validate_rules L [] = None"
| "validate_rules L (r # rs) =
     (if ru_Var r = [] then Some RuleEmptyVar
      else if ru_Regex r = [] then Some RuleEmptyRegex
      else if reCompile L (ru_Regex r) = None then Some (RuleInvalidRegex (ru_Regex r))
      else validate_rules L rs)"

definition policy_defaults :: "LogPolicyConfig \<Rightarrow> LogPolicyConfig" where
  "policy_defaults lp = lp\<lparr>lp_OnReject := nonempty_or (lp_OnReject lp) ''drop_and_count'',
     lp_Field := nonempty_or (lp_Field lp) ''service''\<rparr>"

definition validate_policy :: "LogPolicyConfig \<Rightarrow> source_err + LogPolicyConfig" where
  "validate_policy lp =
     (case first_err
        [(lp_Mode lp \<noteq> ''allowlist'', PolicyMode),
         (lp_Services lp = [], PolicyNoServices),
         (list_ex (\<lambda>svc. TrimSpace svc = []) (lp_Services lp), PolicyEmptyService),
         (lp_OnReject lp \<noteq> [] \<and> lp_OnReject lp \<noteq> ''drop_and_count'', PolicyOnReject)] of
        Some e \<Rightarrow> Inl e
      | None \<Rightarrow> Inr (policy_defaults lp))"

fun compile_patterns :: "golib \<Rightarrow> nat \<Rightarrow> string list \<Rightarrow> source_err + regexp list" where
  "compile_patterns L i [] = Inr []"
| "compile_patterns L i (p # ps) =
     (if TrimSpace p = [] then Inl (RedactionEmpty i)
      else case reCompile L p of
        None \<Rightarrow> Inl (RedactionInvalid i)
      | Some re \<Rightarrow> bindE (compile_patterns L (i + 1) ps) (\<lambda>res. Inr (re # res)))"

definition compileRedaction :: "golib \<Rightarrow> RedactionConfig option \<Rightarrow> source_err + RedactionConfig option" where
  "compileRedaction L r =
     (case r of
        None \<Rightarrow> Inr None
      | Some rd \<Rightarrow> bindE (compile_patterns L 0 (rd_Patterns rd)) (\<lambda>res. Inr (Some (rd\<lparr>rd_Compiled := res\<rparr>))))"

definition actionStrings :: "ActionConfig \<Rightarrow> string list" where
  "actionStrings action =
     [ac_URL action, ac_Command action, ac_Body action] @ ac_Args action @
     concat (map (\<lambda>(key, value). [key, value]) (ac_Headers action))"

definition secret_refs :: "ActionConfig \<Rightarrow> string list" where
  "secret_refs a = concat (map (FindAllStringSubmatch explicitSecretRefRe) (actionStrings a))"

definition validate_action :: "golib \<Rightarrow> ActionConfig \<Rightarrow> source_err option" where
  "validate_action L a =
     first_err
       ([(ac_Type a = [], ActionEmptyType),
         (ac_Type a = ''http'' \<and> ac_URL a = [], ActionNoURL),
         (ac_Type a = ''http'' \<and>
            ToUpper (ac_Method a) \<notin> {[], ''GET'', ''POST'', ''PUT'', ''PATCH'', ''DELETE''}, ActionMethod (ac_Method a)),
         (ac_Type a = ''exec'' \<and> ac_Command a = [], ActionNoCommand),
         (ac_Type a = ''exec'' \<and> ac_Timeout a < 0, ActionTimeoutNegative),
         (ac_Type a = ''exec'' \<and> ac_Timeout a > maxActionTimeout, ActionTimeoutTooLong),
         (ac_Type a \<notin> {''http'', ''exec''}, ActionUnknownType (ac_Type a))] @
        map (\<lambda>name. (lookupEnv L name = None \<or> lookupEnv L name = Some [], ActionMissingSecret name))
          (secret_refs a))"

fun validate_actions :: "golib \<Rightarrow> ActionConfig list \<Rightarrow> source_err option" where
  "validate_actions L [] = None"
| "validate_actions L (a # as) =
     (case validate_action L a of Some e \<Rightarrow> Some e | None \<Rightarrow> validate_actions L as)"

definition validate_source :: "golib \<Rightarrow> string list \<Rightarrow> Source \<Rightarrow> source_err + Source" where
  "validate_source L seen s =
     bindE (guardE (first_err
       [(src_Name s = [], SourceEmptyName),
        (\<not> validSourceName (src_Name s), SourceInvalidName),
        (src_Name s \<in> set seen, SourceDuplicate)])) (\<lambda>_.
     bindE (guardE (validate_auth (src_Auth s))) (\<lambda>_.
     bindE (guardE (validate_rules L (src_Rules s))) (\<lambda>_.
     bindE (case src_LogPolicy s of None \<Rightarrow> Inr None
              | Some lp \<Rightarrow> bindE (validate_policy lp) (\<lambda>lp'. Inr (Some lp'))) (\<lambda>lp.
     bindE (compileRedaction L (src_Redaction s)) (\<lambda>rd.
     bindE (guardE (if src_Actions s = [] then Some NoActions else validate_actions L (src_Actions s))) (\<lambda>_.
     Inr (s\<lparr>src_LogPolicy := lp, src_Redaction := rd\<rparr>)))))))"

fun validate_sources :: "golib \<Rightarrow> string list \<Rightarrow> Source list \<Rightarrow> config_err + Source list" where
  "validate_sources L seen [] = Inr []"
| "validate_sources L seen (s # ss) =
     (case validate_source L seen s of
        Inl e \<Rightarrow> Inl (ErrSource (src_Name s) e)
      | Inr s' \<Rightarrow> bindE (validate_sources L (src_Name s # seen) ss) (\<lambda>ss'. Inr (s' # ss')))"

definition control_char :: "char \<Rightarrow> bool" where
  "control_char c \<longleftrightarrow> (let n = of_char c :: int in n < 32 \<or> n = 127)"

definition target_url_err :: "HeartbeatTarget \<Rightarrow> heartbeat_err option" where
  "target_url_err t =
     (case url_Parse (ht_URL t) of
        None \<Rightarrow> Some HbTargetURL
      | Some u \<Rightarrow>
          let scheme = ToLower (u_Scheme u) in
          first_err
            [(u_Scheme u = [] \<or> u_Host u = [], HbTargetURL),
             (length (ht_URL t) > 4096 \<or> u_Fragment u \<noteq> [] \<or> u_Opaque u \<noteq> [], HbTargetURLShape),
             (scheme \<noteq> ''https'' \<and> \<not> (scheme = ''http'' \<and> ht_AllowHTTP t), HbTargetScheme),
             (u_HasUser u, HbTargetUser)])"

fun validate_targets :: "string list \<Rightarrow> HeartbeatTarget list \<Rightarrow> heartbeat_err option" where
  "validate_targets seen [] = None"
| "validate_targets seen (t # ts) =
     (if ht_Name t = [] then Some HbTargetNoName
      else if \<not> validSourceName (ht_Name t) then Some HbTargetName
      else if ht_Name t \<in> set seen then Some HbTargetDuplicate
      else case target_url_err t of
        Some e \<Rightarrow> Some e
      | None \<Rightarrow> if ht_Mode t \<notin> {''kuma'', ''healthchecks'', ''push'', ''json''} then Some HbTargetMode
                else validate_targets (ht_Name t # seen) ts)"

definition validateHeartbeat :: "HeartbeatConfig \<Rightarrow> heartbeat_err option" where
  "validateHeartbeat hb =
     (case first_err
        [(hc_Interval hb < 10 * Second \<or> hc_Interval hb > Hour, HbInterval),
         (hc_Timeout hb < Second \<or> hc_Timeout hb > 30 * Second, HbTimeout),
         (hc_Timeout hb > hc_Interval hb, HbTimeoutOverInterval),
         (TrimSpace (hc_Host hb) = [] \<or> length (hc_Host hb) > 128, HbHost),
         (list_ex control_char (hc_Host hb), HbHostControl),
         (length (hc_Targets hb) > 16, HbTooManyTargets)] of
        Some e \<Rightarrow> Some e
      | None \<Rightarrow> validate_targets [] (hc_Targets hb))"

definition validate_bounds :: "Config \<Rightarrow> config_err option" where
  "validate_bounds c =
     (let sv = cf_Server c; q = cf_Queue c in
      case validate_limits (sv_RateLimit sv) of
        Some e \<Rightarrow> Some e
      | None \<Rightarrow> first_err
          ([(ad_Token (cf_Admin c) \<noteq> [] \<and> length (ad_Token (cf_Admin c)) < minSecretLen, ErrAdminToken),
            (TrimSpace (ad_Header (cf_Admin c)) = [], ErrAdminHeader)] @
           map (\<lambda>cidr. (ParseCIDR cidr = None \<and> ParseIP cidr = None, ErrTrustedProxy cidr)) (sv_TrustedProxies sv) @
           [(sv_MaxInFlight sv < 1 \<or> sv_MaxInFlight sv > 256, ErrMaxInFlight),
            (sv_MaxInFlightBytes sv < 2 ^ 20 \<or> sv_MaxInFlightBytes sv > 256 * 2 ^ 20, ErrMaxInFlightBytes),
            (qc_Workers q < 1 \<or> qc_Workers q > maxWorkers, ErrWorkers),
            (qc_Buffer q < 1 \<or> qc_Buffer q > maxBuffer, ErrBuffer),
            (qc_MaxRetries q < 0 \<or> qc_MaxRetries q > maxRetriesBound, ErrMaxRetries),
            (qc_RetryBase q < 100 * Millisecond \<or> qc_RetryBase q > Hour, ErrRetryBase),
            (qc_MaxRetryDelay q < qc_RetryBase q \<or> qc_MaxRetryDelay q > 7 * 24 * Hour, ErrMaxRetryDelay),
            (qc_MaxRetryAge q < qc_RetryBase q \<or> qc_MaxRetryAge q > 30 * 24 * Hour, ErrMaxRetryAge)]))"

definition validate :: "golib \<Rightarrow> Config \<Rightarrow> config_err + Config" where
  "validate L c =
     bindE (guardE (validate_bounds c)) (\<lambda>_.
     bindE (guardE (map_option ErrHeartbeat (validateHeartbeat (cf_Heartbeat c)))) (\<lambda>_.
     bindE (validate_sources L [] (cf_Sources c)) (\<lambda>ss.
     Inr (c\<lparr>cf_Sources := ss\<rparr>))))"

text \<open>\<open>Load\<close> after the file is read and the YAML decoded into \<open>c\<close>.\<close>

definition expand_all :: "golib \<Rightarrow> Config \<Rightarrow> Config" where
  "expand_all L c =
     (let ex = (\<lambda>s. expandConfigEnv (lookupEnv L) s True); hb = cf_Heartbeat c in
      c\<lparr>cf_Sources := map (\<lambda>s. s\<lparr>src_Auth := (src_Auth s)\<lparr>au_Secret := ex (au_Secret (src_Auth s))\<rparr>\<rparr>) (cf_Sources c),
        cf_Admin := (cf_Admin c)\<lparr>ad_Token := ex (ad_Token (cf_Admin c))\<rparr>,
        cf_Heartbeat := hb\<lparr>hc_Host := ex (hc_Host hb),
          hc_Targets := filter (\<lambda>t. TrimSpace (ht_URL t) \<noteq> [])
            (map (\<lambda>t. t\<lparr>ht_URL := ex (ht_URL t), ht_Token := ex (ht_Token t)\<rparr>) (hc_Targets hb))\<rparr>\<rparr>)"

definition Load :: "golib \<Rightarrow> Config \<Rightarrow> config_err + Config" where
  "Load L c = validate L (applyDefaults (expand_all L c))"

definition SourceByName :: "Config \<Rightarrow> string \<Rightarrow> Source option" where
  "SourceByName c name = find (\<lambda>s. src_Name s = name) (cf_Sources c)"

section \<open>Snapshots\<close>

datatype snapshot_err = ErrNilSource | ErrMarshal | ErrEmptySnapshot | ErrUnmarshal | ErrSnapshotRedaction source_err

definition snapshot_of :: "Source \<Rightarrow> SourceSnapshot" where
  "snapshot_of src = \<lparr>sn_Name = src_Name src, sn_Extract = src_Extract src, sn_Rules = src_Rules src,
     sn_Actions = src_Actions src, sn_LogPolicy = src_LogPolicy src, sn_Redaction = src_Redaction src\<rparr>"

definition SnapshotSource :: "Source option \<Rightarrow> snapshot_err + string" where
  "SnapshotSource src =
     (case src of
        None \<Rightarrow> Inl ErrNilSource
      | Some s \<Rightarrow> (case marshalSnapshot (snapshot_of s) of None \<Rightarrow> Inl ErrMarshal | Some b \<Rightarrow> Inr b))"

definition no_auth :: AuthConfig where
  "no_auth = \<lparr>au_Type = [], au_Header = [], au_Secret = [], au_SignedHeaders = []\<rparr>"

definition source_of :: "SourceSnapshot \<Rightarrow> Source" where
  "source_of snap = \<lparr>src_Name = sn_Name snap, src_Auth = no_auth, src_Extract = sn_Extract snap,
     src_Rules = sn_Rules snap, src_Actions = sn_Actions snap, src_LogPolicy = sn_LogPolicy snap,
     src_Redaction = sn_Redaction snap\<rparr>"

definition ParseSourceSnapshot :: "golib \<Rightarrow> string \<Rightarrow> snapshot_err + Source" where
  "ParseSourceSnapshot L raw =
     (if raw = [] then Inl ErrEmptySnapshot
      else case unmarshalSnapshot raw of
        None \<Rightarrow> Inl ErrUnmarshal
      | Some snap \<Rightarrow>
          (case compileRedaction L (sn_Redaction snap) of
             Inl e \<Rightarrow> Inl (ErrSnapshotRedaction e)
           | Inr rd \<Rightarrow> Inr ((source_of snap)\<lparr>src_Redaction := rd,
                              src_LogPolicy := map_option policy_defaults (sn_LogPolicy snap)\<rparr>)))"

definition ConfigHash :: "golib \<Rightarrow> Config option \<Rightarrow> string" where
  "ConfigHash L c =
     (case c of
        None \<Rightarrow> []
      | Some cf \<Rightarrow> (case marshalPlans (map snapshot_of (cf_Sources cf)) of None \<Rightarrow> [] | Some b \<Rightarrow> sha256hex L b))"

section \<open>What a loaded configuration satisfies\<close>

definition auth_ok :: "AuthConfig \<Rightarrow> bool" where
  "auth_ok a \<longleftrightarrow> au_Type a \<in> {''hmac'', ''token'', ''none''} \<and>
     (au_Type a \<noteq> ''none'' \<longrightarrow> minSecretLen \<le> length (au_Secret a)) \<and>
     (au_SignedHeaders a \<noteq> [] \<longrightarrow> au_Type a = ''hmac'' \<and> map normal_header (au_SignedHeaders a) = signed_fields)"

definition action_cfg_ok :: "ActionConfig \<Rightarrow> bool" where
  "action_cfg_ok a \<longleftrightarrow>
     (ac_Type a = ''http'' \<and> ac_URL a \<noteq> []) \<or>
     (ac_Type a = ''exec'' \<and> ac_Command a \<noteq> [] \<and> 0 \<le> ac_Timeout a \<and> ac_Timeout a \<le> maxActionTimeout)"

definition policy_ok :: "LogPolicyConfig \<Rightarrow> bool" where
  "policy_ok lp \<longleftrightarrow> lp_Mode lp = ''allowlist'' \<and> lp_Services lp \<noteq> [] \<and> lp_Field lp \<noteq> [] \<and>
     lp_OnReject lp = ''drop_and_count''"

definition source_ok :: "golib \<Rightarrow> Source \<Rightarrow> bool" where
  "source_ok L s \<longleftrightarrow> validSourceName (src_Name s) \<and> auth_ok (src_Auth s) \<and> src_Actions s \<noteq> [] \<and>
     list_all action_cfg_ok (src_Actions s) \<and>
     list_all (\<lambda>r. \<exists>re. reCompile L (ru_Regex r) = Some re) (src_Rules s) \<and>
     (case src_LogPolicy s of None \<Rightarrow> True | Some lp \<Rightarrow> policy_ok lp) \<and>
     compileRedaction L (src_Redaction s) = Inr (src_Redaction s)"

definition queue_cfg_ok :: "QueueConfig \<Rightarrow> bool" where
  "queue_cfg_ok q \<longleftrightarrow> 1 \<le> qc_Workers q \<and> qc_Workers q \<le> maxWorkers \<and>
     1 \<le> qc_Buffer q \<and> qc_Buffer q \<le> maxBuffer \<and>
     0 \<le> qc_MaxRetries q \<and> qc_MaxRetries q \<le> maxRetriesBound \<and>
     100 * Millisecond \<le> qc_RetryBase q \<and> qc_RetryBase q \<le> qc_MaxRetryDelay q \<and>
     qc_MaxRetryDelay q \<le> 7 * 24 * Hour \<and> qc_RetryBase q \<le> qc_MaxRetryAge q \<and> qc_MaxRetryAge q \<le> 30 * 24 * Hour"

definition limit_ok :: "RateLimitConfig \<Rightarrow> bool" where
  "limit_ok l \<longleftrightarrow> 1 \<le> rl_Burst l \<and> rl_Burst l \<le> 100000 \<and> \<not> rate_invalid (rl_PerSecond l)"

definition config_ok :: "golib \<Rightarrow> Config \<Rightarrow> bool" where
  "config_ok L c \<longleftrightarrow> queue_cfg_ok (cf_Queue c) \<and>
     1 \<le> sv_MaxInFlight (cf_Server c) \<and> sv_MaxInFlight (cf_Server c) \<le> 256 \<and>
     2 ^ 20 \<le> sv_MaxInFlightBytes (cf_Server c) \<and> sv_MaxInFlightBytes (cf_Server c) \<le> 256 * 2 ^ 20 \<and>
     limit_ok (rls_PreAuthPerIP (sv_RateLimit (cf_Server c))) \<and> limit_ok (rls_Global (sv_RateLimit (cf_Server c))) \<and>
     limit_ok (rls_SourcePerIP (sv_RateLimit (cf_Server c))) \<and> limit_ok (rls_AdminPerIP (sv_RateLimit (cf_Server c))) \<and>
     (ad_Token (cf_Admin c) = [] \<or> minSecretLen \<le> length (ad_Token (cf_Admin c))) \<and>
     0 < sc_Retention (cf_Store c) \<and> sc_RetainPayload (cf_Store c) \<noteq> None \<and>
     length (hc_Targets (cf_Heartbeat c)) \<le> 16 \<and> hc_Timeout (cf_Heartbeat c) \<le> hc_Interval (cf_Heartbeat c) \<and>
     distinct (map src_Name (cf_Sources c)) \<and> list_all (source_ok L) (cf_Sources c)"

lemma validate_auth_ok: "validate_auth a = None \<Longrightarrow> auth_ok a"
  by (auto simp: validate_auth_def auth_ok_def split: option.splits if_splits)

lemma validate_rules_ok: "validate_rules L rs = None \<Longrightarrow> list_all (\<lambda>r. \<exists>re. reCompile L (ru_Regex r) = Some re) rs"
  by (induction L rs rule: validate_rules.induct) (auto split: if_splits)

lemma validate_policy_ok: "validate_policy lp = Inr lp' \<Longrightarrow> policy_ok lp'"
  by (auto simp: validate_policy_def policy_ok_def policy_defaults_def nonempty_or_def split: option.splits if_splits)

lemma validate_actions_ok: "validate_actions L as = None \<Longrightarrow> list_all action_cfg_ok as"
proof (induction L as rule: validate_actions.induct)
  case (2 L a as)
  have "action_cfg_ok a" if "validate_action L a = None"
    using that unfolding validate_action_def first_err_append
    by (auto simp: action_cfg_ok_def split: if_splits option.splits)
  with 2 show ?case by (auto split: option.splits)
qed simp

lemma compileRedaction_idem:
  "compileRedaction L r = Inr r' \<Longrightarrow> compileRedaction L r' = Inr r'"
  by (auto simp: compileRedaction_def bindE_Inr split: option.splits)

lemma validate_source_ok:
  assumes "validate_source L seen s = Inr s'"
  shows "source_ok L s' \<and> src_Name s' = src_Name s \<and> src_Name s \<notin> set seen"
  using assms
  by (auto simp: validate_source_def source_ok_def bindE_Inr validate_auth_ok validate_rules_ok validate_actions_ok
      compileRedaction_idem first_err_None dest!: validate_policy_ok split: option.splits if_splits)

lemma validate_sources_ok:
  "validate_sources L seen ss = Inr ss' \<Longrightarrow>
     list_all (source_ok L) ss' \<and> distinct (map src_Name ss') \<and>
     set (map src_Name ss') \<inter> set seen = {}"
proof (induction L seen ss arbitrary: ss' rule: validate_sources.induct)
  case (2 L seen s ss)
  then obtain s1 ss1 where s1: "validate_source L seen s = Inr s1"
    and ss1: "validate_sources L (src_Name s # seen) ss = Inr ss1" and "ss' = s1 # ss1"
    by (auto simp: bindE_Inr split: sum.splits)
  with 2(1) [OF s1 ss1] validate_source_ok [OF s1] show ?case by auto
qed simp

lemma validate_limits_ok:
  "validate_limits c = None \<Longrightarrow>
     limit_ok (rls_PreAuthPerIP c) \<and> limit_ok (rls_Global c) \<and> limit_ok (rls_SourcePerIP c) \<and> limit_ok (rls_AdminPerIP c)"
  by (auto simp: validate_limits_def limit_ok_def split: if_splits)

lemma validate_heartbeat_ok:
  "validateHeartbeat hb = None \<Longrightarrow> length (hc_Targets hb) \<le> 16 \<and> hc_Timeout hb \<le> hc_Interval hb"
  by (auto simp: validateHeartbeat_def split: option.splits if_splits)

lemma validate_bounds_ok:
  assumes "validate_bounds c = None"
  shows "queue_cfg_ok (cf_Queue c)" "1 \<le> sv_MaxInFlight (cf_Server c)" "sv_MaxInFlight (cf_Server c) \<le> 256"
    "2 ^ 20 \<le> sv_MaxInFlightBytes (cf_Server c)" "sv_MaxInFlightBytes (cf_Server c) \<le> 256 * 2 ^ 20"
    "validate_limits (sv_RateLimit (cf_Server c)) = None"
    "ad_Token (cf_Admin c) = [] \<or> minSecretLen \<le> length (ad_Token (cf_Admin c))"
  using assms
  by (auto simp: validate_bounds_def first_err_append first_err_None queue_cfg_ok_def Let_def
      split: option.splits if_splits)

lemma validate_ok:
  assumes "validate L (applyDefaults c) = Inr c'"
  shows "config_ok L c'"
proof -
  let ?c = "applyDefaults c"
  from assms obtain ss where b: "validate_bounds ?c = None"
    and h: "validateHeartbeat (cf_Heartbeat ?c) = None"
    and ss: "validate_sources L [] (cf_Sources ?c) = Inr ss" and c': "c' = ?c\<lparr>cf_Sources := ss\<rparr>"
    by (auto simp: validate_def bindE_Inr)
  have "0 < sc_Retention (cf_Store ?c)" "sc_RetainPayload (cf_Store ?c) \<noteq> None"
    by (auto simp: applyDefaults_def positive_or_def split: option.splits)
  then show ?thesis
    using validate_bounds_ok [OF b] validate_limits_ok [OF validate_bounds_ok(6) [OF b]]
      validate_heartbeat_ok [OF h] validate_sources_ok [OF ss]
    by (simp add: config_ok_def c')
qed


definition demo_lib :: golib where
  "demo_lib = \<lparr>lookupEnv = (\<lambda>_. None), reCompile = (\<lambda>p. Some (Regexp p)),
     reMatch = (\<lambda>re s. case re of Regexp p \<Rightarrow> Contains s p), reReplace = (\<lambda>re s by. s),
     reReplaceFunc = (\<lambda>re s f. s), gjsonGet = (\<lambda>p path. Some p), sha256hex = (\<lambda>s. s),
     hmacHex = (\<lambda>k p. concat (map (\<lambda>c. if c = CHR 0x0A then ''0a'' else [c]) p) @ k)\<rparr>"

definition zero_limit :: RateLimitConfig where
  "zero_limit = \<lparr>rl_Burst = 0, rl_PerSecond = Finite 0\<rparr>"

definition demo_action :: ActionConfig where
  "demo_action = \<lparr>ac_Type = ''http'', ac_URL = ''https://example.com/hook'', ac_Method = ''post'', ac_Headers = [],
     ac_Body = ''${msg}'', ac_URLAllowlist = [], ac_AllowPrivate = False, ac_Command = [], ac_Args = [], ac_Timeout = 0\<rparr>"

definition demo_source :: Source where
  "demo_source = \<lparr>src_Name = ''github'',
     src_Auth = \<lparr>au_Type = ''token'', au_Header = [], au_Secret = ''0123456789abcdef'', au_SignedHeaders = []\<rparr>,
     src_Extract = [(''msg'', ''$.message'')], src_Rules = [\<lparr>ru_Var = ''msg'', ru_Regex = ''deploy''\<rparr>],
     src_Actions = [demo_action, demo_action\<lparr>ac_Body := ''second''\<rparr>], src_LogPolicy = None, src_Redaction = None\<rparr>"

text \<open>The decoded form of a file that sets one source and nothing else.\<close>

definition demo_decoded :: Config where
  "demo_decoded = \<lparr>
     cf_Server = \<lparr>sv_Addr = [], sv_TrustedProxies = [], sv_MaxInFlight = 0, sv_MaxInFlightBytes = 0,
       sv_RateLimit = \<lparr>rls_PreAuthPerIP = zero_limit, rls_Global = zero_limit, rls_SourcePerIP = zero_limit,
         rls_AdminPerIP = zero_limit\<rparr>\<rparr>,
     cf_Admin = \<lparr>ad_Header = [], ad_Token = []\<rparr>, cf_LogLevel = [],
     cf_Store = \<lparr>sc_Path = [], sc_Retention = 0, sc_RetainPayload = None\<rparr>,
     cf_Queue = \<lparr>qc_Workers = 0, qc_Buffer = 0, qc_MaxRetries = defaultMaxRetries, qc_RetryBase = 0,
       qc_MaxRetryDelay = 0, qc_MaxRetryAge = 0\<rparr>,
     cf_Heartbeat = \<lparr>hc_Interval = 0, hc_Timeout = 0, hc_Host = [], hc_Targets = []\<rparr>,
     cf_Sources = [demo_source]\<rparr>"

definition demo_config :: Config where
  "demo_config = applyDefaults demo_decoded"

lemma demo_config_loads: "Load demo_lib demo_decoded = Inr demo_config"
  by code_simp


text \<open>The source that a snapshot of \<open>s\<close> stands for: its plan without credentials, the keys of its maps in order.\<close>

definition plan_source :: "Source \<Rightarrow> Source" where
  "plan_source s = s\<lparr>src_Auth := no_auth, src_Extract := sort_key fst (src_Extract s), src_Actions := map stored_action (src_Actions s)\<rparr>"

lemma parse_stored_plan:
  assumes "source_ok L s"
  shows "unmarshalSnapshot raw = Some (stored_plan (snapshot_of s)) \<Longrightarrow> raw \<noteq> [] \<Longrightarrow> ParseSourceSnapshot L raw = Inr (plan_source s)"
proof -
  have rd: "compileRedaction L (map_option (rd_Compiled_update (\<lambda>_. [])) (src_Redaction s)) = Inr (src_Redaction s)"
    using assms by (cases "src_Redaction s") (auto simp: source_ok_def compileRedaction_def bindE_Inr)
  have lp: "map_option policy_defaults (src_LogPolicy s) = src_LogPolicy s"
    using assms by (cases "src_LogPolicy s") (auto simp: source_ok_def policy_ok_def policy_defaults_def nonempty_or_def)
  show "unmarshalSnapshot raw = Some (stored_plan (snapshot_of s)) \<Longrightarrow> raw \<noteq> [] \<Longrightarrow> ParseSourceSnapshot L raw = Inr (plan_source s)"
    by (simp add: ParseSourceSnapshot_def rd lp snapshot_of_def source_of_def stored_plan_def plan_source_def)
qed

text \<open>C38: A snapshot carries the whole execution plan and no credential. The JSON text of a configured source
  parses back to its name, extraction, rules, actions, policy and redaction with an empty authentication
  section; the compiled patterns are not serialised and are compiled again. The plan must be UTF-8 (as every
  decoded YAML file is), with distinct keys and timeouts of 64 bits.\<close>

theorem snapshot_restores_plan:
  assumes "source_ok L s" and "utf8_plan (snapshot_of s)" and "SnapshotSource (Some s) = Inr raw"
  shows "ParseSourceSnapshot L raw = Inr (plan_source s)"
proof -
  obtain body where "marshalSnapshot (snapshot_of s) = Some body" "body \<noteq> []" "unmarshalSnapshot body = Some (stored_plan (snapshot_of s))"
    using snapshot_roundtrip [OF assms(2)] by blast
  with assms(3) parse_stored_plan [OF assms(1)] show ?thesis by (simp add: SnapshotSource_def)
qed

definition demo_redacted :: Source where
  "demo_redacted = demo_source\<lparr>src_Redaction := Some \<lparr>rd_Patterns = [''pw''], rd_Compiled = [Regexp ''pw'']\<rparr>\<rparr>"

theorem snapshot_restores_plan_witness:
  "\<exists>raw. SnapshotSource (Some demo_redacted) = Inr raw \<and> ParseSourceSnapshot demo_lib raw = Inr (demo_redacted\<lparr>src_Auth := no_auth\<rparr>)"
proof -
  obtain raw where raw: "SnapshotSource (Some demo_redacted) = Inr raw" by (simp add: SnapshotSource_def marshalSnapshot_def)
  have ok: "source_ok demo_lib demo_redacted"
    by (simp add: source_ok_def demo_redacted_def demo_lib_def demo_source_def validSourceName_def
        name_char_def auth_ok_def minSecretLen_def action_cfg_ok_def demo_action_def compileRedaction_def) code_simp
  have "utf8_plan (snapshot_of demo_redacted)"
    by (simp add: utf8_plan_def snapshot_of_def demo_redacted_def demo_source_def utf8_policy_def) code_simp
  from snapshot_restores_plan [OF ok this raw] have "ParseSourceSnapshot demo_lib raw = Inr (plan_source demo_redacted)" .
  moreover have "plan_source demo_redacted = demo_redacted\<lparr>src_Auth := no_auth\<rparr>"
    by (simp add: plan_source_def demo_redacted_def demo_source_def stored_action_def demo_action_def)
  ultimately show ?thesis using raw by simp
qed

text \<open>The configuration hash identifies execution plans, never secrets: two configurations
  whose sources differ only in their authentication have the same hash.\<close>

theorem config_hash_ignores_secrets:
  "ConfigHash L (Some (c\<lparr>cf_Sources := map (\<lambda>s. s\<lparr>src_Auth := a s\<rparr>) (cf_Sources c)\<rparr>)) = ConfigHash L (Some c)"
  by (simp add: ConfigHash_def snapshot_of_def [abs_def] comp_def)

end
