(* ===== verification/Scrub.thy ===== *)
theory Scrub
  imports Config "HOL-Library.AList" "HOL-Library.List_Lexorder" "HOL-Library.Char_ord"
begin

text \<open>
  Replacing credentials that older releases stored in action snapshots by references
  (\<^verbatim>\<open>ActionSecretReplacements\<close> and \<^verbatim>\<open>ScrubSnapshotSecrets\<close> of \<^verbatim>\<open>internal/config/snapshot.go\<close>), which
  \<^verbatim>\<open>cmd/server\<close> passes to the rewriting loop of the theory \<open>Snapshots\<close>. The order in which Go
  visits a map is the argument \<open>ord\<close>.
\<close>

section \<open>Replacements\<close>

definition secret_reference :: "string \<Rightarrow> string" where
  "secret_reference name = ''${secret:'' @ name @ ''}''"

definition secret_names :: "Config \<Rightarrow> string list" where
  "secret_names c = sort (remdups (concat (map (\<lambda>s. concat (map secret_refs (src_Actions s))) (cf_Sources c))))"

fun collect_replacements :: "golib \<Rightarrow> string list \<Rightarrow> gomap \<Rightarrow> gomap" where
  "collect_replacements L [] out = out"
| "collect_replacements L (name # names) out =
     (case lookupEnv L name of
        Some value \<Rightarrow>
          if value \<noteq> [] \<and> map_of out value = None
          then collect_replacements L names (out @ [(value, secret_reference name)])
          else collect_replacements L names out
      | None \<Rightarrow> collect_replacements L names out)"

definition ActionSecretReplacements :: "golib \<Rightarrow> Config option \<Rightarrow> gomap" where
  "ActionSecretReplacements L c = (case c of None \<Rightarrow> [] | Some cfg \<Rightarrow> collect_replacements L (secret_names cfg) [])"

text \<open>\<open>strings.ReplaceAll\<close> for a non-empty search string.\<close>

definition literal_match :: "string \<Rightarrow> string \<Rightarrow> (unit \<times> nat) option" where
  "literal_match old s = (if HasPrefix s old then Some ((), length old) else None)"

definition ReplaceAll :: "string \<Rightarrow> string \<Rightarrow> string \<Rightarrow> string" where
  "ReplaceAll s old by = ReplaceAllStringFunc (literal_match old) (\<lambda>_. by) s"

definition scrub_order :: "(string list \<Rightarrow> string list) \<Rightarrow> gomap \<Rightarrow> string list" where
  "scrub_order ord reps = sort_key (\<lambda>v. - int (length v)) (ord (map fst reps))"

definition scrub_string :: "gomap \<Rightarrow> string list \<Rightarrow> string \<Rightarrow> string" where
  "scrub_string reps vals value =
     fold (\<lambda>secret v. ReplaceAll v secret (case map_of reps secret of Some r \<Rightarrow> r | None \<Rightarrow> [])) vals value"

definition scrub_action :: "(string \<Rightarrow> string) \<Rightarrow> ActionConfig \<Rightarrow> ActionConfig" where
  "scrub_action replace a = a\<lparr>ac_URL := replace (ac_URL a), ac_Command := replace (ac_Command a),
     ac_Body := replace (ac_Body a), ac_Args := map replace (ac_Args a),
     ac_Headers := fold (\<lambda>(k, v) h. AList.update (replace k) (replace v) h) (ac_Headers a) []\<rparr>"

definition ScrubSnapshotSecrets ::
  "golib \<Rightarrow> (string list \<Rightarrow> string list) \<Rightarrow> string \<Rightarrow> gomap \<Rightarrow> snapshot_err + string" where
  "ScrubSnapshotSecrets L ord raw reps =
     (if reps = [] \<or> raw = [] then Inr raw
      else bindE (ParseSourceSnapshot L raw)
        (\<lambda>src. let vals = scrub_order ord reps
               in SnapshotSource (Some (src\<lparr>src_Actions := map (scrub_action (scrub_string reps vals)) (src_Actions src)\<rparr>))))"

section \<open>Facts\<close>

lemma collect_replacements_sound:
  assumes "\<forall>(v, r) \<in> set out. v \<noteq> [] \<and> (\<exists>name. lookupEnv L name = Some v \<and> r = secret_reference name)"
  shows "\<forall>(v, r) \<in> set (collect_replacements L names out). v \<noteq> [] \<and> (\<exists>name. lookupEnv L name = Some v \<and> r = secret_reference name)"
  using assms
proof (induction L names out rule: collect_replacements.induct)
  case (2 L name names out)
  then show ?case by (fastforce split: option.splits if_splits)
qed simp

text \<open>Every replacement is a value of the environment, never empty, with the reference of its name.\<close>

lemma replacements_from_environment:
  "(v, r) \<in> set (ActionSecretReplacements L c) \<Longrightarrow> v \<noteq> [] \<and> (\<exists>name. lookupEnv L name = Some v \<and> r = secret_reference name)"
  using collect_replacements_sound [of "[]" L] by (fastforce simp: ActionSecretReplacements_def split: option.splits)

lemma pieces_no_match:
  "(\<And>n. n < length s \<Longrightarrow> re (drop n s) = None) \<Longrightarrow> pieces re s = map Lit s"
proof (induction s)
  case Nil
  then show ?case by (subst pieces.simps) simp
next
  case (Cons c cs)
  have "re (c # cs) = None" using Cons.prems [of 0] by simp
  moreover have "pieces re cs = map Lit cs" using Cons.prems [of "Suc n" for n] by (intro Cons.IH) auto
  ultimately show ?case by (subst pieces.simps) simp
qed

text \<open>A text that contains no secret value is left alone.\<close>

lemma Contains_iff: "Contains s p \<longleftrightarrow> (\<exists>n \<le> length s. HasPrefix (drop n s) p)"
proof (induction s p rule: Contains.induct)
  case (2 x xs p)
  have "(\<exists>n \<le> length (x # xs). HasPrefix (drop n (x # xs)) p) \<longleftrightarrow>
      HasPrefix (x # xs) p \<or> (\<exists>n \<le> length xs. HasPrefix (drop n xs) p)"
    by (metis (no_types, opaque_lifting) drop0 drop_Suc_Cons le0 length_Cons not0_implies_Suc Suc_le_mono)
  with 2 show ?case by simp
qed (auto simp: HasPrefix_def)

lemma ReplaceAll_absent: "\<not> Contains s old \<Longrightarrow> ReplaceAll s old by = s"
proof -
  assume "\<not> Contains s old"
  then have "pieces (literal_match old) s = map Lit s"
    by (intro pieces_no_match) (auto simp: Contains_iff literal_match_def)
  then show ?thesis by (simp add: ReplaceAll_def ReplaceAllStringFunc_def comp_def)
qed

lemma scrub_string_absent:
  "(\<And>v. v \<in> set vals \<Longrightarrow> \<not> Contains s v) \<Longrightarrow> scrub_string reps vals s = s"
  by (induction vals) (auto simp: scrub_string_def ReplaceAll_absent)

text \<open>A short value can occur in the text of a reference that was just put in for a longer one: the
  reference is then destroyed. Here the secret \<open>B\<close> has the value \<open>A\<close>.\<close>

lemma scrub_corrupts_reference:
  "scrub_string [(''hunter2'', secret_reference ''A''), (''A'', secret_reference ''B'')]
     (scrub_order id [(''hunter2'', secret_reference ''A''), (''A'', secret_reference ''B'')]) ''pw=hunter2''
   = ''pw=${secret:${secret:B}}''"
  by code_simp

end
