(* ===== verification/Router.thy ===== *)
theory Router
  imports Config "HOL-Library.AList"
begin

text \<open>
  Variable extraction (\<^verbatim>\<open>internal/parser/jsonpath.go\<close>) and rule matching with its bounded
  cache of compiled patterns (\<^verbatim>\<open>internal/router/match.go\<close>). The cache is a record with the
  map, the FIFO ring of patterns and the ring position; \<open>Match\<close> threads it. The interface
  between the two is the locale \<open>compile_cache\<close>: whatever the cache does, compiling through it
  gives what compiling without it gives.
\<close>

section \<open>Extraction\<close>

definition normalizePath :: "string \<Rightarrow> string" where
  "normalizePath p = TrimPrefix (TrimPrefix (TrimSpace p) ''$.'') ''$''"

definition Extract :: "golib \<Rightarrow> string \<Rightarrow> gomap \<Rightarrow> gomap" where
  "Extract L payload spec =
     map (\<lambda>(name, path). (name, case gjsonGet L payload (normalizePath path) of None \<Rightarrow> [] | Some v \<Rightarrow> v)) spec"

text \<open>Reading a Go map: a missing key reads as the empty string.\<close>

definition var :: "gomap \<Rightarrow> string \<Rightarrow> string" where
  "var vars k = (case map_of vars k of None \<Rightarrow> [] | Some v \<Rightarrow> v)"

section \<open>The cache\<close>

definition maxCachedRules :: nat where "maxCachedRules = 256"
definition maxCachedPatternBytes :: nat where "maxCachedPatternBytes = 4096"

record regexpCache =
  entries :: "(string \<times> regexp) list"
  order :: "string list"
  next_slot :: nat

definition empty_cache :: regexpCache where
  "empty_cache = \<lparr>entries = [], order = replicate maxCachedRules [], next_slot = 0\<rparr>"

definition compile :: "golib \<Rightarrow> string \<Rightarrow> regexpCache \<Rightarrow> regexp option \<times> regexpCache" where
  "compile L pattern c =
     (if length pattern > maxCachedPatternBytes then (reCompile L pattern, c)
      else case map_of (entries c) pattern of
        Some re \<Rightarrow> (Some re, c)
      | None \<Rightarrow>
          (case reCompile L pattern of
             None \<Rightarrow> (None, c)
           | Some re \<Rightarrow>
               let kept = (if length (entries c) = maxCachedRules
                           then AList.delete (order c ! next_slot c) (entries c) else entries c)
               in (Some re, c\<lparr>entries := AList.update pattern re kept,
                              order := (order c)[next_slot c := pattern],
                              next_slot := (next_slot c + 1) mod maxCachedRules\<rparr>)))"

datatype match_err = InvalidRule string

fun match_with :: "golib \<Rightarrow> (string \<Rightarrow> 'c \<Rightarrow> regexp option \<times> 'c) \<Rightarrow> Rule list \<Rightarrow> gomap \<Rightarrow> 'c \<Rightarrow> (match_err + bool) \<times> 'c" where
  "match_with L cc [] vars c = (Inr True, c)"
| "match_with L cc (r # rs) vars c =
     (case cc (ru_Regex r) c of
        (None, c') \<Rightarrow> (Inl (InvalidRule (ru_Var r)), c')
      | (Some re, c') \<Rightarrow> if \<not> reMatch L re (var vars (ru_Var r)) then (Inr False, c')
                         else match_with L cc rs vars c')"

definition Match :: "golib \<Rightarrow> Rule list \<Rightarrow> gomap \<Rightarrow> regexpCache \<Rightarrow> (match_err + bool) \<times> regexpCache" where
  "Match L = match_with L (compile L)"

section \<open>The contract of a compile cache\<close>

text \<open>The reference: rules are tried in order without any cache.\<close>

fun match_ref_rules :: "golib \<Rightarrow> Rule list \<Rightarrow> gomap \<Rightarrow> match_err + bool" where
  "match_ref_rules L [] vars = Inr True"
| "match_ref_rules L (r # rs) vars =
     (case reCompile L (ru_Regex r) of
        None \<Rightarrow> Inl (InvalidRule (ru_Var r))
      | Some re \<Rightarrow> if \<not> reMatch L re (var vars (ru_Var r)) then Inr False else match_ref_rules L rs vars)"

locale compile_cache =
  fixes L :: golib
    and cc :: "string \<Rightarrow> 'c \<Rightarrow> regexp option \<times> 'c"
    and ok :: "'c \<Rightarrow> bool"
  assumes compile_result: "ok c \<Longrightarrow> fst (cc p c) = reCompile L p"
    and compile_ok: "ok c \<Longrightarrow> ok (snd (cc p c))"
begin

lemma match_refines:
  "ok c \<Longrightarrow> fst (match_with L cc rs vars c) = match_ref_rules L rs vars \<and> ok (snd (match_with L cc rs vars c))"
proof (induction rs arbitrary: c)
  case (Cons r rs)
  obtain re c' where o: "cc (ru_Regex r) c = (re, c')" by (cases "cc (ru_Regex r) c")
  with Cons.prems compile_result [of c "ru_Regex r"] compile_ok [of c "ru_Regex r"]
  have "re = reCompile L (ru_Regex r)" "ok c'" by simp_all
  with o Cons.IH [of c'] show ?case by (auto split: option.splits)
qed simp

end

section \<open>The cache implements the contract\<close>

text \<open>While the ring fills, its first \<open>next_slot\<close> cells are the cached patterns in insertion
  order; once it is full, every cell is one.\<close>

definition cache_ok :: "golib \<Rightarrow> regexpCache \<Rightarrow> bool" where
  "cache_ok L c \<longleftrightarrow> length (order c) = maxCachedRules \<and> next_slot c < maxCachedRules \<and>
     distinct (map fst (entries c)) \<and> (\<forall>(p, re) \<in> set (entries c). reCompile L p = Some re) \<and>
     (if length (entries c) = maxCachedRules
      then distinct (order c) \<and> set (map fst (entries c)) = set (order c)
      else length (entries c) = next_slot c \<and> distinct (take (next_slot c) (order c)) \<and>
           set (map fst (entries c)) = set (take (next_slot c) (order c)))"

lemma cache_ok_size: "cache_ok L c \<Longrightarrow> length (entries c) \<le> maxCachedRules"
  by (auto simp: cache_ok_def split: if_splits)

lemma empty_cache_ok [simp]: "cache_ok L empty_cache"
  by (simp add: cache_ok_def empty_cache_def maxCachedRules_def)

lemma compile_result: "cache_ok L c \<Longrightarrow> fst (compile L p c) = reCompile L p"
  by (auto simp: compile_def cache_ok_def Let_def split: option.splits dest!: map_of_SomeD)

lemma distinct_list_update: "distinct xs \<Longrightarrow> y \<notin> set xs \<Longrightarrow> i < length xs \<Longrightarrow>
   distinct (xs[i := y]) \<and> set (xs[i := y]) = insert y (set xs - {xs ! i})"
  by (auto simp: distinct_list_update set_update_distinct)

lemma update_new_key:
  "p \<notin> fst ` set al \<Longrightarrow> AList.update p re al = al @ [(p, re)]"
  by (induction al) auto

lemma compile_ok: 
  assumes "cache_ok L c"
  shows "cache_ok L (snd (compile L p c))"
proof (cases "length p > maxCachedPatternBytes \<or> map_of (entries c) p \<noteq> None \<or> reCompile L p = None")
  case True
  then have "snd (compile L p c) = c" by (auto simp: compile_def split: option.splits)
  with assms show ?thesis by simp
next
  case False
  then obtain re where re: "reCompile L p = Some re" and new: "p \<notin> fst ` set (entries c)"
    by (auto simp: map_of_eq_None_iff)
  let ?full = "length (entries c) = maxCachedRules"
  let ?old = "order c ! next_slot c"
  let ?kept = "if ?full then AList.delete ?old (entries c) else entries c"
  let ?c = "c\<lparr>entries := ?kept @ [(p, re)], order := (order c)[next_slot c := p],
              next_slot := (next_slot c + 1) mod maxCachedRules\<rparr>"
  have kept_new: "p \<notin> fst ` set ?kept" using new by (auto simp: AList.delete_eq)
  have c: "snd (compile L p c) = ?c"
    using False re kept_new by (auto simp: compile_def Let_def update_new_key)
  note ok = assms [unfolded cache_ok_def]
  have pos: "0 < maxCachedRules" by (simp add: maxCachedRules_def)
  show ?thesis
  proof (cases ?full)
    case True
    have ring: "distinct (order c)" "fst ` set (entries c) = set (order c)" using ok True by auto
    have keys: "map fst (AList.delete ?old (entries c)) = filter (\<lambda>k. k \<noteq> ?old) (map fst (entries c))"
      by (simp add: AList.delete_eq filter_map comp_def case_prod_unfold eq_commute)
    have old: "?old \<in> set (map fst (entries c))" using ok ring(2) by simp
    have "length (AList.delete ?old (entries c)) = length (filter (\<lambda>k. k \<noteq> ?old) (map fst (entries c)))"
      using keys by (metis length_map)
    also have "\<dots> = length (remove1 ?old (map fst (entries c)))"
      using ok by (simp add: distinct_remove1_removeAll removeAll_filter_not_eq eq_commute)
    also have "\<dots> = maxCachedRules - 1" using True old by (simp add: length_remove1)
    finally have len: "length (AList.delete ?old (entries c)) = maxCachedRules - 1" .
    have upd: "distinct ((order c)[next_slot c := p])"
        "set ((order c)[next_slot c := p]) = insert p (set (order c) - {?old})"
      using distinct_list_update [of "order c" p "next_slot c"] ring new ok by auto
    show ?thesis
      unfolding c cache_ok_def
      using ok True ring len upd new re keys pos
      by (auto simp: AList.delete_eq)
  next
    case False
    have part: "length (entries c) = next_slot c" "distinct (take (next_slot c) (order c))"
      "fst ` set (entries c) = set (take (next_slot c) (order c))" using ok False by auto
    have fresh: "take (Suc (next_slot c)) ((order c)[next_slot c := p]) = take (next_slot c) (order c) @ [p]"
      using ok by (simp add: take_Suc_conv_app_nth)
    have e: "?kept = entries c" using False by simp
    have vals: "\<forall>(q, re') \<in> set (entries c @ [(p, re)]). reCompile L q = Some re'"
      "distinct (map fst (entries c @ [(p, re)]))"
      using ok new re by auto
    have ring: "distinct (take (next_slot c) (order c) @ [p])"
      "set (map fst (entries c @ [(p, re)])) = set (take (next_slot c) (order c) @ [p])"
      using part new by auto
    have len: "length (order c) = maxCachedRules" "next_slot c < maxCachedRules" using ok by auto
    show ?thesis
    proof (cases "Suc (next_slot c) = maxCachedRules")
      case full: True
      then have "(order c)[next_slot c := p] = take (next_slot c) (order c) @ [p]"
        using fresh len(1) by (metis length_list_update order_refl take_all)
      then show ?thesis unfolding c cache_ok_def e using full vals ring len part(1) pos by simp
    next
      case nofull: False
      with len have "Suc (next_slot c) < maxCachedRules" by simp
      then show ?thesis unfolding c cache_ok_def e using nofull vals ring len part(1) fresh by simp
    qed
  qed
qed

interpretation rules: compile_cache L "compile L" "cache_ok L" for L
  by unfold_locales (rule compile_result, assumption, rule compile_ok)

text \<open>C36: the cache is invisible. In every reachable state of the shared cache, matching gives the
  verdict of compiling each rule afresh, an invalid pattern is reported for the same rule, the
  cache stays well formed and never holds more than 256 patterns.\<close>

theorem match_with_cache_is_reference:
  assumes "cache_ok L c" and "Match L rs vars c = (r, c')"
  shows "r = match_ref_rules L rs vars \<and> cache_ok L c' \<and> length (entries c') \<le> maxCachedRules"
  using rules.match_refines [OF assms(1), of rs vars] assms(2)
  by (auto simp: Match_def intro: cache_ok_size)

theorem match_with_cache_is_reference_witness:
  "fst (Match demo_lib (src_Rules demo_source) [(''msg'', ''a deploy'')] empty_cache) = Inr True \<and>
   match_ref_rules demo_lib (src_Rules demo_source) [(''msg'', ''a deploy'')] = Inr True"
proof -
  have r: "fst (Match demo_lib (src_Rules demo_source) [(''msg'', ''a deploy'')] empty_cache) = Inr True" by code_simp
  from match_with_cache_is_reference [OF empty_cache_ok, of demo_lib "src_Rules demo_source" "[(''msg'', ''a deploy'')]"
      "Inr True"] r
  show ?thesis by (metis prod.collapse)
qed

text \<open>An accepted configuration never gives a match error.\<close>

lemma match_ref_rules_total:
  "list_all (\<lambda>r. \<exists>re. reCompile L (ru_Regex r) = Some re) rs \<Longrightarrow> \<exists>b. match_ref_rules L rs vars = Inr b"
  by (induction rs) auto

lemma map_fst_Extract [simp]: "map fst (Extract L payload spec) = map fst spec"
  by (simp add: Extract_def case_prod_unfold comp_def)

end
