(* ===== verification/Policy.thy ===== *)
theory Policy
  imports Router "HOL-Library.List_Lexorder" "HOL-Library.Char_ord"
begin

text \<open>
  Egress policy (\<^verbatim>\<open>internal/policy/policy.go\<close>): the allowlist verdict, the redaction of
  extracted variables and the rejection counters with their heartbeat summary. The counter map
  is an association list whose keys are fixed at construction; counts are \<open>uint64\<close>, kept as
  integers modulo \<open>2 ^ 64\<close>.
\<close>

section \<open>Verdict and redaction\<close>

definition Allow :: "Source option \<Rightarrow> gomap \<Rightarrow> string \<times> bool" where
  "Allow src vars =
     (case src of
        None \<Rightarrow> ([], True)
      | Some s \<Rightarrow>
          (case src_LogPolicy s of
             None \<Rightarrow> ([], True)
           | Some lp \<Rightarrow>
               let field = (if lp_Field lp = [] then ''service'' else lp_Field lp);
                   value = var vars field
               in (value, list_ex (\<lambda>allowed. value = allowed) (lp_Services lp))))"

definition redact_value :: "golib \<Rightarrow> regexp list \<Rightarrow> string \<Rightarrow> string" where
  "redact_value L res val = fold (\<lambda>re redacted. reReplace L re redacted ''***'') res val"

definition Redact :: "golib \<Rightarrow> Source option \<Rightarrow> gomap \<Rightarrow> gomap" where
  "Redact L src vars =
     (case src of
        None \<Rightarrow> vars
      | Some s \<Rightarrow>
          (case src_Redaction s of
             None \<Rightarrow> vars
           | Some rd \<Rightarrow>
               if rd_Compiled rd = [] then vars
               else map (\<lambda>(key, val). (key, redact_value L (rd_Compiled rd) val)) vars))"

section \<open>Rejection counters\<close>

text \<open>The package has its own copy of the source name check.\<close>

definition countable_name :: "string \<Rightarrow> bool" where
  "countable_name source \<longleftrightarrow>
     (if length source = 0 \<or> length source > 64 then False
      else list_all (\<lambda>c. (CHR ''a'' \<le> c \<and> c \<le> CHR ''z'') \<or> (CHR ''A'' \<le> c \<and> c \<le> CHR ''Z'') \<or>
                         (CHR ''0'' \<le> c \<and> c \<le> CHR ''9'') \<or> c = CHR ''_'' \<or> c = CHR ''-'') source)"

lemma countable_validSourceName: "countable_name s = validSourceName s"
proof -
  have c: "((CHR ''a'' \<le> c \<and> c \<le> CHR ''z'') \<or> (CHR ''A'' \<le> c \<and> c \<le> CHR ''Z'') \<or>
      (CHR ''0'' \<le> c \<and> c \<le> CHR ''9'') \<or> c = CHR ''_'' \<or> c = CHR ''-'') = name_char c" for c
    by (rule all_chars) code_simp
  show ?thesis by (auto simp: countable_name_def validSourceName_def c)
qed

record Counters =
  ct_data :: "(string \<times> int) list"
  ct_sources :: "string list"

definition UnknownSource :: string where "UnknownSource = ''other''"
definition maxSummarySources :: nat where "maxSummarySources = 10"

definition wrap_u64 :: "int \<Rightarrow> int" where "wrap_u64 n = n mod 2 ^ 64"

definition NewCounters :: "string list \<Rightarrow> Counters" where
  "NewCounters sources =
     (let data = fold (\<lambda>source d. if countable_name source then AList.update source 0 d else d)
                   sources [(UnknownSource, 0)]
      in \<lparr>ct_data = data, ct_sources = sort (map fst data)\<rparr>)"

definition count_of :: "Counters \<Rightarrow> string \<Rightarrow> int" where
  "count_of c source = (case map_of (ct_data c) source of None \<Rightarrow> 0 | Some n \<Rightarrow> n)"

definition Inc :: "string \<Rightarrow> Counters \<Rightarrow> Counters" where
  "Inc source c =
     (let src = (if map_of (ct_data c) source = None then UnknownSource else source)
      in c\<lparr>ct_data := AList.update src (wrap_u64 (count_of c src + 1)) (ct_data c)\<rparr>)"

definition Snapshot :: "Counters \<Rightarrow> (string \<times> (string \<times> int) list) list" where
  "Snapshot c = map (\<lambda>(src, count). (src, [(''allowlist_rejected'', count)]))
     (filter (\<lambda>(src, count). count > 0) (ct_data c))"

definition times_sign :: string where
  "times_sign = [CHR '' '', CHR 0xC3, CHR 0x97, CHR '' '']"

fun summary_loop :: "Counters \<Rightarrow> string list \<Rightarrow> string list \<Rightarrow> int \<Rightarrow> string list \<times> int" where
  "summary_loop c [] parts rest = (parts, rest)"
| "summary_loop c (src # srcs) parts rest =
     (let count = count_of c src in
      if count = 0 then summary_loop c srcs parts rest
      else if length parts < maxSummarySources
      then summary_loop c srcs (parts @ [src @ times_sign @ Itoa count]) rest
      else summary_loop c srcs parts (wrap_u64 (rest + count)))"

definition Summary :: "Counters \<Rightarrow> string" where
  "Summary c =
     (let (parts, rest) = summary_loop c (ct_sources c) [] 0;
          parts' = (if rest > 0 then parts @ [''remaining sources'' @ times_sign @ Itoa rest] else parts)
      in if parts' = [] then ''dropped: none'' else ''dropped: '' @ Join ''; '' parts')"

section \<open>Invariant\<close>

definition counters_ok :: "Counters \<Rightarrow> bool" where
  "counters_ok c \<longleftrightarrow> distinct (map fst (ct_data c)) \<and> UnknownSource \<in> set (map fst (ct_data c)) \<and>
     set (ct_sources c) = set (map fst (ct_data c)) \<and> sorted (ct_sources c) \<and>
     list_all (\<lambda>s. length s \<le> 64) (ct_sources c) \<and> list_all (\<lambda>(s, n). 0 \<le> n \<and> n < 2 ^ 64) (ct_data c)"

lemma fold_update_ok:
  fixes d :: "(string \<times> int) list" and ss :: "string list"
  assumes "distinct (map fst d)" "\<forall>(s, n) \<in> set d. length s \<le> 64 \<and> n = 0" "UnknownSource \<in> set (map fst d)"
  defines "d' \<equiv> fold (\<lambda>source d. if countable_name source then AList.update source 0 d else d) ss d"
  shows "distinct (map fst d') \<and> (\<forall>(s, n) \<in> set d'. length s \<le> 64 \<and> n = (0 :: int)) \<and> UnknownSource \<in> set (map fst d')"
  unfolding d'_def using assms(1,2,3)
proof (induction ss arbitrary: d)
  case (Cons s ss)
  show ?case
  proof (cases "countable_name s")
    case True
    have "set (AList.update s 0 d) \<subseteq> insert (s, 0) (set d)" by (induction d) auto
    moreover have "length s \<le> 64" using True by (simp add: countable_name_def split: if_splits)
    ultimately have "\<forall>(s, n) \<in> set (AList.update s 0 d). length s \<le> 64 \<and> n = (0 :: int)"
      using Cons.prems(2) by blast
    with Cons.IH [of "AList.update s 0 d"] Cons.prems True show ?thesis
      by (simp add: distinct_update update_keys dom_update split: if_splits)
  qed (use Cons in auto)
qed simp

lemma NewCounters_ok: "counters_ok (NewCounters ss)"
  using fold_update_ok [of "[(UnknownSource, 0)]" ss]
  by (auto simp: counters_ok_def NewCounters_def Let_def UnknownSource_def list_all_iff)

lemma count_of_range: "counters_ok c \<Longrightarrow> 0 \<le> count_of c s \<and> count_of c s < 2 ^ 64"
  by (auto simp: counters_ok_def count_of_def list_all_iff split: option.splits dest!: map_of_SomeD)

lemma keys_update_existing: "k \<in> set (map fst al) \<Longrightarrow> map fst (AList.update k v al) = map fst al"
  by (induction al) auto

definition counted_as :: "string \<Rightarrow> Counters \<Rightarrow> string" where
  "counted_as source c = (if source \<in> set (map fst (ct_data c)) then source else UnknownSource)"

lemma Inc_eq: "Inc s c = c\<lparr>ct_data := AList.update (counted_as s c) (wrap_u64 (count_of c (counted_as s c) + 1)) (ct_data c)\<rparr>"
  by (simp add: Inc_def counted_as_def Let_def map_of_eq_None_iff)

lemma count_Inc:
  "count_of (Inc s c) t = (if t = counted_as s c then wrap_u64 (count_of c t + 1) else count_of c t)"
  by (simp add: Inc_eq count_of_def update_conv')

lemma Inc_keys:
  assumes "counters_ok c"
  shows "map fst (ct_data (Inc s c)) = map fst (ct_data c)"
proof -
  have "counted_as s c \<in> set (map fst (ct_data c))" using assms by (simp add: counters_ok_def counted_as_def)
  then show ?thesis by (simp add: Inc_eq keys_update_existing)
qed

lemma Inc_ok: 
  assumes "counters_ok c"
  shows "counters_ok (Inc s c)"
proof -
  have sub: "set (AList.update k v al) \<subseteq> insert (k, v) (set al)" for k and v :: int and al by (induction al) auto
  have "list_all (\<lambda>(s, n). 0 \<le> n \<and> n < 2 ^ 64) (ct_data (Inc s c))"
    using assms sub unfolding counters_ok_def list_all_iff Inc_def Let_def wrap_u64_def
    by (auto dest!: subsetD [OF sub])
  with assms Inc_keys [OF assms, of s] show ?thesis
    by (simp add: counters_ok_def) (simp add: Inc_def Let_def)
qed

section \<open>The summary\<close>

lemma length_Join: "length (Join sep ws) \<le> sum_list (map length ws) + length sep * (length ws - 1)"
  by (induction sep ws rule: Join.induct) auto

lemma length_count: "counters_ok c \<Longrightarrow> length (Itoa (count_of c s)) \<le> 20"
  using count_of_range [of c s] by (intro length_Itoa) auto

lemma summary_loop_bounds:
  assumes "counters_ok c" "\<forall>s \<in> set ss. length s \<le> 64" "length parts \<le> 10" "\<forall>p \<in> set parts. length p \<le> 88"
    "0 \<le> rest" "rest < 2 ^ 64" "summary_loop c ss parts rest = (parts', rest')"
  shows "length parts' \<le> 10 \<and> (\<forall>p \<in> set parts'. length p \<le> 88) \<and> 0 \<le> rest' \<and> rest' < 2 ^ 64"
  using assms
proof (induction c ss parts rest rule: summary_loop.induct)
  case (2 c src srcs parts rest)
  have "length (src @ times_sign @ Itoa (count_of c src)) \<le> 88"
    using length_count [OF "2.prems"(1), of src] "2.prems"(2) by (simp add: times_sign_def)
  moreover have "0 \<le> wrap_u64 (rest + count_of c src)" "wrap_u64 (rest + count_of c src) < 2 ^ 64"
    by (simp_all add: wrap_u64_def)
  ultimately show ?case
    using "2.prems" "2.IH" by (auto simp: Let_def maxSummarySources_def split: if_splits)
qed auto

lemma Summary_length:
  assumes "counters_ok c"
  shows "length (Summary c) < 1024"
proof -
  obtain parts rest where pr: "summary_loop c (ct_sources c) [] 0 = (parts, rest)" by force
  have b: "length parts \<le> 10" "\<forall>p \<in> set parts. length p \<le> 88" "0 \<le> rest" "rest < 2 ^ 64"
    using summary_loop_bounds [OF assms _ _ _ _ _ pr] assms by (auto simp: counters_ok_def list_all_iff)
  let ?ps = "if rest > 0 then parts @ [''remaining sources'' @ times_sign @ Itoa rest] else parts"
  have last: "length (''remaining sources'' @ times_sign @ Itoa rest) \<le> 41"
    using length_Itoa [of rest 20] b(3,4) by (simp add: times_sign_def)
  have "sum_list (map length parts) \<le> 88 * length parts"
    using b(2) by (induction parts) auto
  with b(1) last have "sum_list (map length ?ps) \<le> 880 + 41" and "length ?ps \<le> 11" by auto
  with length_Join [of "''; ''" ?ps] have "length (Join ''; '' ?ps) \<le> 941" by simp
  then show ?thesis by (simp add: Summary_def pr Let_def)
qed

text \<open>The rejection counters have fixed dimensions and a bounded summary. Starting from the
  configured sources, whatever source names the events carry, the keys never change, every
  rejection is counted on exactly one of them (an unknown source on \<open>other\<close>), and the heartbeat
  summary stays below 1 KiB.\<close>

theorem counters_bounded:
  "let c = fold Inc names (NewCounters ss) in
     map fst (ct_data c) = map fst (ct_data (NewCounters ss)) \<and> length (Summary c) < 1024 \<and>
     (\<forall>s t. count_of (Inc s c) t = (if t = counted_as s c then wrap_u64 (count_of c t + 1) else count_of c t))"
proof -
  have "counters_ok (fold Inc names d) \<and> map fst (ct_data (fold Inc names d)) = map fst (ct_data d)"
    if "counters_ok d" for d
    using that
  proof (induction names arbitrary: d)
    case (Cons n ns)
    from Cons.IH [OF Inc_ok [OF Cons.prems], of n] Inc_keys [OF Cons.prems, of n] show ?case by simp
  qed simp
  from this [OF NewCounters_ok] Summary_length show ?thesis by (simp add: Let_def count_Inc)
qed

text \<open>The verdict of the allowlist, without the early exits.\<close>

lemma Allow_iff:
  "snd (Allow (Some s) vars) \<longleftrightarrow> (case src_LogPolicy s of None \<Rightarrow> True
     | Some lp \<Rightarrow> var vars (if lp_Field lp = [] then ''service'' else lp_Field lp) \<in> set (lp_Services lp))"
  by (auto simp: Allow_def Let_def list_ex_iff split: option.splits)

lemma map_fst_Redact [simp]: "map fst (Redact L src vars) = map fst vars"
  by (auto simp: Redact_def case_prod_unfold comp_def split: option.splits)

end
