(* ===== verification/Go_Time.thy ===== *)
theory Go_Time
  imports Prelude
begin

text \<open>
  Go's \<^verbatim>\<open>time.Parse\<close> on the layouts the store reads old timestamps with and on those of
  \<^verbatim>\<open>http.ParseTime\<close>, in a process whose local zone is UTC. A layout is the list of the
  elements \<^verbatim>\<open>nextStdChunk\<close> splits it into; the parser consumes the value element by element, and the
  calendar date is then validated and turned into nanoseconds since the epoch.
\<close>

text \<open>\<open>strconv.ParseInt(s, 10, 64)\<close>: an optional sign and decimal digits, in range.\<close>

definition parse_digits :: "string \<Rightarrow> int option" where
  "parse_digits s = (if s \<noteq> [] \<and> list_all is_digit s then Some (undigits 0 s) else None)"

definition ParseInt :: "string \<Rightarrow> int option" where
  "ParseInt s =
     (case (case s of
              c # cs \<Rightarrow> if c = CHR ''-'' then map_option uminus (parse_digits cs)
                        else if c = CHR ''+'' then parse_digits cs else parse_digits s
            | [] \<Rightarrow> None) of
        Some n \<Rightarrow> if - (2 ^ 63) \<le> n \<and> n \<le> max_int64 then Some n else None
      | None \<Rightarrow> None)"

section \<open>Layouts\<close>

datatype chunk =
  Prefix string | stdWeekDay | stdLongWeekDay | stdMonth | stdUnderDay | stdYear | stdLongYear | stdZeroMonth | stdZeroDay | stdHour | stdZeroMinute | stdZeroSecond
| stdFracSecond9 | stdISO8601ColonTZ | stdNumColonTZ | stdNumTZ | stdTZ

record ptime =
  pt_year :: int
  pt_month :: int
  pt_day :: int
  pt_hour :: int
  pt_min :: int
  pt_sec :: int
  pt_nsec :: int
  pt_utc :: bool
  pt_offset :: int

definition no_ptime :: ptime where
  "no_ptime = \<lparr>pt_year = 0, pt_month = 1, pt_day = 1, pt_hour = 0, pt_min = 0, pt_sec = 0, pt_nsec = 0, pt_utc = False, pt_offset = 0\<rparr>"

section \<open>Elements\<close>

definition digit_at :: "string \<Rightarrow> nat \<Rightarrow> bool" where
  "digit_at s i \<longleftrightarrow> i < length s \<and> is_digit (s ! i)"

definition commaOrPeriod :: "char \<Rightarrow> bool" where
  "commaOrPeriod c \<longleftrightarrow> c = CHR ''.'' \<or> c = CHR '',''"

definition cutspace :: "string \<Rightarrow> string" where
  "cutspace = dropWhile (\<lambda>c. c = CHR '' '')"

function skip :: "string \<Rightarrow> string \<Rightarrow> string option" where
  "skip v [] = Some v"
| "skip v (c # cs) =
     (if c = CHR '' '' then if v \<noteq> [] \<and> hd v \<noteq> CHR '' '' then None else skip (cutspace v) (cutspace cs)
      else if v = [] \<or> hd v \<noteq> c then None else skip (tl v) cs)"
  by pat_completeness auto
termination
  by (relation "measure (length \<circ> snd)") (auto simp: cutspace_def less_Suc_eq_le length_dropWhile_le)

definition getnum :: "bool \<Rightarrow> string \<Rightarrow> (int \<times> string) option" where
  "getnum fixed s =
     (if \<not> digit_at s 0 then None
      else if \<not> digit_at s 1 then if fixed then None else Some (undigits 0 (take 1 s), drop 1 s)
      else Some (undigits 0 (take 2 s), drop 2 s))"

text \<open>A fraction \<open>.d\<close> with at least one digit: the nanoseconds of its first nine digits, and the bytes used.\<close>

definition fraction :: "string \<Rightarrow> (int \<times> nat) option" where
  "fraction v =
     (if length v \<ge> 2 \<and> commaOrPeriod (hd v) \<and> digit_at v 1
      then let ds = takeWhile is_digit (tl v); used = take 9 ds
           in Some (undigits 0 used * 10 ^ (9 - length used), 1 + length ds)
      else None)"

definition zone_offset :: "bool \<Rightarrow> string \<Rightarrow> (int \<times> string) option" where
  "zone_offset colon v =
     (let n = (if colon then 6 else 5); mm = (if colon then take 2 (drop 4 v) else take 2 (drop 3 v)) in
      if length v < n \<or> (colon \<and> v ! 3 \<noteq> CHR '':'') then None
      else case (getnum True (take 2 (drop 1 v)), getnum True mm) of
        (Some (h, _), Some (m, _)) \<Rightarrow>
          if h > 24 \<or> m > 60 then None
          else if hd v = CHR ''+'' then Some ((h * 60 + m) * 60, drop n v)
          else if hd v = CHR ''-'' then Some (- ((h * 60 + m) * 60), drop n v)
          else None
      | _ \<Rightarrow> None)"

definition parseSignedOffset :: "string \<Rightarrow> nat" where
  "parseSignedOffset v =
     (if v \<noteq> [] \<and> (hd v = CHR ''+'' \<or> hd v = CHR ''-'')
      then let ds = takeWhile is_digit (tl v) in if ds = [] \<or> undigits 0 ds > 23 then 0 else 1 + length ds
      else 0)"

definition parseTimeZone :: "string \<Rightarrow> nat option" where
  "parseTimeZone v =
     (let upper = length (takeWhile (\<lambda>c. 65 \<le> (of_char c :: int) \<and> (of_char c :: int) \<le> 90) (take 6 v)) in
      if length v < 3 then None
      else if take 4 v = ''ChST'' \<or> take 4 v = ''MeST'' then Some 4
      else if take 3 v = ''GMT'' then Some (3 + parseSignedOffset (drop 3 v))
      else if hd v = CHR ''+'' \<or> hd v = CHR ''-''
      then let n = parseSignedOffset v in if n > 0 then Some n else None
      else if upper = 5 then if v ! 4 = CHR ''T'' then Some 5 else None
      else if upper = 4 then if v ! 3 = CHR ''T'' \<or> take 4 v = ''WITA'' then Some 4 else None
      else if upper = 3 then Some 3 else None)"

text \<open>\<open>lookup\<close>: the position of the first name the value starts with, in any case.\<close>

definition dayNames :: "string list" where
  "dayNames = [''Sunday'', ''Monday'', ''Tuesday'', ''Wednesday'', ''Thursday'', ''Friday'', ''Saturday'']"

definition shortMonthNames :: "string list" where
  "shortMonthNames = [''Jan'', ''Feb'', ''Mar'', ''Apr'', ''May'', ''Jun'', ''Jul'', ''Aug'', ''Sep'', ''Oct'', ''Nov'', ''Dec'']"

fun lookup_name :: "string list \<Rightarrow> string \<Rightarrow> (int \<times> string) option" where
  "lookup_name [] v = None"
| "lookup_name (n # ns) v =
     (if HasPrefix (ToLower v) (ToLower n) then Some (0, drop (length n) v)
      else map_option (\<lambda>(i, r). (i + 1, r)) (lookup_name ns v))"

text \<open>A two-digit year is of the years 1969 to 2068.\<close>

definition short_year :: "int \<Rightarrow> int" where
  "short_year y = (if 69 \<le> y then y + 1900 else y + 2000)"

section \<open>Parsing\<close>

definition in_range :: "int \<Rightarrow> int \<Rightarrow> (int \<times> string) option \<Rightarrow> (int \<Rightarrow> ptime) \<Rightarrow> (string \<times> ptime) option" where
  "in_range lo hi r upd = (case r of Some (n, v) \<Rightarrow> if lo \<le> n \<and> n \<le> hi then Some (v, upd n) else None | None \<Rightarrow> None)"

text \<open>After the seconds a fraction is accepted even if the layout has none.\<close>

definition extra_fraction :: "chunk list \<Rightarrow> string \<times> ptime \<Rightarrow> string \<times> ptime" where
  "extra_fraction rest = (\<lambda>(v, p).
     (if rest \<noteq> [] \<and> hd rest = stdFracSecond9 then (v, p)
      else case fraction v of None \<Rightarrow> (v, p) | Some (ns, k) \<Rightarrow> (drop k v, p\<lparr>pt_nsec := ns\<rparr>)))"

fun parse_chunk :: "chunk \<Rightarrow> chunk list \<Rightarrow> string \<Rightarrow> ptime \<Rightarrow> (string \<times> ptime) option" where
  "parse_chunk (Prefix pre) rest v p = map_option (\<lambda>v'. (v', p)) (skip v pre)"
| "parse_chunk stdWeekDay rest v p = map_option (\<lambda>(_, v'). (v', p)) (lookup_name (map (take 3) dayNames) v)"
| "parse_chunk stdLongWeekDay rest v p = map_option (\<lambda>(_, v'). (v', p)) (lookup_name dayNames v)"
| "parse_chunk stdMonth rest v p = map_option (\<lambda>(i, v'). (v', p\<lparr>pt_month := i + 1\<rparr>)) (lookup_name shortMonthNames v)"
| "parse_chunk stdUnderDay rest v p =
     in_range 0 99 (getnum False (if v \<noteq> [] \<and> hd v = CHR '' '' then tl v else v)) (\<lambda>n. p\<lparr>pt_day := n\<rparr>)"
| "parse_chunk stdYear rest v p =
     (if length v < 2 then None else map_option (\<lambda>y. (drop 2 v, p\<lparr>pt_year := short_year y\<rparr>)) (ParseInt (take 2 v)))"
| "parse_chunk stdLongYear rest v p =
     (if length v < 4 then None else map_option (\<lambda>y. (drop 4 v, p\<lparr>pt_year := y\<rparr>)) (parse_digits (take 4 v)))"
| "parse_chunk stdZeroMonth rest v p = in_range 1 12 (getnum True v) (\<lambda>n. p\<lparr>pt_month := n\<rparr>)"
| "parse_chunk stdZeroDay rest v p = in_range 0 99 (getnum True v) (\<lambda>n. p\<lparr>pt_day := n\<rparr>)"
| "parse_chunk stdHour rest v p = in_range 0 23 (getnum False v) (\<lambda>n. p\<lparr>pt_hour := n\<rparr>)"
| "parse_chunk stdZeroMinute rest v p = in_range 0 59 (getnum True v) (\<lambda>n. p\<lparr>pt_min := n\<rparr>)"
| "parse_chunk stdZeroSecond rest v p =
     map_option (extra_fraction rest) (in_range 0 59 (getnum True v) (\<lambda>n. p\<lparr>pt_sec := n\<rparr>))"
| "parse_chunk stdFracSecond9 rest v p =
     Some (case fraction v of None \<Rightarrow> (v, p) | Some (ns, k) \<Rightarrow> (drop k v, p\<lparr>pt_nsec := ns\<rparr>))"
| "parse_chunk stdISO8601ColonTZ rest v p =
     (if v \<noteq> [] \<and> hd v = CHR ''Z'' then Some (tl v, p\<lparr>pt_utc := True\<rparr>)
      else map_option (\<lambda>(z, v'). (v', p\<lparr>pt_offset := z\<rparr>)) (zone_offset True v))"
| "parse_chunk stdNumColonTZ rest v p = map_option (\<lambda>(z, v'). (v', p\<lparr>pt_offset := z\<rparr>)) (zone_offset True v)"
| "parse_chunk stdNumTZ rest v p = map_option (\<lambda>(z, v'). (v', p\<lparr>pt_offset := z\<rparr>)) (zone_offset False v)"
| "parse_chunk stdTZ rest v p =
     (if take 3 v = ''UTC'' then Some (drop 3 v, p\<lparr>pt_utc := True\<rparr>)
      else map_option (\<lambda>n. (drop n v, p)) (parseTimeZone v))"

fun parse_chunks :: "chunk list \<Rightarrow> string \<Rightarrow> ptime \<Rightarrow> ptime option" where
  "parse_chunks [] v p = (if v = [] then Some p else None)"
| "parse_chunks (c # cs) v p =
     (case parse_chunk c cs v p of None \<Rightarrow> None | Some (v', p') \<Rightarrow> parse_chunks cs v' p')"

section \<open>Calendar\<close>

definition isLeap :: "int \<Rightarrow> bool" where
  "isLeap y \<longleftrightarrow> y mod 4 = 0 \<and> (y mod 100 \<noteq> 0 \<or> y mod 400 = 0)"

definition month_days :: "int \<Rightarrow> int list" where
  "month_days y = [31, if isLeap y then 29 else 28, 31, 30, 31, 30, 31, 31, 30, 31, 30, 31]"

definition daysIn :: "int \<Rightarrow> int \<Rightarrow> int" where
  "daysIn m y = month_days y ! nat (m - 1)"

text \<open>Days from 1970-01-01 to the first of January of a year.\<close>

definition year_days :: "int \<Rightarrow> int" where
  "year_days y = (let n = y - 1 in 365 * n + n div 4 - n div 100 + n div 400 - 719162)"

definition unix_days :: "int \<Rightarrow> int \<Rightarrow> int \<Rightarrow> int" where
  "unix_days y m d = year_days y + sum_list (take (nat (m - 1)) (month_days y)) + (d - 1)"

definition Date :: "ptime \<Rightarrow> gtime" where
  "Date p = (((unix_days (pt_year p) (pt_month p) (pt_day p) * 24 + pt_hour p) * 60 + pt_min p) * 60 + pt_sec p) * Second + pt_nsec p"

definition time_Parse :: "chunk list \<Rightarrow> string \<Rightarrow> gtime option" where
  "time_Parse layout value =
     (case parse_chunks layout value no_ptime of
        None \<Rightarrow> None
      | Some p \<Rightarrow>
          if pt_day p < 1 \<or> pt_day p > daysIn (pt_month p) (pt_year p) then None
          else Some (if pt_utc p then Date p else Date p - pt_offset p * Second))"

lemma div_step:
  fixes y k :: int
  assumes "0 < k"
  shows "y div k = (y - 1) div k + (if y mod k = 0 then 1 else 0)"
proof (cases "y mod k = 0")
  case True
  have "y - 1 = k * (y div k - 1) + (k - 1)" using True mult_div_mod_eq [of k y] by (simp add: right_diff_distrib)
  then have "(y - 1) div k = y div k - 1" using assms by (intro int_div_pos_eq [of _ _ _ "k - 1"]) auto
  with True show ?thesis by simp
next
  case False
  have "0 \<le> y mod k" "y mod k < k" using assms by auto
  moreover have "y - 1 = k * (y div k) + (y mod k - 1)" by simp
  ultimately have "(y - 1) div k = y div k" using False by (intro int_div_pos_eq [of _ _ _ "y mod k - 1"]) linarith+
  with False show ?thesis by simp
qed

lemma mod_multiple: "(y :: int) mod (k * m) = 0 \<Longrightarrow> y mod k = 0"
  by (metis dvd_mult_left mod_0_imp_dvd mod_eq_0_iff_dvd)

lemma year_days_step: "year_days (y + 1) = year_days y + sum_list (month_days y)"
proof -
  define leap where "leap k = (if y mod k = 0 then 1 else 0 :: int)" for k
  have imp: "y mod 100 = 0 \<Longrightarrow> y mod 4 = 0" "y mod 400 = 0 \<Longrightarrow> y mod 100 = 0"
    using mod_multiple [of y 4 25] mod_multiple [of y 100 4] by simp_all
  have len: "sum_list (month_days y) = 365 + (if isLeap y then 1 else 0)" by (simp add: month_days_def)
  have "(if isLeap y then 1 else 0) = leap 4 - leap 100 + leap 400"
    unfolding isLeap_def leap_def
    using imp by (cases "y mod 4 = 0"; cases "y mod 100 = 0"; cases "y mod 400 = 0") (simp_all only: if_True if_False simp_thms diff_self diff_0_right add_0)
  moreover have "year_days (y + 1) = year_days y + 365 + (y div 4 - (y - 1) div 4) - (y div 100 - (y - 1) div 100) +
      (y div 400 - (y - 1) div 400)"
    by (simp only: year_days_def Let_def add_diff_cancel_right' right_diff_distrib distrib_left)
  moreover have "y div k - (y - 1) div k = leap k" if "0 < k" for k
    using div_step [OF that, of y] by (simp only: leap_def add_diff_cancel_left')
  ultimately show ?thesis by (simp add: len)
qed

lemma epoch_day: "unix_days 1970 1 1 = 0"
  by code_simp

section \<open>HTTP dates\<close>

definition http_formats :: "chunk list list" where
  "http_formats =
     (let clock = [stdHour, Prefix '':'', stdZeroMinute, Prefix '':'', stdZeroSecond]; blank = Prefix '' '' in
      [[stdWeekDay, Prefix '', '', stdZeroDay, blank, stdMonth, blank, stdLongYear, blank] @ clock @ [Prefix '' GMT''],
       [stdLongWeekDay, Prefix '', '', stdZeroDay, Prefix ''-'', stdMonth, Prefix ''-'', stdYear, blank] @ clock @ [blank, stdTZ],
       [stdWeekDay, blank, stdMonth, blank, stdUnderDay, blank] @ clock @ [blank, stdLongYear]])"

fun parse_any :: "chunk list list \<Rightarrow> string \<Rightarrow> gtime option" where
  "parse_any [] v = None"
| "parse_any (l # ls) v = (case time_Parse l v of Some t \<Rightarrow> Some t | None \<Rightarrow> parse_any ls v)"

definition http_ParseTime :: "string \<Rightarrow> gtime option" where
  "http_ParseTime v = parse_any http_formats v"

text \<open>The three forms of one date in RFC 9110.\<close>

lemma http_date_forms:
  "map http_ParseTime [''Sun, 06 Nov 1994 08:49:37 GMT'', ''Sunday, 06-Nov-94 08:49:37 GMT'', ''Sun Nov  6 08:49:37 1994'', ''tomorrow''] =
     [Some (784111777 * Second), Some (784111777 * Second), Some (784111777 * Second), None]"
  by code_simp

end
