(* ===== verification/Handler_Errors.thy ===== *)
theory Handler_Errors
  imports Config Go_Time
begin

text \<open>
  Action errors and their classification (\<^verbatim>\<open>internal/handler/errors.go\<close>), the capped output
  buffer and the minimal environment of exec actions (\<^verbatim>\<open>internal/handler/exec.go\<close>). A Go error
  value is a chain: a leaf, wrapped zero or more times by \<^verbatim>\<open>fmt.Errorf("...%w")\<close>;
  \<^verbatim>\<open>errors.Is\<close> and \<^verbatim>\<open>errors.As\<close> walk the chain from the outside in.
\<close>

section \<open>Errors\<close>

record HTTPError =
  he_Status :: int
  he_Body :: string
  he_RetryAfter :: duration

datatype goerr =
  ErrNonRetryable
| CtxCanceled
| CtxDeadlineExceeded
| HTTPErr HTTPError
| Opaque string
| Wrap string goerr string \<comment> \<open>text before and after the wrapped error\<close>

fun Error_text :: "goerr \<Rightarrow> string" where
  "Error_text ErrNonRetryable = ''non-retryable''"
| "Error_text CtxCanceled = ''context canceled''"
| "Error_text CtxDeadlineExceeded = ''context deadline exceeded''"
| "Error_text (HTTPErr e) = ''http status '' @ Itoa (he_Status e) @ '': '' @ he_Body e"
| "Error_text (Opaque s) = s"
| "Error_text (Wrap pre e post) = pre @ Error_text e @ post"

definition retryable :: "HTTPError \<Rightarrow> bool" where
  "retryable e \<longleftrightarrow> he_Status e = 408 \<or> he_Status e = 429 \<or> he_Status e \<ge> 500"

fun errors_Is_NonRetryable :: "goerr \<Rightarrow> bool" where
  "errors_Is_NonRetryable ErrNonRetryable = True"
| "errors_Is_NonRetryable (HTTPErr e) = (\<not> retryable e)"
| "errors_Is_NonRetryable (Wrap _ e _) = errors_Is_NonRetryable e"
| "errors_Is_NonRetryable _ = False"

fun errors_Is_Canceled :: "goerr \<Rightarrow> bool" where
  "errors_Is_Canceled CtxCanceled = True"
| "errors_Is_Canceled (Wrap _ e _) = errors_Is_Canceled e"
| "errors_Is_Canceled _ = False"

fun errors_As_HTTPError :: "goerr \<Rightarrow> HTTPError option" where
  "errors_As_HTTPError (HTTPErr e) = Some e"
| "errors_As_HTTPError (Wrap _ e _) = errors_As_HTTPError e"
| "errors_As_HTTPError _ = None"

definition IsNonRetryable :: "goerr option \<Rightarrow> bool" where
  "IsNonRetryable err =
     (case err of
        None \<Rightarrow> False
      | Some e \<Rightarrow> if errors_Is_NonRetryable e then True
                  else case errors_As_HTTPError e of Some he \<Rightarrow> \<not> retryable he | None \<Rightarrow> False)"

definition RetryAfter :: "goerr \<Rightarrow> duration" where
  "RetryAfter err =
     (case errors_As_HTTPError err of
        Some he \<Rightarrow> if he_RetryAfter he > 0 then he_RetryAfter he else 0
      | None \<Rightarrow> 0)"

section \<open>Retry-After\<close>

text \<open>\<open>time.Time.Sub\<close> saturates at the ends of the 64-bit range.\<close>

definition time_Sub :: "gtime \<Rightarrow> gtime \<Rightarrow> duration" where
  "time_Sub t u = max (- (2 ^ 63)) (min max_int64 (t - u))"

definition ParseRetryAfter :: "string \<Rightarrow> gtime \<Rightarrow> duration" where
  "ParseRetryAfter raw0 now =
     (let raw = TrimSpace raw0 in
      if raw = [] then 0
      else case ParseInt raw of
        Some sec \<Rightarrow>
          if sec \<le> 0 then 0
          else if sec > max_int64 div Second then max_int64
          else wrap64 (sec * Second)
      | None \<Rightarrow>
          (case http_ParseTime raw of
             Some t \<Rightarrow> let d = time_Sub t now in if d \<le> 0 then 0 else d
           | None \<Rightarrow> 0))"

section \<open>Exec output and environment\<close>

record cappedWriter =
  cw_limit :: nat
  cw_buf :: string
  cw_n :: nat

definition maxExecOutput :: nat where "maxExecOutput = 8192"

definition Write :: "string \<Rightarrow> cappedWriter \<Rightarrow> nat \<times> cappedWriter" where
  "Write p w =
     (let orig = length p; w1 = w\<lparr>cw_n := cw_n w + orig\<rparr>
      in if length (cw_buf w) \<ge> cw_limit w then (orig, w1)
         else (orig, w1\<lparr>cw_buf := cw_buf w @ take (cw_limit w - length (cw_buf w)) p\<rparr>))"

definition cappedWriter_String :: "cappedWriter \<Rightarrow> string" where
  "cappedWriter_String w = (if cw_n w > cw_limit w then cw_buf w @ ''...(truncated)'' else cw_buf w)"

definition minimalExecEnv :: "(string \<Rightarrow> string option) \<Rightarrow> string list" where
  "minimalExecEnv lookup =
     (let env = List.map_filter (\<lambda>k. map_option (\<lambda>v. k @ ''='' @ v) (lookup k))
                  [''PATH'', ''LANG'', ''LC_ALL'', ''HOME'', ''TMPDIR'', ''TZ'']
      in if env = [] then [''PATH=/usr/bin:/bin''] else env)"

section \<open>Properties\<close>

lemma IsNonRetryable_iff:
  "IsNonRetryable (Some e) \<longleftrightarrow> errors_Is_NonRetryable e"
  by (induction e rule: errors_Is_NonRetryable.induct) (auto simp: IsNonRetryable_def)

text \<open>The server's Retry-After is never shortened, stretched or turned negative: for a decimal
  value the delay is that many seconds, capped at the largest duration instead of wrapping
  around; for anything unparsable or in the past it is zero; it always fits a 64-bit duration.\<close>

theorem retry_after_no_overflow:
  "0 \<le> ParseRetryAfter raw now \<and> ParseRetryAfter raw now \<le> max_int64 \<and>
   (\<forall>sec. ParseInt (TrimSpace raw) = Some sec \<longrightarrow>
      ParseRetryAfter raw now = (if sec \<le> 0 then 0 else min max_int64 (sec * Second)))"
proof -
  have wrap: "wrap64 (sec * Second) = sec * Second \<and> sec * Second \<le> max_int64"
    if "0 < sec" "sec \<le> max_int64 div Second" for sec
  proof -
    have "sec * Second \<le> max_int64" using that(2) by (simp add: max_int64_def)
    with that(1) show ?thesis by (simp add: wrap64_id max_int64_def)
  qed
  have sat: "min max_int64 (sec * Second) = max_int64" if "sec > max_int64 div Second" for sec
    using that by (simp add: max_int64_def)
  have pos: "0 \<le> max_int64" by (simp add: max_int64_def)
  have rng: "0 \<le> ParseRetryAfter raw now \<and> ParseRetryAfter raw now \<le> max_int64"
    using wrap pos by (auto simp: ParseRetryAfter_def Let_def time_Sub_def split: option.splits)
  have empty: "ParseInt [] = None" by (simp add: ParseInt_def)
  have "ParseRetryAfter raw now = (if sec \<le> 0 then 0 else min max_int64 (sec * Second))"
    if "ParseInt (TrimSpace raw) = Some sec" for sec
    using that wrap [of sec] sat [of sec] empty by (auto simp: ParseRetryAfter_def Let_def)
  with rng show ?thesis by blast
qed

theorem retry_after_no_overflow_witness:
  "ParseRetryAfter ''99999999999999'' 0 = max_int64 \<and> ParseRetryAfter '' 120 '' 0 = 120 * Second"
proof -
  have "ParseInt (TrimSpace ''99999999999999'') = Some 99999999999999" "ParseInt (TrimSpace '' 120 '') = Some 120"
    by code_simp+
  with retry_after_no_overflow [of "''99999999999999''" 0] retry_after_no_overflow [of "'' 120 ''" 0]
  show ?thesis by (simp add: max_int64_def)
qed

definition writes :: "string list \<Rightarrow> cappedWriter \<Rightarrow> cappedWriter" where
  "writes ps w = fold (\<lambda>p w. snd (Write p w)) ps w"

lemma writes_state:
  "writes ps \<lparr>cw_limit = n, cw_buf = take n s, cw_n = length s\<rparr> =
     \<lparr>cw_limit = n, cw_buf = take n (s @ concat ps), cw_n = length (s @ concat ps)\<rparr>"
proof (induction ps arbitrary: s)
  case (Cons p ps)
  have "snd (Write p \<lparr>cw_limit = n, cw_buf = take n s, cw_n = length s\<rparr>) =
      \<lparr>cw_limit = n, cw_buf = take n (s @ p), cw_n = length (s @ p)\<rparr>"
    by (auto simp: Write_def Let_def min_def)
  with Cons.IH [of "s @ p"] show ?case by (simp add: writes_def)
qed (simp add: writes_def)

text \<open>However the process splits its writes, the buffer holds exactly the first \<open>limit\<close> bytes, every
  write reports full success, and the truncation mark appears exactly when something was dropped.\<close>

lemma exec_output_is_prefix:
  "cappedWriter_String (writes ps \<lparr>cw_limit = n, cw_buf = [], cw_n = 0\<rparr>) =
     (if length (concat ps) > n then take n (concat ps) @ ''...(truncated)'' else concat ps) \<and>
   length (cw_buf (writes ps \<lparr>cw_limit = n, cw_buf = [], cw_n = 0\<rparr>)) \<le> n \<and>
   fst (Write p w) = length p"
  using writes_state [of ps n "[]"] by (auto simp: cappedWriter_String_def Write_def Let_def)

end
