(* ===== verification/Url_Policy.thy ===== *)
theory Url_Policy
  imports Go_Url_Parse "HOL-Library.Sublist"
begin

text \<open>
  The egress policy for HTTP actions (\<^verbatim>\<open>internal/handler/urlpolicy.go\<close>): which destinations a
  request may go to. The check parses the string it is given with \<open>url_Parse\<close>, so it is a function of
  that string alone.
\<close>

datatype url_err =
  InvalidURL | UserinfoNotAllowed | SchemeNotAllowed string | InvalidPathEncoding | AmbiguousPath
| EncodedSeparators | InvalidHost | InvalidIP | HostBlocked string | IPBlocked IP | PrivateIP IP | HTTPSOnly string
| NotInAllowlist

section \<open>Operations\<close>

definition normalizeHostname :: "string \<Rightarrow> string" where
  "normalizeHostname host = TrimSuffix (ToLower (TrimSpace host)) ''.''"

definition isBlockedHostname :: "string \<Rightarrow> bool" where
  "isBlockedHostname host =
     (let h = normalizeHostname host in
      h = ''localhost'' \<or> h = ''metadata.google.internal'' \<or> h = ''metadata.azure.internal'' \<or>
      HasSuffix h ''.localhost'')"

definition validateDestinationIP :: "IP option \<Rightarrow> bool \<Rightarrow> url_err option" where
  "validateDestinationIP ip0 allowPrivate =
     (case ip0 of
        None \<Rightarrow> Some InvalidIP
      | Some ip \<Rightarrow>
          if IsLoopback ip \<or> IsLinkLocalUnicast ip \<or> IsLinkLocalMulticast ip \<or> IsUnspecified ip \<or> IsMulticast ip
          then Some (IPBlocked ip)
          else if IsPrivate ip \<and> \<not> allowPrivate then Some (PrivateIP ip)
          else None)"

definition effectivePort :: "url \<Rightarrow> string" where
  "effectivePort u =
     (let p = Port u; scheme = ToLower (u_Scheme u) in
      if p \<noteq> [] then p else if scheme = ''https'' then ''443'' else if scheme = ''http'' then ''80'' else [])"

fun containsPercentEscape :: "string \<Rightarrow> bool" where
  "containsPercentEscape (a # b # c # rest) =
     ((a = CHR ''%'' \<and> isHexDigit b \<and> isHexDigit c) \<or> containsPercentEscape (b # c # rest))"
| "containsPercentEscape _ = False"

text \<open>The check of one escaped segment: nothing decodes to a separator or to a dot segment.\<close>

definition segment_err :: "string \<Rightarrow> url_err option" where
  "segment_err segment =
     (case PathUnescape segment of
        None \<Rightarrow> Some InvalidPathEncoding
      | Some value \<Rightarrow>
          if CHR ''/'' \<in> set value \<or> ((value = ''.'' \<or> value = ''..'') \<and> segment \<noteq> value)
          then Some EncodedSeparators else None)"

fun segments_err :: "string list \<Rightarrow> url_err option" where
  "segments_err [] = None"
| "segments_err (s # ss) = (case segment_err s of Some e \<Rightarrow> Some e | None \<Rightarrow> segments_err ss)"

definition rooted :: "string \<Rightarrow> string" where
  "rooted p = Clean (''/'' @ TrimPrefix p ''/'')"

definition canonicalURLPath :: "url \<Rightarrow> url_err + string" where
  "canonicalURLPath u =
     (let escaped = EscapedPath u in
      case PathUnescape escaped of
        None \<Rightarrow> Inl InvalidPathEncoding
      | Some decoded \<Rightarrow>
          if CHR 0x5C \<in> set decoded \<or> containsPercentEscape decoded then Inl AmbiguousPath
          else (case segments_err (Split CHR ''/'' escaped) of
                  Some e \<Rightarrow> Inl e
                | None \<Rightarrow> Inr (rooted decoded)))"

definition pathPrefixMatch :: "string \<Rightarrow> string \<Rightarrow> bool" where
  "pathPrefixMatch got0 prefix0 =
     (if prefix0 = [] \<or> prefix0 = ''/'' then True
      else let got = rooted got0; prefix = rooted prefix0
           in got = prefix \<or> HasPrefix got (TrimSuffix prefix ''/'' @ ''/''))"

definition matchAllowlistEntry :: "url \<Rightarrow> string \<Rightarrow> string \<Rightarrow> bool" where
  "matchAllowlistEntry u canonicalPath entry =
     (if entry = [] then False
      else case ParseCIDR entry of
        Some network \<Rightarrow> (case ParseIP (Hostname u) of Some ip \<Rightarrow> net_Contains network ip | None \<Rightarrow> False)
      | None \<Rightarrow>
          if Contains entry ''://'' then
            (case url_Parse entry of
               None \<Rightarrow> False
             | Some allowed \<Rightarrow>
                 if u_Scheme allowed = [] \<or> u_Host allowed = [] \<or> u_HasUser allowed \<or> u_RawQuery allowed \<noteq> [] \<or> u_Fragment allowed \<noteq> []
                 then False
                 else if \<not> EqualFold (u_Scheme u) (u_Scheme allowed) \<or>
                         normalizeHostname (Hostname u) \<noteq> normalizeHostname (Hostname allowed)
                 then False
                 else if effectivePort u \<noteq> effectivePort allowed then False
                 else (case canonicalURLPath allowed of
                         Inl _ \<Rightarrow> False
                       | Inr allowedPath \<Rightarrow> pathPrefixMatch canonicalPath allowedPath))
          else if EqualFold (u_Host u) entry then True
          else CHR '':'' \<notin> set entry \<and> normalizeHostname (Hostname u) = normalizeHostname entry \<and> Port u = [])"

definition ValidateURLDestinationWithPolicy :: "string \<Rightarrow> string list \<Rightarrow> bool \<Rightarrow> url_err option" where
  "ValidateURLDestinationWithPolicy raw allowlist allowPrivate =
     (case url_Parse raw of
        None \<Rightarrow> Some InvalidURL
      | Some u \<Rightarrow>
          if u_Scheme u = [] \<or> u_Host u = [] then Some InvalidURL
          else if u_HasUser u then Some UserinfoNotAllowed
          else let scheme = ToLower (u_Scheme u) in
            if scheme \<noteq> ''http'' \<and> scheme \<noteq> ''https'' then Some (SchemeNotAllowed scheme)
            else case canonicalURLPath u of
              Inl e \<Rightarrow> Some e
            | Inr canonicalPath \<Rightarrow>
                let host = normalizeHostname (Hostname u) in
                if host = [] then Some InvalidHost
                else if isBlockedHostname host then Some (HostBlocked host)
                else case (case ParseIP host of
                             Some ip \<Rightarrow> validateDestinationIP (Some ip) (allowPrivate \<and> allowlist \<noteq> [])
                           | None \<Rightarrow> None) of
                  Some e \<Rightarrow> Some e
                | None \<Rightarrow>
                    if allowlist = [] then
                      (if scheme \<noteq> ''https'' then Some (HTTPSOnly scheme) else None)
                    else if list_ex (\<lambda>entry. matchAllowlistEntry u canonicalPath (TrimSpace entry)) allowlist
                    then None else Some NotInAllowlist)"

definition ValidateURLDestination :: "string \<Rightarrow> string list \<Rightarrow> url_err option" where
  "ValidateURLDestination raw allowlist = ValidateURLDestinationWithPolicy raw allowlist False"

section \<open>Path prefixes are prefixes of segments\<close>

definition path_segments :: "string \<Rightarrow> string list" where
  "path_segments p = clean_segments [] (Split CHR ''/'' p)"

lemma path_segments_clean: "clean_path (path_segments p)"
  by (simp add: path_segments_def Clean_segments)

lemma Clean_def': "Clean p = CHR ''/'' # Join ''/'' (path_segments p)"
  by (simp add: Clean_def path_segments_def)

lemma path_segments_rooted: "path_segments (''/'' @ TrimPrefix p ''/'') = path_segments p"
proof (cases "HasPrefix p ''/''")
  case True
  then obtain q where "p = CHR ''/'' # q" by (auto simp: HasPrefix_iff)
  then show ?thesis by (simp add: TrimPrefix_def HasPrefix_def)
qed (simp add: TrimPrefix_def path_segments_def)

lemma path_segments_Join:
  assumes "clean_path segs"
  shows "path_segments (CHR ''/'' # Join ''/'' segs) = segs"
proof (cases segs)
  case (Cons w ws)
  have "Split CHR ''/'' (Join ''/'' segs) = segs"
    unfolding Cons by (rule Split_Join) (use assms Cons in \<open>auto simp: clean_path_def list_all_iff\<close>)
  with assms show ?thesis by (simp add: path_segments_def clean_segments_id)
qed (simp add: path_segments_def)

lemma path_segments_Clean: "path_segments (Clean p) = path_segments p"
  by (simp add: Clean_def' path_segments_Join path_segments_clean)

lemma rooted_eq: "rooted p = CHR ''/'' # Join ''/'' (path_segments p)"
  by (simp only: rooted_def Clean_def' path_segments_rooted)

lemma rooted_idem: "rooted (rooted p) = rooted p"
  by (simp add: rooted_eq path_segments_Join path_segments_clean)

lemma Join_snoc: "Join [c] (w # ws) @ c # x = Join [c] (w # ws @ [x])"
  by (induction ws arbitrary: w) auto

lemma Join_append: "ws \<noteq> [] \<Longrightarrow> vs \<noteq> [] \<Longrightarrow> Join [c] (ws @ vs) = Join [c] ws @ c # Join [c] vs"
proof (induction ws rule: induct_list012)
  case (2 w)
  then show ?case by (cases vs) auto
next
  case (3 w v ws)
  then show ?case by simp
qed simp

lemma clean_last: "clean_path (w # ws) \<Longrightarrow> Join ''/'' (w # ws) \<noteq> [] \<and> last (Join ''/'' (w # ws)) \<noteq> CHR ''/''"
proof (induction ws arbitrary: w)
  case Nil
  then show ?case by (auto simp: clean_path_def dest: last_in_set)
next
  case (Cons v ws)
  have "clean_path (v # ws)" using Cons.prems by (simp add: clean_path_def)
  with Cons.IH show ?case by simp
qed

lemma clean_Split: "clean_path (w # ws) \<Longrightarrow> Split CHR ''/'' (Join ''/'' (w # ws)) = w # ws"
  by (rule Split_Join) (auto simp: clean_path_def list_all_iff)

lemma TrimSuffix_absent: "s \<noteq> [] \<Longrightarrow> last s \<noteq> c \<Longrightarrow> TrimSuffix s [c] = s"
proof -
  assume "s \<noteq> []" "last s \<noteq> c"
  then obtain xs x where "s = xs @ [x]" "x \<noteq> c" by (metis append_butlast_last_id)
  then show ?thesis by (simp add: TrimSuffix_def HasSuffix_def HasPrefix_def)
qed

text \<open>The comparison of strings in \<open>pathPrefixMatch\<close> is a comparison of whole path segments.\<close>

lemma pathPrefixMatch_segments:
  "pathPrefixMatch got pre \<longleftrightarrow> Sublist.prefix (path_segments pre) (path_segments got)"
proof (cases "path_segments pre")
  case Nil
  have "TrimSuffix ''/'' ''/'' = []" by code_simp
  with Nil show ?thesis by (simp add: pathPrefixMatch_def rooted_eq HasPrefix_def)
next
  case (Cons w ws)
  define g where "g = path_segments got"
  note cg = path_segments_clean [of got, folded g_def] and cp = path_segments_clean [of pre, unfolded Cons]
  have root: "pre \<noteq> []" "pre \<noteq> ''/''" using Cons by (auto simp: path_segments_def)
  have "TrimSuffix (rooted pre) ''/'' = rooted pre"
    using clean_last [OF cp] by (intro TrimSuffix_absent) (simp_all add: rooted_eq Cons)
  then have match: "pathPrefixMatch got pre \<longleftrightarrow>
      Join ''/'' g = Join ''/'' (w # ws) \<or> (\<exists>t. Join ''/'' g = Join ''/'' (w # ws) @ CHR ''/'' # t)"
    using root by (simp add: pathPrefixMatch_def Let_def rooted_eq Cons HasPrefix_iff g_def [symmetric])
  show ?thesis
  proof
    assume "pathPrefixMatch got pre"
    with match consider "Join ''/'' g = Join ''/'' (w # ws)" | t where "Join ''/'' g = Join ''/'' (w # ws) @ CHR ''/'' # t" by blast
    then show "Sublist.prefix (path_segments pre) (path_segments got)"
    proof cases
      case 1
      with clean_last [OF cp] obtain v vs where g: "g = v # vs" by (cases g) auto
      with 1 cg cp have "v # vs = w # ws" by (metis clean_Split)
      with g show ?thesis by (simp add: Cons g_def)
    next
      case (2 t)
      then obtain v vs where g: "g = v # vs" by (cases g) auto
      have "v # vs = Split CHR ''/'' (Join ''/'' (w # ws) @ CHR ''/'' # t)" using 2 g cg by (metis clean_Split)
      also have "\<dots> = (w # ws) @ Split CHR ''/'' t" unfolding Split_append clean_Split [OF cp] ..
      finally show ?thesis using g by (simp add: Cons g_def)
    qed
  next
    assume "Sublist.prefix (path_segments pre) (path_segments got)"
    then obtain vs where "g = (w # ws) @ vs" by (auto simp: Sublist.prefix_def Cons g_def)
    then show "pathPrefixMatch got pre"
      unfolding match using Join_append [of "w # ws" vs "CHR ''/''"] by (cases vs) auto
  qed
qed

section \<open>Escapes do not hide separators\<close>

lemma PathUnescape_at_sep:
  "PathUnescape (x @ CHR ''/'' # y) =
     (case PathUnescape x of None \<Rightarrow> None | Some x' \<Rightarrow> map_option (\<lambda>y'. x' @ CHR ''/'' # y') (PathUnescape y))"
proof (induction x rule: PathUnescape.induct)
  case (2 c cs)
  show ?case
  proof (cases "c = CHR ''%''")
    case True
    have nohex: "\<not> isHexDigit CHR ''/''" by code_simp
    show ?thesis
    proof (cases cs)
      case Nil
      with True nohex show ?thesis by (cases y) auto
    next
      case (Cons h hs)
      note cs = Cons
      show ?thesis
      proof (cases hs)
        case Nil
        with True nohex cs show ?thesis by simp
      next
        case (Cons l rest)
        with 2 True cs show ?thesis
          by (auto split: option.splits simp: option.map_comp comp_def)
      qed
    qed
  next
    case False
    with 2 show ?thesis by (auto split: option.splits simp: option.map_comp comp_def)
  qed
qed simp

lemma PathUnescape_Join:
  "PathUnescape (Join ''/'' (w # ws)) = map_option (Join ''/'') (all_some (map PathUnescape (w # ws)))"
proof (induction ws arbitrary: w)
  case Nil
  then show ?case by (cases "PathUnescape w") auto
next
  case (Cons v ws)
  have ne: "all_some (map PathUnescape (v # ws)) = Some vs \<Longrightarrow> vs \<noteq> []" for vs by (auto simp: all_some_Some)
  show ?case
  proof (cases "PathUnescape w")
    case (Some w')
    have "Join ''/'' (w' # vs) = w' @ CHR ''/'' # Join ''/'' vs" if "vs \<noteq> []" for vs using that by (cases vs) auto
    moreover have "all_some (map PathUnescape (w # v # ws)) = map_option ((#) w') (all_some (map PathUnescape (v # ws)))"
      by (simp only: list.map Some all_some.simps)
    ultimately show ?thesis using Some Cons ne
      by (cases "all_some (map PathUnescape (v # ws))") (auto simp: PathUnescape_at_sep simp del: list.map)
  qed (simp add: PathUnescape_at_sep)
qed

lemma PathUnescape_segments:
  "PathUnescape s = map_option (Join ''/'') (all_some (map PathUnescape (Split CHR ''/'' s)))"
proof -
  obtain w ws where "Split CHR ''/'' s = w # ws" by (cases "Split CHR ''/'' s") auto
  with PathUnescape_Join [of w ws] Join_Split [of "CHR ''/''" s] show ?thesis by simp
qed

section \<open>Specification\<close>

text \<open>\<open>vs\<close> are the decoded segments of the path: no escape hides a separator or a dot segment, and
  decoding once leaves no backslash and no further escape.\<close>

definition honest_segment :: "string \<Rightarrow> string \<Rightarrow> bool" where
  "honest_segment seg v \<longleftrightarrow> PathUnescape seg = Some v \<and> CHR ''/'' \<notin> set v \<and> (v = ''.'' \<or> v = ''..'' \<longrightarrow> seg = v)"

definition honest_path :: "url \<Rightarrow> string list \<Rightarrow> bool" where
  "honest_path u vs \<longleftrightarrow> list_all2 honest_segment (Split CHR ''/'' (EscapedPath u)) vs \<and>
     list_all (\<lambda>v. CHR 0x5C \<notin> set v) vs \<and> \<not> containsPercentEscape (Join ''/'' vs)"

definition entry_allows :: "url \<Rightarrow> string list \<Rightarrow> string \<Rightarrow> bool" where
  "entry_allows u vs entry \<longleftrightarrow> entry \<noteq> [] \<and>
     (case ParseCIDR entry of
        Some network \<Rightarrow> (\<exists>ip. ParseIP (Hostname u) = Some ip \<and> net_Contains network ip)
      | None \<Rightarrow>
          if Contains entry ''://'' then
            (\<exists>a as. url_Parse entry = Some a \<and> u_Scheme a \<noteq> [] \<and> u_Host a \<noteq> [] \<and> \<not> u_HasUser a \<and> u_RawQuery a = [] \<and>
               u_Fragment a = [] \<and> EqualFold (u_Scheme u) (u_Scheme a) \<and>
               normalizeHostname (Hostname u) = normalizeHostname (Hostname a) \<and> effectivePort u = effectivePort a \<and>
               honest_path a as \<and> Sublist.prefix (clean_segments [] as) (clean_segments [] vs))
          else EqualFold (u_Host u) entry \<or>
               (CHR '':'' \<notin> set entry \<and> normalizeHostname (Hostname u) = normalizeHostname entry \<and> Port u = []))"

definition public_address :: "IP \<Rightarrow> bool" where
  "public_address ip \<longleftrightarrow> \<not> IsLoopback ip \<and> \<not> IsLinkLocalUnicast ip \<and> \<not> IsLinkLocalMulticast ip \<and> \<not> IsUnspecified ip \<and> \<not> IsMulticast ip"

definition destination_allowed :: "string \<Rightarrow> string list \<Rightarrow> bool \<Rightarrow> bool" where
  "destination_allowed raw allowlist allowPrivate \<longleftrightarrow>
     (\<exists>u vs. url_Parse raw = Some u \<and> u_Scheme u \<noteq> [] \<and> u_Host u \<noteq> [] \<and> \<not> u_HasUser u \<and>
        ToLower (u_Scheme u) \<in> {''http'', ''https''} \<and> honest_path u vs \<and>
        normalizeHostname (Hostname u) \<noteq> [] \<and> \<not> isBlockedHostname (normalizeHostname (Hostname u)) \<and>
        (\<forall>ip. ParseIP (normalizeHostname (Hostname u)) = Some ip \<longrightarrow>
           public_address ip \<and> (IsPrivate ip \<longrightarrow> allowPrivate \<and> allowlist \<noteq> [])) \<and>
        (allowlist = [] \<longrightarrow> ToLower (u_Scheme u) = ''https'') \<and>
        (allowlist \<noteq> [] \<longrightarrow> (\<exists>entry \<in> set allowlist. entry_allows u vs (TrimSpace entry))))"

section \<open>The code decides the specification\<close>

lemma segment_err_None: "segment_err seg = None \<longleftrightarrow> (\<exists>v. honest_segment seg v)"
  by (auto simp: segment_err_def honest_segment_def split: option.splits if_splits)

lemma segments_err_None: "segments_err ss = None \<longleftrightarrow> (\<exists>vs. list_all2 honest_segment ss vs)"
proof (induction ss)
  case (Cons s ss)
  have "segments_err (s # ss) = None \<longleftrightarrow> segment_err s = None \<and> segments_err ss = None" by (simp split: option.splits)
  then show ?case unfolding Cons.IH segment_err_None list_all2_Cons1 by blast
qed simp

lemma honest_segments_decode:
  "list_all2 honest_segment ss vs \<Longrightarrow> all_some (map PathUnescape ss) = Some vs \<and> list_all (\<lambda>v. CHR ''/'' \<notin> set v) vs"
  by (induction rule: list_all2_induct) (auto simp: honest_segment_def)

lemma set_Join: "set (Join sep ws) \<subseteq> \<Union> (set ` set ws) \<union> set sep" "\<Union> (set ` set ws) \<subseteq> set (Join sep ws)"
  by (induction sep ws rule: Join.induct) auto

lemma backslash_Join: "CHR 0x5C \<in> set (Join ''/'' vs) \<longleftrightarrow> \<not> list_all (\<lambda>v. CHR 0x5C \<notin> set v) vs"
  using set_Join [where ws = vs and sep = "''/''"] by (auto simp: list_all_iff)

lemma segments_of_decoded:
  assumes "list_all2 honest_segment ss vs" "ss \<noteq> []"
  shows "path_segments (Join ''/'' vs) = clean_segments [] vs"
proof -
  obtain w ws where vs: "vs = w # ws" using assms by (cases vs) auto
  have "Split CHR ''/'' (Join ''/'' vs) = vs"
    unfolding vs by (rule Split_Join) (use honest_segments_decode [OF assms(1)] vs in simp)
  then show ?thesis by (simp add: path_segments_def)
qed

lemma canonicalURLPath_ok:
  "canonicalURLPath u = Inr p \<longleftrightarrow> (\<exists>vs. honest_path u vs \<and> p = CHR ''/'' # Join ''/'' (clean_segments [] vs))"
proof -
  define ss where "ss = Split CHR ''/'' (EscapedPath u)"
  have ne: "ss \<noteq> []" by (simp add: ss_def)
  have dec: "PathUnescape (EscapedPath u) = Some (Join ''/'' vs)" if "list_all2 honest_segment ss vs" for vs
    using honest_segments_decode [OF that] PathUnescape_segments [of "EscapedPath u"] by (simp add: ss_def)
  show ?thesis
  proof
    assume c: "canonicalURLPath u = Inr p"
    then obtain vs where vs: "list_all2 honest_segment ss vs"
      using segments_err_None [of ss] by (auto simp: canonicalURLPath_def Let_def ss_def split: option.splits if_splits)
    with c dec have "honest_path u vs" "p = rooted (Join ''/'' vs)"
      by (auto simp: canonicalURLPath_def honest_path_def Let_def ss_def backslash_Join split: option.splits if_splits)
    with segments_of_decoded [OF vs ne] show "\<exists>vs. honest_path u vs \<and> p = CHR ''/'' # Join ''/'' (clean_segments [] vs)"
      by (auto simp: rooted_eq)
  next
    assume "\<exists>vs. honest_path u vs \<and> p = CHR ''/'' # Join ''/'' (clean_segments [] vs)"
    then obtain vs where vs: "honest_path u vs" "p = CHR ''/'' # Join ''/'' (clean_segments [] vs)" by blast
    then have h: "list_all2 honest_segment ss vs" by (simp add: honest_path_def ss_def)
    then have "segments_err ss = None" using segments_err_None by blast
    with vs dec [OF h] segments_of_decoded [OF h ne] show "canonicalURLPath u = Inr p"
      by (simp add: canonicalURLPath_def honest_path_def Let_def ss_def backslash_Join rooted_eq)
  qed
qed

lemma prefix_of_canonical:
  assumes "honest_path u vs" "honest_path a as"
  shows "pathPrefixMatch (CHR ''/'' # Join ''/'' (clean_segments [] vs)) (CHR ''/'' # Join ''/'' (clean_segments [] as))
     \<longleftrightarrow> Sublist.prefix (clean_segments [] as) (clean_segments [] vs)"
proof -
  have "clean_path (clean_segments [] xs)" if "honest_path b xs" for b xs
    using that honest_segments_decode by (intro clean_segments_ok) (auto simp: honest_path_def clean_path_def)
  with assms show ?thesis by (simp add: pathPrefixMatch_segments path_segments_Join)
qed

lemma honest_path_unique: "honest_path u vs \<Longrightarrow> honest_path u ws \<Longrightarrow> vs = ws"
proof -
  assume "honest_path u vs" "honest_path u ws"
  then have "all_some (map PathUnescape (Split CHR ''/'' (EscapedPath u))) = Some vs"
    "all_some (map PathUnescape (Split CHR ''/'' (EscapedPath u))) = Some ws"
    using honest_segments_decode by (auto simp: honest_path_def)
  then show ?thesis by simp
qed

lemma canonicalURLPath_honest: "honest_path u vs \<Longrightarrow> canonicalURLPath u = Inr (CHR ''/'' # Join ''/'' (clean_segments [] vs))"
  using canonicalURLPath_ok by blast

lemma canonicalURLPath_dishonest: "(\<And>vs. \<not> honest_path u vs) \<Longrightarrow> \<exists>e. canonicalURLPath u = Inl e"
  using canonicalURLPath_ok [of u] by (cases "canonicalURLPath u") auto

lemma matchAllowlistEntry_spec:
  assumes "honest_path u vs"
  shows "matchAllowlistEntry u (CHR ''/'' # Join ''/'' (clean_segments [] vs)) entry \<longleftrightarrow> entry_allows u vs entry"
proof (cases "entry = []")
  case False
  show ?thesis
  proof (cases "ParseCIDR entry")
    case None
    show ?thesis
    proof (cases "Contains entry ''://''")
      case True
      show ?thesis
      proof (cases "url_Parse entry")
        case (Some a)
        show ?thesis
        proof (cases "\<exists>as. honest_path a as")
          case h: True
          then obtain as where as: "honest_path a as" by blast
          have only: "honest_path a bs \<longleftrightarrow> bs = as" for bs using as honest_path_unique by blast
          show ?thesis using False None True Some as prefix_of_canonical [OF assms as]
            by (simp add: matchAllowlistEntry_def entry_allows_def canonicalURLPath_honest [OF as] only del: Join.simps) blast
        next
          case h: False
          then obtain e where "canonicalURLPath a = Inl e" using canonicalURLPath_dishonest by blast
          with False None True Some h show ?thesis by (auto simp: matchAllowlistEntry_def entry_allows_def)
        qed
      qed (use False None True in \<open>simp add: matchAllowlistEntry_def entry_allows_def\<close>)
    qed (use False None in \<open>simp add: matchAllowlistEntry_def entry_allows_def\<close>)
  qed (use False in \<open>simp add: matchAllowlistEntry_def entry_allows_def split: option.splits\<close>)
qed (simp add: matchAllowlistEntry_def entry_allows_def)

lemma validate_ip_spec:
  "(case ParseIP h of Some ip \<Rightarrow> validateDestinationIP (Some ip) p | None \<Rightarrow> None) = None \<longleftrightarrow>
     (\<forall>ip. ParseIP h = Some ip \<longrightarrow> public_address ip \<and> (IsPrivate ip \<longrightarrow> p))"
  by (auto simp: validateDestinationIP_def public_address_def split: option.splits)

lemma validate_honest:
  assumes "url_Parse raw = Some u" "honest_path u vs"
  shows "ValidateURLDestinationWithPolicy raw allowlist allowPrivate = None \<longleftrightarrow>
     u_Scheme u \<noteq> [] \<and> u_Host u \<noteq> [] \<and> \<not> u_HasUser u \<and> ToLower (u_Scheme u) \<in> {''http'', ''https''} \<and>
     normalizeHostname (Hostname u) \<noteq> [] \<and> \<not> isBlockedHostname (normalizeHostname (Hostname u)) \<and>
     (\<forall>ip. ParseIP (normalizeHostname (Hostname u)) = Some ip \<longrightarrow>
        public_address ip \<and> (IsPrivate ip \<longrightarrow> allowPrivate \<and> allowlist \<noteq> [])) \<and>
     (allowlist = [] \<longrightarrow> ToLower (u_Scheme u) = ''https'') \<and>
     (allowlist \<noteq> [] \<longrightarrow> (\<exists>entry \<in> set allowlist. entry_allows u vs (TrimSpace entry)))"
proof -
  define ipc where "ipc = (case ParseIP (normalizeHostname (Hostname u)) of
      Some ip \<Rightarrow> validateDestinationIP (Some ip) (allowPrivate \<and> allowlist \<noteq> []) | None \<Rightarrow> None)"
  have ip: "ipc = None \<longleftrightarrow> (\<forall>ip. ParseIP (normalizeHostname (Hostname u)) = Some ip \<longrightarrow>
        public_address ip \<and> (IsPrivate ip \<longrightarrow> allowPrivate \<and> allowlist \<noteq> []))"
    unfolding ipc_def by (rule validate_ip_spec)
  show ?thesis
    unfolding ip [symmetric]
    unfolding ValidateURLDestinationWithPolicy_def assms(1) canonicalURLPath_honest [OF assms(2)] Let_def
      option.case sum.case ipc_def [symmetric] matchAllowlistEntry_spec [OF assms(2)] list_ex_iff
    by (simp split: option.split)
qed

lemma url_policy_spec:
  "ValidateURLDestinationWithPolicy raw allowlist allowPrivate = None \<longleftrightarrow> destination_allowed raw allowlist allowPrivate"
proof (cases "\<exists>u vs. url_Parse raw = Some u \<and> honest_path u vs")
  case True
  then obtain u vs where u: "url_Parse raw = Some u" "honest_path u vs" by blast
  have "honest_path u ws \<longleftrightarrow> ws = vs" for ws using u(2) honest_path_unique by blast
  then show ?thesis unfolding validate_honest [OF u] destination_allowed_def u(1) by auto
next
  case False
  then have "canonicalURLPath u \<noteq> Inr p" if "url_Parse raw = Some u" for u p
    using that canonicalURLPath_ok [of u p] by blast
  then have "ValidateURLDestinationWithPolicy raw allowlist allowPrivate \<noteq> None"
    by (auto simp: ValidateURLDestinationWithPolicy_def Let_def split: option.splits sum.splits)
  with False show ?thesis by (auto simp: destination_allowed_def)
qed

section \<open>Property\<close>

text \<open>C20: The URL policy lets a request go out exactly when the destination is allowed: the URL parses with
  a host and no credentials, the scheme is http or https (https only without an allowlist), the path
  hides no separator, dot segment, backslash or second escape behind percent encoding, the host is
  none of the blocked names, an address is never loopback, link-local, multicast or unspecified and
  is private only where the action allows it together with an allowlist, and with an allowlist some
  entry names the network, the exact host, or a URL with the same scheme, host and port whose cleaned
  path is, segment by segment, a prefix of the cleaned path of the destination.\<close>

theorem url_policy_allows_exactly:
  "ValidateURLDestinationWithPolicy raw allowlist allowPrivate = None \<longleftrightarrow> destination_allowed raw allowlist allowPrivate"
  by (rule url_policy_spec)

end
