(* ===== verification/Logger.thy ===== *)
theory Logger
  imports Template Utf8 Go_Url_Parse
begin

text \<open>
  Redaction and log levels (\<^verbatim>\<open>internal/logger\<close>): the five fixed patterns of \<^verbatim>\<open>redact.go\<close> as matchers,
  \<open>RedactSensitive\<close> as their composition, \<open>redactURL\<close>, the short form \<open>Redact\<close> and \<open>parseLevel\<close>. A pattern with a word
  boundary looks at the byte before the match as well, so its scan carries that byte.
\<close>

section \<open>Matching\<close>

definition re_space :: "char \<Rightarrow> bool" where
  "re_space c \<longleftrightarrow> c \<in> {CHR 0x09, CHR 0x0A, CHR 0x0C, CHR 0x0D, CHR 0x20}"

definition word_byte :: "char \<Rightarrow> bool" where
  "word_byte c \<longleftrightarrow> ident_char c"

definition boundary :: "char option \<Rightarrow> string \<Rightarrow> bool" where
  "boundary prev s \<longleftrightarrow>
     (case prev of None \<Rightarrow> False | Some c \<Rightarrow> word_byte c) \<noteq> (case s of [] \<Rightarrow> False | c # _ \<Rightarrow> word_byte c)"

definition run_of :: "(char \<Rightarrow> bool) \<Rightarrow> string \<Rightarrow> nat" where
  "run_of P s = length (takeWhile P s)"

text \<open>The names \<^verbatim>\<open>api[_-]?key|access[_-]?token|refresh[_-]?token|secret|password|token\<close>.\<close>

definition joined :: "string \<Rightarrow> string \<Rightarrow> string \<Rightarrow> nat option" where
  "joined a b s =
     (case fold_lit a s of
        None \<Rightarrow> None
      | Some n \<Rightarrow>
          (let m = (case drop n s of c # _ \<Rightarrow> if c = CHR ''_'' \<or> c = CHR ''-'' then n + 1 else n | [] \<Rightarrow> n)
           in map_option ((+) m) (fold_lit b (drop m s))))"

fun first_some :: "'a option list \<Rightarrow> 'a option" where
  "first_some [] = None"
| "first_some (Some x # xs) = Some x"
| "first_some (None # xs) = first_some xs"

definition secret_word :: "string \<Rightarrow> nat option" where
  "secret_word s = first_some [joined ''api'' ''key'' s, joined ''access'' ''token'' s, joined ''refresh'' ''token'' s,
     fold_lit ''secret'' s, fold_lit ''password'' s, fold_lit ''token'' s]"

section \<open>The patterns\<close>

definition botTokenPathRe :: "string \<Rightarrow> (unit \<times> nat) option" where
  "botTokenPathRe s =
     (if HasPrefix s ''/bot'' then
        (let n = run_of (\<lambda>c. \<not> (c = CHR ''/'' \<or> re_space c \<or> c = CHR 0x22)) (drop 4 s)
         in if n = 0 then None else Some ((), 4 + n))
      else None)"

definition urlRe :: "string \<Rightarrow> (string \<times> nat) option" where
  "urlRe s =
     (let k = (if HasPrefix s ''https://'' then 8 else if HasPrefix s ''http://'' then 7 else 0);
          n = run_of (\<lambda>c. \<not> (re_space c \<or> c = CHR 0x22)) (drop k s)
      in if k = 0 \<or> n = 0 then None else Some (take (k + n) s, k + n))"

definition bearerRe :: "char option \<Rightarrow> string \<Rightarrow> (string \<times> nat) option" where
  "bearerRe prev s =
     (if boundary prev s then
        (case fold_lit ''authorization:'' s of
           None \<Rightarrow> None
         | Some n \<Rightarrow>
             (let a = n + run_of re_space (drop n s)
              in case fold_lit ''bearer'' (drop a s) of
                   None \<Rightarrow> None
                 | Some k \<Rightarrow>
                     (let sp = run_of re_space (drop (a + k) s); p = a + k + sp;
                          v = run_of (\<lambda>c. \<not> re_space c) (drop p s)
                      in if sp = 0 \<or> v = 0 then None else Some (take p s, p + v))))
      else None)"

definition assign_value :: "char \<Rightarrow> bool" where
  "assign_value c \<longleftrightarrow> \<not> (re_space c \<or> c \<in> {CHR 0x22, CHR 0x27, CHR 0x5C, CHR '',''})"

definition assignRe :: "char option \<Rightarrow> string \<Rightarrow> (string \<times> nat) option" where
  "assignRe prev s =
     (if boundary prev s then
        (case secret_word s of
           None \<Rightarrow> None
         | Some n \<Rightarrow>
             (let a = n + run_of re_space (drop n s); b = a + 1 + run_of re_space (drop (a + 1) s);
                  v = run_of assign_value (drop b s)
              in if boundary (Some (s ! (n - 1))) (drop n s) \<and>
                    (case drop a s of c # _ \<Rightarrow> c = CHR ''='' \<or> c = CHR '':'' | [] \<Rightarrow> False) \<and> v \<noteq> 0
                 then Some (take n s, b + v) else None))
      else None)"

definition jsonSecretRe :: "string \<Rightarrow> (string \<times> nat) option" where
  "jsonSecretRe s =
     (let quote = CHR 0x22 in
      if HasPrefix s [quote] then
        (case secret_word (drop 1 s) of
           None \<Rightarrow> None
         | Some n \<Rightarrow>
             (let a = n + 2 + run_of re_space (drop (n + 2) s); b = a + 1 + run_of re_space (drop (a + 1) s);
                  v = run_of (\<lambda>c. c \<noteq> quote) (drop (b + 1) s)
              in if HasPrefix (drop (n + 1) s) [quote] \<and> HasPrefix (drop a s) '':'' \<and> HasPrefix (drop b s) [quote] \<and>
                    HasPrefix (drop (b + 1 + v) s) [quote]
                 then Some (take n (drop 1 s), b + v + 2) else None))
      else None)"

text \<open>The scan of a pattern that looks at the byte before it.\<close>

function ctx_pieces :: "(char option \<Rightarrow> string \<Rightarrow> ('m \<times> nat) option) \<Rightarrow> char option \<Rightarrow> string \<Rightarrow> 'm piece list" where
  "ctx_pieces re prev s =
     (case s of
        [] \<Rightarrow> []
      | c # cs \<Rightarrow>
          (case re prev s of
             Some (m, n) \<Rightarrow>
               if 0 < n then Hit m (take n s) # ctx_pieces re (Some (last (take n s))) (drop n s)
               else Lit c # ctx_pieces re (Some c) cs
           | None \<Rightarrow> Lit c # ctx_pieces re (Some c) cs))"
  by pat_completeness auto
termination
  by (relation "measure (\<lambda>(re, prev, s). length s)") auto

declare ctx_pieces.simps [simp del]

definition ReplaceAllCtx :: "(char option \<Rightarrow> string \<Rightarrow> ('m \<times> nat) option) \<Rightarrow> ('m \<Rightarrow> string) \<Rightarrow> string \<Rightarrow> string" where
  "ReplaceAllCtx re f s = concat (map (piece_subst f) (ctx_pieces re None s))"

section \<open>Redaction\<close>

definition isSensitiveKey :: "string \<Rightarrow> bool" where
  "isSensitiveKey key0 =
     (let key = ToLower key0 in
      Contains key ''token'' \<or> Contains key ''secret'' \<or> Contains key ''key'' \<or> Contains key ''sign'' \<or> Contains key ''password'')"

definition mask_query :: "values_map \<Rightarrow> values_map" where
  "mask_query q = map (\<lambda>(k, vs). (k, if isSensitiveKey k then [''****''] else vs)) q"

definition mask_bot :: "string \<Rightarrow> string" where
  "mask_bot = ReplaceAllStringFunc botTokenPathRe (\<lambda>_. ''/bot****'')"

definition redactURL :: "string \<Rightarrow> string" where
  "redactURL raw =
     (case url_Parse raw of
        None \<Rightarrow> raw
      | Some u \<Rightarrow> url_String (u\<lparr>u_RawQuery := Encode (mask_query (fst (ParseQuery (u_RawQuery u)))), u_Path := mask_bot (u_Path u)\<rparr>))"

definition RedactSensitive :: "string \<Rightarrow> string" where
  "RedactSensitive s =
     (if s = [] then s
      else let s1 = mask_bot s;
               s2 = ReplaceAllStringFunc urlRe (redactURL) s1;
               s3 = ReplaceAllCtx bearerRe (\<lambda>m. m @ ''****'') s2;
               s4 = ReplaceAllCtx assignRe (\<lambda>m. m @ ''=****'') s3
           in ReplaceAllStringFunc jsonSecretRe (\<lambda>m. [CHR 0x22] @ m @ [CHR 0x22] @ '':'' @ [CHR 0x22] @ ''****'' @ [CHR 0x22]) s4)"

definition logger_Redact :: "string \<Rightarrow> string" where
  "logger_Redact s = (if length s \<le> 4 then ''****'' else take 2 s @ ''****'' @ drop (length s - 2) s)"

datatype log_level = LevelDebug | LevelInfo | LevelWarn | LevelError

definition parseLevel :: "string \<Rightarrow> log_level" where
  "parseLevel s0 =
     (let s = ToLower s0 in
      if s = ''debug'' then LevelDebug else if s = ''warn'' then LevelWarn else if s = ''error'' then LevelError
      else LevelInfo)"

section \<open>Lemmas\<close>

lemma mask_query_sensitive: "(k, vs) \<in> set (mask_query q) \<Longrightarrow> isSensitiveKey k \<Longrightarrow> vs = [''****'']"
  by (auto simp: mask_query_def)

lemma run_of_le: "run_of P s \<le> length s"
  by (simp add: run_of_def length_takeWhile_le)

text \<open>The inputs of the package's tests.\<close>

lemma mask_bot_example:
  "mask_bot ''https://api.telegram.org/bot123456:ABC-DEF/sendMessage'' = ''https://api.telegram.org/bot****/sendMessage''"
  by code_simp

lemma redact_examples:
  "ReplaceAllCtx bearerRe (\<lambda>m. m @ ''****'') ''Authorization: Bearer super-secret api_key=abc123'' = ''Authorization: Bearer **** api_key=abc123''"
  "ReplaceAllCtx assignRe (\<lambda>m. m @ ''=****'') ''Authorization: Bearer **** api_key=abc123'' = ''Authorization: Bearer **** api_key=****''"
  by code_simp+

lemma json_example:
  "RedactSensitive ([CHR ''{'', CHR 0x22] @ ''token'' @ [CHR 0x22, CHR '':'', CHR 0x22] @ ''xyz'' @ [CHR 0x22, CHR ''}'']) =
     [CHR ''{'', CHR 0x22] @ ''token'' @ [CHR 0x22, CHR '':'', CHR 0x22] @ ''****'' @ [CHR 0x22, CHR ''}'']"
  by code_simp

end
