(* ===== verification/Contexts.thy ===== *)
theory Contexts
  imports Logger
begin

text \<open>
  What a \<^verbatim>\<open>context.Context\<close> carries in this program: the logger bound to a request or an event
  (\<^verbatim>\<open>internal/logger/context.go\<close>, \<^verbatim>\<open>logger.go\<close>) and the identity of the execution that a handler reads
  (\<^verbatim>\<open>internal/handler/handler.go\<close>). A context is the chain of its values, the innermost first; a key of
  an unexported type finds only the values stored under it. Writing the records is the logging
  library's.
\<close>

section \<open>Loggers\<close>

record Logger =
  lg_level :: log_level
  lg_attrs :: "(string \<times> string) list"

text \<open>\<open>logger_New\<close> returns the logger and makes it the default one.\<close>

definition logger_New :: "string \<Rightarrow> Logger \<times> Logger" where
  "logger_New level = (let l = \<lparr>lg_level = parseLevel level, lg_attrs = []\<rparr> in (l, l))"

definition With :: "Logger \<Rightarrow> string \<Rightarrow> string \<Rightarrow> Logger" where
  "With l k v = l\<lparr>lg_attrs := lg_attrs l @ [(k, v)]\<rparr>"

section \<open>Contexts\<close>

record ExecutionMetadata =
  md_EventID :: string
  md_ActionIndex :: int
  md_Attempt :: int

datatype ctx_value = ctxKey Logger | executionMetadataKey ExecutionMetadata

type_synonym Context = "ctx_value list"

definition WithTrace :: "Logger \<Rightarrow> Context \<Rightarrow> string \<Rightarrow> Context" where
  "WithTrace std ctx traceID = ctxKey (With std ''trace_id'' traceID) # ctx"

fun From :: "Logger \<Rightarrow> Context \<Rightarrow> Logger" where
  "From std [] = std"
| "From std (ctxKey l # ctx) = l"
| "From std (executionMetadataKey _ # ctx) = From std ctx"

definition WithExecutionMetadata :: "Context \<Rightarrow> ExecutionMetadata \<Rightarrow> Context" where
  "WithExecutionMetadata ctx meta = executionMetadataKey meta # ctx"

fun ExecutionMetadataFrom :: "Context \<Rightarrow> ExecutionMetadata option" where
  "ExecutionMetadataFrom [] = None"
| "ExecutionMetadataFrom (executionMetadataKey m # ctx) = Some m"
| "ExecutionMetadataFrom (ctxKey _ # ctx) = ExecutionMetadataFrom ctx"

section \<open>Lookups\<close>

lemma From_WithTrace [simp]: "lg_attrs (From std (WithTrace std ctx i)) = lg_attrs std @ [(''trace_id'', i)]"
  by (simp add: WithTrace_def With_def)

lemma From_WithExecutionMetadata [simp]: "From std (WithExecutionMetadata ctx m) = From std ctx"
  by (simp add: WithExecutionMetadata_def)

lemma Metadata_WithTrace [simp]: "ExecutionMetadataFrom (WithTrace std ctx i) = ExecutionMetadataFrom ctx"
  by (simp add: WithTrace_def)

lemma Metadata_WithExecutionMetadata [simp]: "ExecutionMetadataFrom (WithExecutionMetadata ctx m) = Some m"
  by (simp add: WithExecutionMetadata_def)

end
