(* ===== verification/Http_Action.thy ===== *)
theory Http_Action
  imports Url_Policy Handler_Errors Contexts
begin

text \<open>
  The HTTP action (\<^verbatim>\<open>internal/handler/http.go\<close>): building the request from the action's templates,
  the client with its dialler and redirect policy, and the classification of the response. The
  environment \<open>netenv\<close> answers for the resolver, for dialling an address and for the exchange of one
  request over a connection; a redirect response carries the URL that net/http resolved from its
  Location header, as a string and parsed. A handler returns its result, its error and the requests
  it sent with the addresses they went to.
\<close>

section \<open>Requests and the network\<close>

record client_request =
  cr_Method :: string
  cr_URL :: string
  cr_parsed :: url
  cr_Header :: header
  cr_Body :: string

record client_response =
  cs_Status :: int
  cs_Header :: header
  cs_Body :: string
  cs_redirect :: "(string \<times> url) option"

record netenv =
  ne_lookup :: "string \<Rightarrow> goerr + IP list"
  ne_dial :: "IP \<Rightarrow> string \<Rightarrow> goerr option"
  ne_exchange :: "client_request list \<Rightarrow> client_request \<Rightarrow> goerr + client_response"

text \<open>The handler's own client: one overall timeout for an action.\<close>

record http_client =
  cl_Timeout :: duration

definition NewHTTP :: http_client where
  "NewHTTP = \<lparr>cl_Timeout = 15 * Second\<rparr>"

type_synonym sent = "(client_request \<times> IP) list"

record Result =
  rs_Target :: string
  rs_Detail :: string

definition quoted :: "string \<Rightarrow> string" where
  "quoted s = CHR 0x22 # s @ [CHR 0x22]"

text \<open>The messages of the policy errors; a URL scheme has no characters that \<^verbatim>\<open>%q\<close> escapes.\<close>

fun url_err_text :: "url_err \<Rightarrow> string" where
  "url_err_text InvalidURL = ''invalid url''"
| "url_err_text UserinfoNotAllowed = ''url userinfo is not allowed''"
| "url_err_text (SchemeNotAllowed s) = ''url scheme '' @ quoted s @ '' not allowed''"
| "url_err_text InvalidPathEncoding = ''invalid url path encoding''"
| "url_err_text AmbiguousPath = ''ambiguous url path encoding is not allowed''"
| "url_err_text EncodedSeparators = ''encoded path separators or dot segments are not allowed''"
| "url_err_text InvalidHost = ''invalid url host''"
| "url_err_text (HostBlocked h) = ''destination host blocked: '' @ h"
| "url_err_text InvalidIP = ''invalid destination ip''"
| "url_err_text (IPBlocked ip) = ''destination ip blocked: '' @ ip_String ip"
| "url_err_text (PrivateIP ip) = ''private destination ip requires allow_private: '' @ ip_String ip"
| "url_err_text (HTTPSOnly s) = ''url scheme '' @ quoted s @ '' not allowed without allowlist (https only)''"
| "url_err_text NotInAllowlist = ''destination not in url_allowlist''"

section \<open>Dialling\<close>

fun first_bad_ip :: "IP list \<Rightarrow> bool \<Rightarrow> url_err option" where
  "first_bad_ip [] p = None"
| "first_bad_ip (ip # ips) p = (case validateDestinationIP (Some ip) p of Some e \<Rightarrow> Some e | None \<Rightarrow> first_bad_ip ips p)"

fun dial_first :: "netenv \<Rightarrow> string \<Rightarrow> IP list \<Rightarrow> goerr \<Rightarrow> goerr + IP" where
  "dial_first N port [] lastErr = Inl (Wrap ''dial destination: '' lastErr [])"
| "dial_first N port (ip # ips) lastErr =
     (case ne_dial N ip port of None \<Rightarrow> Inr ip | Some e \<Rightarrow> dial_first N port ips e)"

definition secureDialContext :: "netenv \<Rightarrow> bool \<Rightarrow> string \<Rightarrow> goerr + IP" where
  "secureDialContext N allowPrivate address =
     (case SplitHostPort address of
        None \<Rightarrow> Inl (Wrap ''invalid dial address: '' (Opaque (''address '' @ address)) [])
      | Some (host, port) \<Rightarrow>
          if isBlockedHostname host then Inl (Opaque (''destination host blocked: '' @ host))
          else (case ne_lookup N host of
                  Inl e \<Rightarrow> Inl (Wrap ''resolve destination: '' e [])
                | Inr ips \<Rightarrow>
                    if ips = [] then Inl (Opaque ''destination resolved to no addresses'')
                    else (case first_bad_ip ips allowPrivate of
                            Some e \<Rightarrow> Inl (Opaque (url_err_text e))
                          | None \<Rightarrow> dial_first N port ips (Opaque []))))"

text \<open>The address the transport dials for a URL.\<close>

definition dial_address :: "url \<Rightarrow> string" where
  "dial_address u = JoinHostPort (Hostname u) (effectivePort u)"

section \<open>Redirects\<close>

definition sameAuthority :: "url \<Rightarrow> url \<Rightarrow> bool" where
  "sameAuthority a b \<longleftrightarrow> EqualFold (normalizeHostname (Hostname a)) (normalizeHostname (Hostname b)) \<and>
     effectivePort a = effectivePort b"

definition CheckRedirect :: "ActionConfig \<Rightarrow> string \<Rightarrow> url \<Rightarrow> client_request list \<Rightarrow> goerr option" where
  "CheckRedirect ac target u via =
     (if length via \<ge> 3 then Some (Opaque ''redirect limit exceeded'')
      else case ValidateURLDestinationWithPolicy target (ac_URLAllowlist ac) (ac_AllowPrivate ac) of
        Some e \<Rightarrow> Some (Wrap ''redirect destination: '' (Opaque (url_err_text e)) [])
      | None \<Rightarrow> if \<not> sameAuthority (cr_parsed (last via)) u then Some (Opaque ''cross-host redirect blocked'') else None)"

text \<open>\<open>http.Client.Do\<close>: send a request, and follow a redirect while \<open>CheckRedirect\<close> permits it. A
  303, and a 301 or 302 of a request that is neither GET nor HEAD, becomes a GET without a body.\<close>

definition redirected :: "client_request \<Rightarrow> int \<Rightarrow> string \<Rightarrow> url \<Rightarrow> client_request" where
  "redirected req status target u =
     (if status \<in> {301, 302, 303}
      then req\<lparr>cr_URL := target, cr_parsed := u, cr_Body := [],
               cr_Method := (if cr_Method req = ''GET'' \<or> cr_Method req = ''HEAD'' then cr_Method req else ''GET'')\<rparr>
      else req\<lparr>cr_URL := target, cr_parsed := u\<rparr>)"

definition round_trip :: "netenv \<Rightarrow> bool \<Rightarrow> client_request list \<Rightarrow> client_request \<Rightarrow> (goerr + client_response) \<times> sent" where
  "round_trip N allowPrivate via req =
     (case secureDialContext N allowPrivate (dial_address (cr_parsed req)) of
        Inl e \<Rightarrow> (Inl e, [])
      | Inr ip \<Rightarrow> (ne_exchange N via req, [(req, ip)]))"

function client_do ::
  "golib \<Rightarrow> netenv \<Rightarrow> ActionConfig \<Rightarrow> client_request list \<Rightarrow> client_request \<Rightarrow> (goerr + client_response) \<times> sent" where
  "client_do L N ac via req =
     (let allowPrivate = (ac_AllowPrivate ac \<and> ac_URLAllowlist ac \<noteq> []) in
      case round_trip N allowPrivate via req of
        (Inl e, ps) \<Rightarrow> (Inl e, ps)
      | (Inr resp, ps) \<Rightarrow>
          (case cs_redirect resp of
             None \<Rightarrow> (Inr resp, ps)
           | Some (target, u) \<Rightarrow>
               (case CheckRedirect ac target u (via @ [req]) of
                  Some e \<Rightarrow> (Inl e, ps)
                | None \<Rightarrow>
                    (let (r, qs) = client_do L N ac (via @ [req]) (redirected req (cs_Status resp) target u)
                     in (r, ps @ qs)))))"
  by pat_completeness auto
termination
  by (relation "measure (\<lambda>(L, N, ac, via, req). 4 - length via)") (auto simp: CheckRedirect_def split: if_splits)

declare client_do.simps [simp del]

section \<open>The handler\<close>

definition escapeJSONString :: "string \<Rightarrow> string" where
  "escapeJSONString s = (let b = json_quote s in take (length b - 2) (drop 1 b))"

definition interpolateJSONString :: "golib \<Rightarrow> string \<Rightarrow> gomap \<Rightarrow> string" where
  "interpolateJSONString L s vars = interpolateWith (lookupEnv L) s (map_of vars) (escapeJSONString)"

definition interp :: "golib \<Rightarrow> gomap \<Rightarrow> string \<Rightarrow> string" where
  "interp L vars s = interpolate (lookupEnv L) s (map_of vars)"

definition auditURLTarget :: "string \<Rightarrow> string" where
  "auditURLTarget raw =
     (case url_Parse raw of
        None \<Rightarrow> ''invalid-url''
      | Some u \<Rightarrow> if u_Scheme u = [] \<or> u_Host u = [] then ''invalid-url'' else ToLower (u_Scheme u) @ ''://'' @ u_Host u)"

definition content_type_hint :: "golib \<Rightarrow> ActionConfig \<Rightarrow> gomap \<Rightarrow> string" where
  "content_type_hint L ac vars =
     (case find (\<lambda>(k, v). EqualFold (interp L vars k) ''Content-Type'') (ac_Headers ac) of
        Some (k, v) \<Rightarrow> interp L vars v
      | None \<Rightarrow> [])"

definition set_headers :: "golib \<Rightarrow> gomap \<Rightarrow> gomap \<Rightarrow> header \<Rightarrow> header" where
  "set_headers L vars hs h =
     fold (\<lambda>(k, v) h. let key = interp L vars k in if key = [] then h else header_Set h key (interp L vars v)) hs h"

definition var_of :: "gomap \<Rightarrow> string \<Rightarrow> string" where
  "var_of vars k = (case map_of vars k of Some v \<Rightarrow> v | None \<Rightarrow> [])"

definition identity_headers :: "ExecutionMetadata option \<Rightarrow> gomap \<Rightarrow> header \<Rightarrow> header" where
  "identity_headers meta vars h =
     (case meta of
        Some m \<Rightarrow>
          header_Set (header_Set (header_Set h
            ''Idempotency-Key'' (md_EventID m @ '':'' @ Itoa (md_ActionIndex m)))
            ''X-Webhook-Event-ID'' (md_EventID m))
            ''X-Webhook-Attempt'' (Itoa (md_Attempt m))
      | None \<Rightarrow>
          (let event = var_of vars ''event_id'';
               h1 = (if header_Get h ''Idempotency-Key'' = [] \<and> event \<noteq> []
                     then header_Set h ''Idempotency-Key''
                            (event @ (if var_of vars ''action_index'' \<noteq> [] then '':'' @ var_of vars ''action_index'' else []))
                     else h);
               h2 = (if header_Get h1 ''X-Webhook-Event-ID'' = [] \<and> event \<noteq> []
                     then header_Set h1 ''X-Webhook-Event-ID'' event else h1)
           in if header_Get h2 ''X-Webhook-Attempt'' = [] \<and> var_of vars ''attempt'' \<noteq> []
              then header_Set h2 ''X-Webhook-Attempt'' (var_of vars ''attempt'') else h2))"

definition build_request ::
  "golib \<Rightarrow> ActionConfig \<Rightarrow> gomap \<Rightarrow> ExecutionMetadata option \<Rightarrow> string \<Rightarrow> url \<Rightarrow> string \<Rightarrow> string \<Rightarrow> client_request" where
  "build_request L ac vars meta rawURL u httpMethod body =
     \<lparr>cr_Method = httpMethod, cr_URL = rawURL, cr_parsed = u,
      cr_Header = identity_headers meta vars (set_headers L vars (ac_Headers ac)
         (if body \<noteq> [] then header_Set [] ''Content-Type'' ''application/json'' else [])),
      cr_Body = body\<rparr>"

text \<open>The body: JSON templates escape their values and must give valid JSON.\<close>

definition request_body :: "golib \<Rightarrow> ActionConfig \<Rightarrow> gomap \<Rightarrow> string option" where
  "request_body L ac vars =
     (let ctHint = content_type_hint L ac vars in
      if ctHint = [] \<or> Contains (ToLower ctHint) ''json'' then
        (let body = interpolateJSONString L (ac_Body ac) vars
         in if body \<noteq> [] \<and> \<not> jsonValid body then None else Some body)
      else Some (interp L vars (ac_Body ac)))"

definition classify :: "gtime \<Rightarrow> string \<Rightarrow> client_response \<Rightarrow> Result \<times> goerr option" where
  "classify now auditTarget resp =
     (if 200 \<le> cs_Status resp \<and> cs_Status resp < 300
      then (\<lparr>rs_Target = auditTarget, rs_Detail = ''status='' @ Itoa (cs_Status resp)\<rparr>, None)
      else (\<lparr>rs_Target = auditTarget, rs_Detail = []\<rparr>,
            Some (HTTPErr \<lparr>he_Status = cs_Status resp, he_Body = take 8192 (cs_Body resp),
                    he_RetryAfter = ParseRetryAfter (header_Get (cs_Header resp) ''Retry-After'') now\<rparr>)))"

definition http_Handle ::
  "golib \<Rightarrow> netenv \<Rightarrow> gtime \<Rightarrow> ExecutionMetadata option \<Rightarrow> ActionConfig \<Rightarrow> gomap \<Rightarrow> (Result \<times> goerr option) \<times> sent" where
  "http_Handle L N now meta ac vars =
     (let missing = missingExplicitSecret (lookupEnv L)
            ([ac_URL ac, ac_Body ac] @ concat (map (\<lambda>(k, v). [k, v]) (ac_Headers ac)));
          rawURL = interp L vars (ac_URL ac);
          auditTarget = auditURLTarget rawURL
      in
      if missing \<noteq> [] then
        ((\<lparr>rs_Target = [], rs_Detail = []\<rparr>, Some (Wrap [] ErrNonRetryable ('': required action secret '' @ missing @ '' is not set''))), [])
      else case ValidateURLDestinationWithPolicy rawURL (ac_URLAllowlist ac) (ac_AllowPrivate ac) of
        Some e \<Rightarrow> ((\<lparr>rs_Target = auditTarget, rs_Detail = []\<rparr>, Some (Wrap [] ErrNonRetryable ('': '' @ url_err_text e))), [])
      | None \<Rightarrow>
          (let httpMethod = (if ac_Method ac = [] then ''POST'' else ToUpper (ac_Method ac)) in
           case request_body L ac vars of
             None \<Rightarrow> ((\<lparr>rs_Target = auditTarget, rs_Detail = []\<rparr>,
                        Some (Wrap [] ErrNonRetryable '': http body is not valid JSON after interpolation'')), [])
           | Some body \<Rightarrow>
               if \<not> list_all token_byte httpMethod
               then ((\<lparr>rs_Target = auditTarget, rs_Detail = []\<rparr>, Some (Opaque ''net/http: invalid method'')), [])
               else (case url_Parse rawURL of
                  None \<Rightarrow> ((\<lparr>rs_Target = auditTarget, rs_Detail = []\<rparr>, Some (Opaque ''parse url'')), [])
                | Some u \<Rightarrow>
                    (case client_do L N ac [] (build_request L ac vars meta rawURL u httpMethod body) of
                       (Inl e, ps) \<Rightarrow> ((\<lparr>rs_Target = auditTarget, rs_Detail = []\<rparr>, Some (Wrap ''http request: '' e [])), ps)
                     | (Inr resp, ps) \<Rightarrow> (classify now auditTarget resp, ps)))))"

section \<open>Where requests go\<close>

definition address_permitted :: "ActionConfig \<Rightarrow> IP \<Rightarrow> bool" where
  "address_permitted ac ip \<longleftrightarrow> public_address ip \<and> (IsPrivate ip \<longrightarrow> ac_AllowPrivate ac \<and> ac_URLAllowlist ac \<noteq> [])"

text \<open>A connection: its host is not blocked, and every address the resolver gave for the name, the
  one connected to among them, is permitted.\<close>

definition connection_permitted :: "netenv \<Rightarrow> ActionConfig \<Rightarrow> url \<Rightarrow> IP \<Rightarrow> bool" where
  "connection_permitted N ac u ip \<longleftrightarrow>
     (\<exists>host port ips. SplitHostPort (dial_address u) = Some (host, port) \<and> \<not> isBlockedHostname host \<and>
        ne_lookup N host = Inr ips \<and> ip \<in> set ips \<and> list_all (address_permitted ac) ips)"

lemma first_bad_ip_None:
  "first_bad_ip ips (ac_AllowPrivate ac \<and> ac_URLAllowlist ac \<noteq> []) = None \<longleftrightarrow> list_all (address_permitted ac) ips"
  by (induction ips) (auto simp: validateDestinationIP_def address_permitted_def public_address_def split: option.splits if_splits)

lemma dial_first_in: "dial_first N port ips e = Inr ip \<Longrightarrow> ip \<in> set ips"
  by (induction ips arbitrary: e) (auto split: option.splits)

lemma secureDial_permitted:
  assumes "secureDialContext N (ac_AllowPrivate ac \<and> ac_URLAllowlist ac \<noteq> []) (dial_address u) = Inr ip"
  shows "connection_permitted N ac u ip"
  using assms first_bad_ip_None [of _ ac]
  by (auto simp: secureDialContext_def connection_permitted_def split: option.splits if_splits sum.splits dest: dial_first_in)

lemma sameAuthority_trans: "sameAuthority a b \<Longrightarrow> sameAuthority b c \<Longrightarrow> sameAuthority a c"
  by (simp add: sameAuthority_def EqualFold_def)

definition confined :: "netenv \<Rightarrow> ActionConfig \<Rightarrow> url \<Rightarrow> client_request \<times> IP \<Rightarrow> bool" where
  "confined N ac u0 s = (case s of (req, ip) \<Rightarrow>
     destination_allowed (cr_URL req) (ac_URLAllowlist ac) (ac_AllowPrivate ac) \<and>
     sameAuthority u0 (cr_parsed req) \<and> connection_permitted N ac (cr_parsed req) ip)"

lemma round_trip_sent:
  "round_trip N p via req = (r, ps) \<Longrightarrow> ps = [] \<or> (\<exists>ip. ps = [(req, ip)] \<and> secureDialContext N p (dial_address (cr_parsed req)) = Inr ip)"
  by (auto simp: round_trip_def split: sum.splits)

text \<open>One unfolding of the client: the requests sent are at most the current one and those of the
  redirect that was followed.\<close>

lemma client_do_cases:
  assumes "client_do L N ac via req = (r, sent)"
  obtains (stops) "sent = []"
  | (one) ip where "sent = [(req, ip)]" "secureDialContext N (ac_AllowPrivate ac \<and> ac_URLAllowlist ac \<noteq> []) (dial_address (cr_parsed req)) = Inr ip"
  | (more) ip status target u r' qs where "sent = (req, ip) # qs"
      "secureDialContext N (ac_AllowPrivate ac \<and> ac_URLAllowlist ac \<noteq> []) (dial_address (cr_parsed req)) = Inr ip"
      "CheckRedirect ac target u (via @ [req]) = None"
      "client_do L N ac (via @ [req]) (redirected req status target u) = (r', qs)"
proof -
  obtain r0 ps where rt: "round_trip N (ac_AllowPrivate ac \<and> ac_URLAllowlist ac \<noteq> []) via req = (r0, ps)" by (metis prod.exhaust)
  from round_trip_sent [OF rt] consider "ps = []" | ip where "ps = [(req, ip)]"
      "secureDialContext N (ac_AllowPrivate ac \<and> ac_URLAllowlist ac \<noteq> []) (dial_address (cr_parsed req)) = Inr ip" by blast
  then show thesis
  proof cases
    case 1
    with rt have "\<exists>e. r0 = Inl e" by (auto simp: round_trip_def split: sum.splits)
    with 1 rt assms show thesis by (intro stops) (auto simp: client_do.simps [of L N ac via req] Let_def)
  next
    case (2 ip)
    show thesis
    proof (cases "\<exists>resp target u. r0 = Inr resp \<and> cs_redirect resp = Some (target, u) \<and> CheckRedirect ac target u (via @ [req]) = None")
      case True
      then obtain resp target u where resp: "r0 = Inr resp" "cs_redirect resp = Some (target, u)"
        "CheckRedirect ac target u (via @ [req]) = None" by blast
      obtain r' qs where rec: "client_do L N ac (via @ [req]) (redirected req (cs_Status resp) target u) = (r', qs)" by (metis prod.exhaust)
      with assms rt resp 2(1) have "sent = (req, ip) # qs" by (simp add: client_do.simps [of L N ac via req] Let_def)
      from more [OF this 2(2) resp(3) rec] show thesis .
    next
      case False
      with assms rt 2(1) have "sent = [(req, ip)]"
        by (auto simp: client_do.simps [of L N ac via req] Let_def split: sum.splits option.splits)
      from one [OF this 2(2)] show thesis .
    qed
  qed
qed

lemma CheckRedirect_None:
  "CheckRedirect ac target u (via @ [req]) = None \<Longrightarrow> length via < 2 \<and>
     destination_allowed target (ac_URLAllowlist ac) (ac_AllowPrivate ac) \<and> sameAuthority (cr_parsed req) u"
  by (auto simp: CheckRedirect_def url_policy_spec split: if_splits option.splits)

lemma redirected_simps [simp]:
  "cr_URL (redirected req st target u) = target" "cr_parsed (redirected req st target u) = u"
  "cr_Header (redirected req st target u) = cr_Header req"
  by (simp_all add: redirected_def)

lemma client_do_confined:
  assumes "client_do L N ac via req = (r, sent)" "length via \<le> 2" "sameAuthority u0 (cr_parsed req)"
    and "destination_allowed (cr_URL req) (ac_URLAllowlist ac) (ac_AllowPrivate ac)"
  shows "length sent \<le> 3 - length via \<and> list_all (confined N ac u0) sent \<and> list_all (\<lambda>(q, ip). cr_Header q = cr_Header req) sent"
  using assms
proof (induction "3 - length via" arbitrary: via req r sent rule: less_induct)
  case less
  from less.prems(1) show ?case
  proof (cases rule: client_do_cases)
    case (one ip)
    with less.prems show ?thesis by (auto simp: confined_def secureDial_permitted)
  next
    case (more ip status target u r' qs)
    from CheckRedirect_None [OF more(3)] have nxt: "length via < 2"
      "destination_allowed target (ac_URLAllowlist ac) (ac_AllowPrivate ac)" "sameAuthority (cr_parsed req) u" by auto
    have "length qs \<le> 3 - length (via @ [req]) \<and> list_all (confined N ac u0) qs \<and>
        list_all (\<lambda>(q, ip). cr_Header q = cr_Header (redirected req status target u)) qs"
      by (rule less.hyps [OF _ more(4)]) (use nxt less.prems(3) in \<open>auto intro: sameAuthority_trans\<close>)
    with more(1,2) nxt(1) less.prems show ?thesis by (auto simp: confined_def secureDial_permitted)
  qed simp
qed

lemma http_Handle_sent:
  assumes "http_Handle L N now meta ac vars = (res, sent)" "sent \<noteq> []"
  obtains u body m r where "url_Parse (interp L vars (ac_URL ac)) = Some u"
    "destination_allowed (interp L vars (ac_URL ac)) (ac_URLAllowlist ac) (ac_AllowPrivate ac)"
    "client_do L N ac [] (build_request L ac vars meta (interp L vars (ac_URL ac)) u m body) = (r, sent)"
proof -
  define v where "v = ValidateURLDestinationWithPolicy (interp L vars (ac_URL ac)) (ac_URLAllowlist ac) (ac_AllowPrivate ac)"
  define m where "m = (if ac_Method ac = [] then ''POST'' else ToUpper (ac_Method ac))"
  have v: "v = None" using assms by (auto simp: http_Handle_def Let_def v_def split: if_splits option.splits)
  obtain body u where bu: "request_body L ac vars = Some body" "url_Parse (interp L vars (ac_URL ac)) = Some u"
    using assms v by (auto simp: http_Handle_def Let_def v_def split: if_splits option.splits)
  obtain r ps where run: "client_do L N ac [] (build_request L ac vars meta (interp L vars (ac_URL ac)) u m body) = (r, ps)"
    by (metis prod.exhaust)
  have "ps = sent"
    using assms v bu run unfolding http_Handle_def Let_def v_def [symmetric] m_def [symmetric]
    by (auto split: if_splits sum.splits)
  with bu run v show thesis by (intro that [of u m body r]) (simp_all add: v_def url_policy_spec)
qed

lemma http_Handle_confined:
  assumes "http_Handle L N now meta ac vars = (res, sent)"
  shows "length sent \<le> 3 \<and> (\<forall>u0. url_Parse (interp L vars (ac_URL ac)) = Some u0 \<longrightarrow> list_all (confined N ac u0) sent) \<and>
     (\<exists>h. list_all (\<lambda>(q, ip). cr_Header q = identity_headers meta vars h) sent)"
proof (cases "sent = []")
  case False
  from http_Handle_sent [OF assms False] obtain u body m r where u: "url_Parse (interp L vars (ac_URL ac)) = Some u"
    "destination_allowed (interp L vars (ac_URL ac)) (ac_URLAllowlist ac) (ac_AllowPrivate ac)"
    "client_do L N ac [] (build_request L ac vars meta (interp L vars (ac_URL ac)) u m body) = (r, sent)" .
  have "sameAuthority u u" by (simp add: sameAuthority_def EqualFold_def)
  with client_do_confined [OF u(3), of u] u(1,2) show ?thesis by (auto simp: build_request_def)
qed simp

section \<open>Properties\<close>

text \<open>C8: An HTTP action never sends more than three requests (the first and two redirects), and each of
  them, redirects included, goes to an allowed destination with the host and port of the configured
  URL, over a connection whose host is not blocked and to an address that the resolver gave for it,
  all of which are public, or private where the action permits private addresses.\<close>

theorem http_action_confined:
  assumes "http_Handle L N now meta ac vars = (res, sent)" and "url_Parse (interp L vars (ac_URL ac)) = Some u0"
  shows "length sent \<le> 3 \<and>
    (\<forall>(req, ip) \<in> set sent.
       destination_allowed (cr_URL req) (ac_URLAllowlist ac) (ac_AllowPrivate ac) \<and>
       sameAuthority u0 (cr_parsed req) \<and> connection_permitted N ac (cr_parsed req) ip)"
  using http_Handle_confined [OF assms(1)] assms(2) by (auto simp: list_all_iff confined_def)

definition demo_url :: url where
  "demo_url = \<lparr>u_Scheme = ''https'', u_Host = ''example.com'', u_Opaque = [], u_Fragment = [], u_RawFragment = [],
     u_HasUser = False, u_User = [], u_Path = ''/hook'', u_RawPath = [], u_RawQuery = [], u_ForceQuery = False\<rparr>"

definition demo_net :: netenv where
  "demo_net = \<lparr>ne_lookup = (\<lambda>_. Inr [[93, 184, 216, 34]]), ne_dial = (\<lambda>_ _. None),
     ne_exchange = (\<lambda>via req. Inr \<lparr>cs_Status = (if via = [] then 307 else 200), cs_Header = [], cs_Body = [],
       cs_redirect = (if via = [] then Some (''https://example.com/hook'', demo_url) else None)\<rparr>)\<rparr>"

definition demo_meta :: ExecutionMetadata where
  "demo_meta = \<lparr>md_EventID = ''ev1'', md_ActionIndex = 0, md_Attempt = 2\<rparr>"

definition demo_http_action :: ActionConfig where
  "demo_http_action = demo_action\<lparr>ac_Headers := [(''Idempotency-Key'', ''mine''), (''Content-Type'', ''text/plain'')]\<rparr>"

definition demo_sent :: sent where
  "demo_sent = snd (http_Handle demo_lib demo_net 0 (Some demo_meta) demo_http_action [(''msg'', ''hi'')])"

theorem http_action_confined_witness:
  "length demo_sent = 2 \<and> list_all (\<lambda>(req, ip). public_address ip) demo_sent \<and>
   connection_permitted demo_net demo_http_action (cr_parsed (fst (hd demo_sent))) (snd (hd demo_sent))"
proof -
  obtain res where "http_Handle demo_lib demo_net 0 (Some demo_meta) demo_http_action [(''msg'', ''hi'')] = (res, demo_sent)"
    by (cases "http_Handle demo_lib demo_net 0 (Some demo_meta) demo_http_action [(''msg'', ''hi'')]") (simp add: demo_sent_def)
  moreover have "url_Parse (interp demo_lib [(''msg'', ''hi'')] (ac_URL demo_http_action)) = Some demo_url"
    by code_simp
  ultimately have conf: "\<forall>(req, ip) \<in> set demo_sent. connection_permitted demo_net demo_http_action (cr_parsed req) ip"
    using http_action_confined by blast
  have two: "length demo_sent = 2" by code_simp
  then have "demo_sent \<noteq> []" by auto
  from hd_in_set [OF this] conf have "connection_permitted demo_net demo_http_action (cr_parsed (fst (hd demo_sent))) (snd (hd demo_sent))" by auto
  moreover have "list_all (\<lambda>(req, ip). public_address ip) demo_sent" by code_simp
  ultimately show ?thesis using two by simp
qed

text \<open>When the worker supplies the delivery identity, every request of the action carries it: the
  idempotency key is the event id and the action index, the same on every attempt, the attempt number
  is separate, and no header template, event variable or redirect can change them.\<close>

theorem delivery_identity_authoritative:
  assumes "http_Handle L N now (Some m) ac vars = (res, sent)" "(req, ip) \<in> set sent"
  shows "header_Get (cr_Header req) ''Idempotency-Key'' = md_EventID m @ '':'' @ Itoa (md_ActionIndex m) \<and>
    header_Get (cr_Header req) ''X-Webhook-Event-ID'' = md_EventID m \<and>
    header_Get (cr_Header req) ''X-Webhook-Attempt'' = Itoa (md_Attempt m)"
proof -
  obtain h where "cr_Header req = identity_headers (Some m) vars h"
    using http_Handle_confined [OF assms(1)] assms(2) by (auto simp: list_all_iff)
  moreover have "distinct (map CanonicalHeaderKey [''Idempotency-Key'', ''X-Webhook-Event-ID'', ''X-Webhook-Attempt''])"
    by code_simp
  ultimately show ?thesis by (simp add: identity_headers_def)
qed

theorem delivery_identity_authoritative_witness:
  "header_Get (cr_Header (fst (hd demo_sent))) ''Idempotency-Key'' = ''ev1:0''"
proof -
  obtain res where run: "http_Handle demo_lib demo_net 0 (Some demo_meta) demo_http_action [(''msg'', ''hi'')] = (res, demo_sent)"
    by (cases "http_Handle demo_lib demo_net 0 (Some demo_meta) demo_http_action [(''msg'', ''hi'')]") (simp add: demo_sent_def)
  have "length demo_sent = 2" by code_simp
  then have "demo_sent \<noteq> []" by auto
  then have "(fst (hd demo_sent), snd (hd demo_sent)) \<in> set demo_sent" by (simp only: prod.collapse) (rule hd_in_set)
  from delivery_identity_authoritative [OF run this] show ?thesis by (simp add: demo_meta_def Itoa_def decimal.simps digit_def)
qed

end
