(* ===== verification/Exec_Action.thy ===== *)
theory Exec_Action
  imports Http_Action
begin

text \<open>
  The exec action (\<^verbatim>\<open>internal/handler/exec.go\<close>) and the handler registry (\<^verbatim>\<open>internal/handler/handler.go\<close>).
  Starting a process, what it writes, how it ends and whether its context has expired are the
  environment's; the handler decides what is started, with which arguments and environment, and what
  becomes of the output and the errors.
\<close>

section \<open>Durations as text\<close>

text \<open>\<open>time.Duration.String\<close>.\<close>

fun pad_digits :: "nat \<Rightarrow> int \<Rightarrow> string" where
  "pad_digits 0 v = []"
| "pad_digits (Suc n) v = pad_digits n (v div 10) @ [digit (v mod 10)]"

definition fmtFrac :: "int \<Rightarrow> nat \<Rightarrow> string" where
  "fmtFrac v prec =
     (let ds = rev (dropWhile (\<lambda>c. c = CHR ''0'') (rev (pad_digits prec (v mod 10 ^ prec))))
      in if ds = [] then [] else ''.'' @ ds)"

definition duration_String :: "duration \<Rightarrow> string" where
  "duration_String d =
     (let u = abs d; sign = (if d < 0 then ''-'' else []); secs = u div Second; mins = secs div 60; hours = mins div 60 in
      if u = 0 then ''0s''
      else if u < 1000 then sign @ decimal u @ ''ns''
      else if u < Millisecond then sign @ decimal (u div 1000) @ fmtFrac u 3 @ [CHR 0xC2, CHR 0xB5] @ ''s''
      else if u < Second then sign @ decimal (u div Millisecond) @ fmtFrac u 6 @ ''ms''
      else sign @ (if hours > 0 then decimal hours @ ''h'' else []) @ (if mins > 0 then decimal (mins mod 60) @ ''m'' else []) @
           decimal (secs mod 60) @ fmtFrac u 9 @ ''s'')"

section \<open>The handler\<close>

text \<open>A process to start: program, arguments, environment and time limit.\<close>

record process_spec =
  sp_command :: string
  sp_args :: "string list"
  sp_env :: "string list"
  sp_timeout :: duration

record exec_env =
  ex_start :: "process_spec \<Rightarrow> goerr option"
  ex_writes :: "process_spec \<Rightarrow> string list"
  ex_wait :: "process_spec \<Rightarrow> goerr option"
  ex_ctx :: "process_spec \<Rightarrow> goerr option"

definition exec_defaultTimeout :: duration where "exec_defaultTimeout = 60 * Second"

definition exec_spec :: "golib \<Rightarrow> ActionConfig \<Rightarrow> gomap \<Rightarrow> process_spec" where
  "exec_spec L ac vars =
     \<lparr>sp_command = ac_Command ac, sp_args = map (interp L vars) (ac_Args ac), sp_env = minimalExecEnv (lookupEnv L),
      sp_timeout = (if ac_Timeout ac \<le> 0 then exec_defaultTimeout else ac_Timeout ac)\<rparr>"

definition exec_Handle :: "golib \<Rightarrow> exec_env \<Rightarrow> ActionConfig \<Rightarrow> gomap \<Rightarrow> (Result \<times> goerr option) \<times> process_spec option" where
  "exec_Handle L X ac vars =
     (let missing = missingExplicitSecret (lookupEnv L) (ac_Command ac # ac_Args ac); sp = exec_spec L ac vars in
      if missing \<noteq> [] then
        ((\<lparr>rs_Target = [], rs_Detail = []\<rparr>, Some (Wrap [] ErrNonRetryable ('': required action secret '' @ missing @ '' is not set''))), None)
      else if ac_Command ac = [] then ((\<lparr>rs_Target = [], rs_Detail = []\<rparr>, Some (Opaque ''exec: empty command'')), None)
      else case ex_start X sp of
        Some e \<Rightarrow> ((\<lparr>rs_Target = ac_Command ac, rs_Detail = []\<rparr>, Some (Wrap ''exec start: '' e [])), Some sp)
      | None \<Rightarrow>
          (let out = writes (ex_writes X sp) \<lparr>cw_limit = maxExecOutput, cw_buf = [], cw_n = 0\<rparr>;
               res = \<lparr>rs_Target = ac_Command ac, rs_Detail = cappedWriter_String out\<rparr>
           in case ex_ctx X sp of
                Some e \<Rightarrow>
                  if e = CtxDeadlineExceeded
                  then ((res, Some (Wrap (''exec timeout after '' @ duration_String (sp_timeout sp) @ '': '') e [])), Some sp)
                  else ((res, Some (Wrap ''exec canceled: '' e [])), Some sp)
              | None \<Rightarrow>
                  (case ex_wait X sp of
                     Some e \<Rightarrow> ((res, Some (Wrap ''exec failed: '' e [])), Some sp)
                   | None \<Rightarrow> ((res, None), Some sp))))"

text \<open>Killing the process group of a command: the signal goes to the negated process id.\<close>

datatype errno = ESRCH | Errno string

definition ErrProcessDone :: goerr where "ErrProcessDone = Opaque ''os: process already finished''"

definition killProcessGroup :: "(int \<Rightarrow> errno option) \<Rightarrow> int option \<Rightarrow> goerr option" where
  "killProcessGroup kill process =
     (case process of
        None \<Rightarrow> Some ErrProcessDone
      | Some pid \<Rightarrow>
          (case kill (- pid) of
             Some ESRCH \<Rightarrow> Some ErrProcessDone
           | Some (Errno e) \<Rightarrow> Some (Opaque e)
           | None \<Rightarrow> None))"

section \<open>The registry\<close>

datatype handler_type = HTTP | Exec

fun Type :: "handler_type \<Rightarrow> string" where
  "Type HTTP = ''http''"
| "Type Exec = ''exec''"

type_synonym Registry = "string \<Rightarrow> handler_type option"

definition NewRegistry :: "handler_type list \<Rightarrow> Registry" where
  "NewRegistry hs = fold (\<lambda>h m. m(Type h \<mapsto> h)) hs Map.empty"

definition registry_Get :: "Registry \<Rightarrow> string \<Rightarrow> handler_type option" where
  "registry_Get r typ = r typ"

text \<open>What a handler does to the outside: the requests it sent and the process it started.\<close>

definition Handle ::
  "handler_type \<Rightarrow> golib \<Rightarrow> netenv \<Rightarrow> exec_env \<Rightarrow> gtime \<Rightarrow> ExecutionMetadata option \<Rightarrow> ActionConfig \<Rightarrow> gomap \<Rightarrow>
   (Result \<times> goerr option) \<times> sent \<times> process_spec option" where
  "Handle h L N X now meta ac vars =
     (case h of
        HTTP \<Rightarrow> (let (r, ps) = http_Handle L N now meta ac vars in (r, ps, None))
      | Exec \<Rightarrow> (let (r, sp) = exec_Handle L X ac vars in (r, [], sp)))"

section \<open>Properties\<close>

lemma duration_examples:
  "duration_String (60 * Second) = ''1m0s''" "duration_String (1500 * Millisecond) = ''1.5s''" "duration_String 250000000 = ''250ms''"
  by code_simp+

lemma set_map_filter: "x \<in> set (List.map_filter f xs) \<Longrightarrow> \<exists>k \<in> set xs. f k = Some x"
  by (auto simp: List.map_filter_def)

lemma minimalExecEnv_names:
  "kv \<in> set (minimalExecEnv lookup) \<Longrightarrow> \<exists>k v. kv = k @ ''='' @ v \<and> k \<in> {''PATH'', ''LANG'', ''LC_ALL'', ''HOME'', ''TMPDIR'', ''TZ''}"
proof -
  define names where "names = [''PATH'', ''LANG'', ''LC_ALL'', ''HOME'', ''TMPDIR'', ''TZ'']"
  define env where "env = List.map_filter (\<lambda>k. map_option (\<lambda>v. k @ ''='' @ v) (lookup k)) names"
  define fallback where "fallback = ''PATH=/usr/bin:/bin''"
  assume "kv \<in> set (minimalExecEnv lookup)"
  moreover have "minimalExecEnv lookup = (if env = [] then [fallback] else env)"
    unfolding minimalExecEnv_def Let_def env_def fallback_def names_def by (rule refl)
  ultimately consider "kv = fallback" | "kv \<in> set env" by (auto split: if_splits)
  then show ?thesis
  proof cases
    case 1
    then have "kv = ''PATH'' @ ''='' @ ''/usr/bin:/bin''" by (simp add: fallback_def)
    then show ?thesis by blast
  next
    case 2
    then obtain k v where "k \<in> set names" "kv = k @ ''='' @ v"
      unfolding env_def by (auto dest!: set_map_filter)
    moreover have "set names = {''PATH'', ''LANG'', ''LC_ALL'', ''HOME'', ''TMPDIR'', ''TZ''}"
      unfolding names_def by (simp only: list.set)
    ultimately show ?thesis by blast
  qed
qed

lemma exec_started:
  "exec_Handle L X ac vars = ((res, err), Some sp) \<Longrightarrow>
     sp = exec_spec L ac vars \<and> missingExplicitSecret (lookupEnv L) (ac_Command ac # ac_Args ac) = [] \<and> ac_Command ac \<noteq> [] \<and>
     rs_Detail res = (if ex_start X sp \<noteq> None then []
       else cappedWriter_String (writes (ex_writes X sp) \<lparr>cw_limit = maxExecOutput, cw_buf = [], cw_n = 0\<rparr>)) \<and>
     (err = None \<longrightarrow> ex_start X sp = None \<and> ex_ctx X sp = None \<and> ex_wait X sp = None)"
  by (auto simp: exec_Handle_def Let_def split: if_splits option.splits)


definition demo_exec :: exec_env where
  "demo_exec = \<lparr>ex_start = (\<lambda>_. None), ex_writes = (\<lambda>_. [''he'', ''llo'']), ex_wait = (\<lambda>_. None), ex_ctx = (\<lambda>_. None)\<rparr>"

definition demo_exec_action :: ActionConfig where
  "demo_exec_action = demo_action\<lparr>ac_Type := ''exec'', ac_Command := ''/bin/echo'', ac_Args := [''-n'', ''${msg}'']\<rparr>"


end
