(* ===== verification/Heartbeat_Logs.thy ===== *)
theory Heartbeat_Logs
  imports Store Template Utf8 Go_Url_Parse
begin

text \<open>
  The audit log of failed heartbeat pushes (\<^verbatim>\<open>internal/store/heartbeat_logs.go\<close>) and the connection
  handling of \<^verbatim>\<open>internal/store/sqlite.go\<close>: what is written for a failed push, how the newest records
  are read back, the busy timeout of writes with a deadline and the permissions of the store files.
  Everything a caller passes is filtered here once more, so the stored text is bounded, valid UTF-8,
  on one line and free of URLs.
\<close>

section \<open>Writers with a deadline\<close>

definition sqliteBusyTimeoutMS :: int where "sqliteBusyTimeoutMS = 250"

text \<open>What the connection meets: whether it can be had, the time left until the caller's deadline,
  whether the two PRAGMA statements fail, and the fault of the write.\<close>

record dl_env =
  dl_conn_fails :: bool
  dl_remaining :: "duration option"
  dl_pragma_fails :: bool
  dl_restore_fails :: bool
  dl_fault :: fault

text \<open>The state is the connection's busy timeout in milliseconds and the database.\<close>

type_synonym conn = "int \<times> db"

definition withDeadlineWriter :: "dl_env \<Rightarrow> 'a op \<Rightarrow> conn \<Rightarrow> (store_err + 'a) \<times> conn" where
  "withDeadlineWriter E write c =
     (let (busy, d) = c; run = with_fault (dl_fault E) write d in
      if dl_conn_fails E then (Inl ErrDB, c)
      else case dl_remaining E of
        None \<Rightarrow> (fst run, busy, snd run)
      | Some remaining \<Rightarrow>
          if remaining \<le> 0 then (Inl ErrDB, c)
          else if Milliseconds remaining < sqliteBusyTimeoutMS then
            (if dl_pragma_fails E then (Inl ErrDB, c)
             else (fst run, if dl_restore_fails E then Milliseconds remaining else sqliteBusyTimeoutMS, snd run))
          else (fst run, busy, snd run))"

section \<open>Text\<close>

definition heartbeatTargetMaxBytes :: nat where "heartbeatTargetMaxBytes = 128"
definition heartbeatOriginMaxBytes :: nat where "heartbeatOriginMaxBytes = 512"
definition heartbeatErrorMaxBytes :: nat where "heartbeatErrorMaxBytes = 2048"
definition heartbeatLogDefault :: int where "heartbeatLogDefault = 50"
definition heartbeatLogMax :: int where "heartbeatLogMax = 100"

text \<open>\<^verbatim>\<open>heartbeatLogURL\<close>: the scheme in any case, where \<open>s\<close> also folds to the long s, and at least one
  byte that is neither white space nor a quote or angle bracket.\<close>

definition fold_byte :: "char \<Rightarrow> char \<Rightarrow> bool" where
  "fold_byte l c \<longleftrightarrow> lower_char c = l"

definition url_stop :: "char \<Rightarrow> bool" where
  "url_stop c \<longleftrightarrow> c \<in> {CHR 0x09, CHR 0x0A, CHR 0x0C, CHR 0x0D, CHR 0x20, CHR ''<'', CHR ''>'', CHR 0x22, CHR 0x27}"

definition optional_s :: "string \<Rightarrow> nat" where
  "optional_s s =
     (if HasPrefix s long_s then 2
      else case s of c # _ \<Rightarrow> if fold_byte CHR ''s'' c then 1 else 0 | [] \<Rightarrow> 0)"

definition scheme_length :: "string \<Rightarrow> nat option" where
  "scheme_length s =
     (if ToLower (take 4 s) = ''http'' then
        (let n = 4 + optional_s (drop 4 s)
         in if HasPrefix (drop n s) ''://'' then Some (n + 3) else None)
      else None)"

definition heartbeatLogURL :: "string \<Rightarrow> (unit \<times> nat) option" where
  "heartbeatLogURL s =
     (case scheme_length s of
        None \<Rightarrow> None
      | Some n \<Rightarrow>
          (let rest = takeWhile (\<lambda>c. \<not> url_stop c) (drop n s)
           in if rest = [] then None else Some ((), n + length rest)))"

definition truncateHeartbeatText :: "string \<Rightarrow> nat \<Rightarrow> string" where
  "truncateHeartbeatText raw limit = ToValidUTF8 (if length raw > limit then take limit raw else raw)"

definition strip_urls :: "string \<Rightarrow> string" where
  "strip_urls = ReplaceAllStringFunc heartbeatLogURL (\<lambda>_. ''[url]'')"

definition blank_controls :: "string \<Rightarrow> string" where
  "blank_controls = map_runes (\<lambda>r. if IsControl r then '' '' else r)"

definition heartbeatAuditText :: "string \<Rightarrow> nat \<Rightarrow> string" where
  "heartbeatAuditText raw limit =
     truncateHeartbeatText (TrimSpace (blank_controls (strip_urls (truncateHeartbeatText raw (limit * 4))))) limit"

definition heartbeatAuditOrigin :: "string \<Rightarrow> string" where
  "heartbeatAuditOrigin raw =
     (if length raw > 8192 then []
      else case url_Parse (TrimSpace raw) of
        None \<Rightarrow> []
      | Some u \<Rightarrow>
          if u_Host u = [] \<or> u_Opaque u \<noteq> [] \<or> (u_Scheme u \<noteq> ''http'' \<and> u_Scheme u \<noteq> ''https'') then []
          else (let origin = url_String \<lparr>u_Scheme = u_Scheme u, u_Host = u_Host u, u_Opaque = [], u_Fragment = [],
                       u_RawFragment = [], u_HasUser = False, u_User = [], u_Path = [], u_RawPath = [],
                       u_RawQuery = [], u_ForceQuery = False\<rparr>
                in if length origin > heartbeatOriginMaxBytes then [] else origin))"

section \<open>Records\<close>

record HeartbeatLog =
  hl_ID :: nat
  hl_Target :: string
  hl_Origin :: string
  hl_Mode :: string
  hl_Health :: string
  hl_Error :: string
  hl_HTTPStatus :: int
  hl_DurationMS :: int
  hl_CreatedAt :: "gtime option" \<comment> \<open>\<open>None\<close> is the zero time\<close>

definition heartbeat_entry :: "gtime \<Rightarrow> HeartbeatLog \<Rightarrow> hb_row" where
  "heartbeat_entry wallNow entry =
     (let created = (case hl_CreatedAt entry of None \<Rightarrow> wallNow | Some t \<Rightarrow> t)
      in \<lparr>hb_id = 0,
          hb_target = heartbeatAuditText (hl_Target entry) heartbeatTargetMaxBytes,
          hb_origin = heartbeatAuditOrigin (hl_Origin entry),
          hb_mode = heartbeatAuditText (hl_Mode entry) 32,
          hb_health = heartbeatAuditText (hl_Health entry) 32,
          hb_error = heartbeatAuditText (hl_Error entry) heartbeatErrorMaxBytes,
          hb_http_status = (if hl_HTTPStatus entry < 100 \<or> hl_HTTPStatus entry > 599 then 0 else hl_HTTPStatus entry),
          hb_duration_ms = (if hl_DurationMS entry < 0 then 0 else hl_DurationMS entry),
          hb_created_at = created,
          hb_created_at_ms = UnixMilli created\<rparr>)"

definition SaveHeartbeatError :: "dl_env \<Rightarrow> gtime \<Rightarrow> HeartbeatLog \<Rightarrow> conn \<Rightarrow> (store_err + unit) \<times> conn" where
  "SaveHeartbeatError E wallNow entry = withDeadlineWriter E (insert_heartbeat (heartbeat_entry wallNow entry))"

definition log_of_hb :: "hb_row \<Rightarrow> HeartbeatLog" where
  "log_of_hb h =
     \<lparr>hl_ID = hb_id h, hl_Target = hb_target h, hl_Origin = hb_origin h, hl_Mode = hb_mode h, hl_Health = hb_health h,
      hl_Error = hb_error h, hl_HTTPStatus = hb_http_status h, hl_DurationMS = hb_duration_ms h,
      hl_CreatedAt = Some (fromUnixMilli (hb_created_at_ms h))\<rparr>"

text \<open>\<open>ORDER BY created_at_ms DESC, id DESC\<close>: sorted by id within equal times, newest first.\<close>

definition newest_first :: "hb_row list \<Rightarrow> hb_row list" where
  "newest_first rows = rev (sort_key hb_created_at_ms (sort_key hb_id rows))"

definition ListHeartbeatErrors :: "int \<Rightarrow> db \<Rightarrow> HeartbeatLog list" where
  "ListHeartbeatErrors limit d =
     (let limit1 = (if limit \<le> 0 then heartbeatLogDefault else limit);
          limit2 = (if limit1 > heartbeatLogMax then heartbeatLogMax else limit1)
      in map log_of_hb (take (nat limit2) (newest_first (db_heartbeat_logs d))))"

section \<open>Permissions of the store files\<close>

text \<open>The files the store creates and their permission bits. The environment says which calls fail;
  a file that the open creates gets the requested mode less the process's mask.\<close>

type_synonym files = "string \<Rightarrow> int option"

record file_env =
  fe_chmod_fails :: "string \<Rightarrow> bool"
  fe_open_fails :: "string \<Rightarrow> bool"
  fe_umask :: int

datatype file_err = ChmodStoreFile string | CreateStoreFile

fun chmod_all :: "file_env \<Rightarrow> string list \<Rightarrow> files \<Rightarrow> (file_err + unit) \<times> files" where
  "chmod_all F [] fs = (Inr (), fs)"
| "chmod_all F (p # ps) fs =
     (case fs p of
        None \<Rightarrow> chmod_all F ps fs
      | Some _ \<Rightarrow> if fe_chmod_fails F p then (Inl (ChmodStoreFile p), fs) else chmod_all F ps (fs(p \<mapsto> 0x180)))"

definition tightenStorePermissions :: "file_env \<Rightarrow> string \<Rightarrow> files \<Rightarrow> (file_err + unit) \<times> files" where
  "tightenStorePermissions F path fs =
     (if path = '':memory:'' then (Inr (), fs)
      else chmod_all F [path, path @ ''-wal'', path @ ''-shm''] fs)"

definition open_create :: "file_env \<Rightarrow> string \<Rightarrow> files \<Rightarrow> files" where
  "open_create F path fs =
     (case fs path of None \<Rightarrow> fs(path \<mapsto> and 0x180 (not (fe_umask F))) | Some _ \<Rightarrow> fs)"

definition prepareStoreFile :: "file_env \<Rightarrow> string \<Rightarrow> files \<Rightarrow> (file_err + unit) \<times> files" where
  "prepareStoreFile F path fs =
     (if path = '':memory:'' then (Inr (), fs)
      else case tightenStorePermissions F path fs of
        (Inl e, fs1) \<Rightarrow> (Inl e, fs1)
      | (Inr _, fs1) \<Rightarrow>
          if fe_open_fails F path then (Inl CreateStoreFile, fs1) else (Inr (), open_create F path fs1))"

section \<open>Lemmas\<close>

lemma deadline_writer_restores:
  "\<not> dl_restore_fails E \<Longrightarrow> fst (snd (withDeadlineWriter E w (sqliteBusyTimeoutMS, d))) = sqliteBusyTimeoutMS"
  by (auto simp: withDeadlineWriter_def Let_def split: option.splits)

lemma set_newest_first: "set (newest_first rows) = set rows"
  by (simp add: newest_first_def)

lemma newest_first_sorted: "sorted (map hb_created_at_ms (rev (newest_first rows)))"
  by (simp add: newest_first_def)

lemma heartbeat_list_bounded: "length (ListHeartbeatErrors limit d) \<le> 100"
  by (auto simp: ListHeartbeatErrors_def heartbeatLogDefault_def heartbeatLogMax_def Let_def min_def)

lemma chmod_all_result:
  "chmod_all F ps fs = (Inr u, fs') \<Longrightarrow> fs' p = (if p \<in> set ps \<and> fs p \<noteq> None then Some 0x180 else fs p)"
proof (induction ps arbitrary: fs)
  case (Cons q ps)
  show ?case
  proof (cases "fs q")
    case None
    with Cons.prems Cons.IH [of fs] show ?thesis by auto
  next
    case (Some m)
    with Cons.prems have "chmod_all F ps (fs(q \<mapsto> 0x180)) = (Inr u, fs')" by (auto split: if_splits)
    from Cons.IH [OF this] Some show ?thesis by auto
  qed
qed simp

lemma store_files_private:
  assumes "prepareStoreFile F path fs = (Inr u, fs')" "path \<noteq> '':memory:''"
  shows "fs' path \<noteq> None \<and> (\<forall>p \<in> {path, path @ ''-wal'', path @ ''-shm''}. \<forall>mode. fs' p = Some mode \<longrightarrow>
    mode = 0x180 \<or> mode = and 0x180 (not (fe_umask F)))"
proof -
  obtain fs1 where t: "chmod_all F [path, path @ ''-wal'', path @ ''-shm''] fs = (Inr (), fs1)" "fs' = open_create F path fs1"
    using assms by (auto simp: prepareStoreFile_def tightenStorePermissions_def split: prod.splits sum.splits if_splits)
  have "fs1 p = (if fs p \<noteq> None then Some 0x180 else fs p)" if "p \<in> {path, path @ ''-wal'', path @ ''-shm''}" for p
    using chmod_all_result [OF t(1)] that by auto
  then show ?thesis unfolding t(2) by (auto simp: open_create_def split: option.splits if_splits)
qed

end
