(* ===== verification/Heartbeat_Audit.thy ===== *)
theory Heartbeat_Audit
  imports Heartbeat_Logs
begin

text \<open>
  What can reach the heartbeat log: the text filter of \<open>Heartbeat_Logs\<close> leaves bounded, valid UTF-8 on
  one line in which \<^verbatim>\<open>heartbeatLogURL\<close> matches nowhere, and the origin is a scheme and an authority.
\<close>

section \<open>The URL pattern looks at a bounded prefix\<close>

definition scheme_of :: "string \<Rightarrow> bool" where
  "scheme_of h \<longleftrightarrow> (\<exists>a b. h = a @ b @ ''://'' \<and> ToLower a = ''http'' \<and>
     (b = [] \<or> b = long_s \<or> (\<exists>c. b = [c] \<and> lower_char c = CHR ''s'')))"

lemma optional_s_cases:
  "optional_s s = length b" if "s = b @ ''://'' @ r" "b = [] \<or> b = long_s \<or> (\<exists>c. b = [c] \<and> lower_char c = CHR ''s'')"
  using that by (auto simp: optional_s_def long_s_def HasPrefix_def fold_byte_def lower_char_def)

lemma optional_s_split:
  "\<exists>b r. s = b @ r \<and> optional_s s = length b \<and> (b = [] \<or> b = long_s \<or> (\<exists>c. b = [c] \<and> lower_char c = CHR ''s''))"
proof (cases "HasPrefix s long_s")
  case True
  then obtain r where "s = long_s @ r" by (auto simp: HasPrefix_iff)
  with True have "optional_s s = length long_s" by (simp add: optional_s_def long_s_def)
  with \<open>s = long_s @ r\<close> show ?thesis by blast
next
  case False
  show ?thesis
  proof (cases "s \<noteq> [] \<and> lower_char (hd s) = CHR ''s''")
    case True
    with False have "optional_s s = length [hd s]" "s = [hd s] @ tl s"
      by (auto simp: optional_s_def fold_byte_def split: list.splits)
    with True show ?thesis by blast
  next
    case no: False
    with False have "optional_s s = length []" by (auto simp: optional_s_def fold_byte_def split: list.splits)
    then show ?thesis by blast
  qed
qed

lemma scheme_length_iff: "scheme_length s = Some n \<longleftrightarrow> (\<exists>h r. s = h @ r \<and> scheme_of h \<and> n = length h)"
proof
  assume n: "scheme_length s = Some n"
  obtain b r where b: "drop 4 s = b @ r" "optional_s (drop 4 s) = length b"
      "b = [] \<or> b = long_s \<or> (\<exists>c. b = [c] \<and> lower_char c = CHR ''s'')"
    using optional_s_split by blast
  from n b have l: "ToLower (take 4 s) = ''http''" "HasPrefix (drop (4 + length b) s) ''://''" "n = 4 + length b + 3"
    by (auto simp: scheme_length_def Let_def split: if_splits)
  have s: "s = take 4 s @ b @ r" using b(1) by (metis append_take_drop_id)
  have "length (take 4 s) = 4" using arg_cong [OF l(1), of length] by (simp add: ToLower_def)
  then have "drop (4 + length b) s = r" using s by (metis append_assoc append_eq_conv_conj length_append)
  then obtain r' where "r = ''://'' @ r'" using l(2) by (auto simp: HasPrefix_iff)
  then have "s = (take 4 s @ b @ ''://'') @ r'" using s by simp
  moreover have "scheme_of (take 4 s @ b @ ''://'')" unfolding scheme_of_def using l(1) b(3) by blast
  ultimately show "\<exists>h r. s = h @ r \<and> scheme_of h \<and> n = length h"
    using l(3) \<open>length (take 4 s) = 4\<close> by (intro exI conjI) (assumption, assumption, simp)
next
  assume "\<exists>h r. s = h @ r \<and> scheme_of h \<and> n = length h"
  then obtain a b r where s0: "s = (a @ b @ ''://'') @ r" "ToLower a = ''http''"
      "b = [] \<or> b = long_s \<or> (\<exists>c. b = [c] \<and> lower_char c = CHR ''s'')" "n = length (a @ b @ ''://'')"
    unfolding scheme_of_def by blast
  then have s: "s = a @ b @ ''://'' @ r" "ToLower a = ''http''"
      "b = [] \<or> b = long_s \<or> (\<exists>c. b = [c] \<and> lower_char c = CHR ''s'')" "n = length (a @ b @ ''://'')"
    by simp_all
  have a: "length a = 4" using arg_cong [OF s(2), of length] by (simp add: ToLower_def)
  have "optional_s (drop 4 s) = length b" using optional_s_cases [OF _ s(3)] s(1) a by simp
  with a s show "scheme_length s = Some n" by (simp add: scheme_length_def HasPrefix_iff)
qed

lemma heartbeatLogURL_iff:
  "heartbeatLogURL s \<noteq> None \<longleftrightarrow> (\<exists>h c r. s = h @ c # r \<and> scheme_of h \<and> \<not> url_stop c)"
proof -
  have "heartbeatLogURL s \<noteq> None \<longleftrightarrow> (\<exists>n. scheme_length s = Some n \<and> takeWhile (\<lambda>c. \<not> url_stop c) (drop n s) \<noteq> [])"
    by (auto simp: heartbeatLogURL_def Let_def split: option.splits if_splits)
  also have "\<dots> \<longleftrightarrow> (\<exists>h t. s = h @ t \<and> scheme_of h \<and> takeWhile (\<lambda>c. \<not> url_stop c) t \<noteq> [])"
    unfolding scheme_length_iff by (metis append_eq_conv_conj)
  also have "\<dots> \<longleftrightarrow> (\<exists>h c r. s = h @ c # r \<and> scheme_of h \<and> \<not> url_stop c)"
    by (metis list.exhaust takeWhile.simps(1,2) list.distinct(1))
  finally show ?thesis .
qed

lemma scheme_of_bytes: "scheme_of h \<Longrightarrow> c \<in> set h \<Longrightarrow> lower_char c \<in> set ''htps:/'' \<or> c \<in> set long_s"
proof -
  assume "scheme_of h" "c \<in> set h"
  then obtain a b where h: "h = a @ b @ ''://''" "ToLower a = ''http''" "b = [] \<or> b = long_s \<or> (\<exists>c. b = [c] \<and> lower_char c = CHR ''s'')"
    unfolding scheme_of_def by blast
  have "lower_char c \<in> set ''http''" if "c \<in> set a" using that h(2) unfolding ToLower_def by (metis imageI list.set_map)
  then show ?thesis using h \<open>c \<in> set h\<close> by (auto simp: lower_char_def)
qed

lemma scheme_of_head: "scheme_of h \<Longrightarrow> h \<noteq> [] \<and> lower_char (hd h) = CHR ''h''"
  unfolding scheme_of_def by (auto simp: ToLower_def)

lemma no_url_start [simp]: "lower_char c \<noteq> CHR ''h'' \<Longrightarrow> heartbeatLogURL (c # s) = None"
  using heartbeatLogURL_iff [of "c # s"] scheme_of_head by (metis hd_append2 list.sel(1))

text \<open>Replacing the text from some point on, by text that starts with a byte foreign to the pattern,
  does not create a match.\<close>

definition breaks_off :: "string \<Rightarrow> string \<Rightarrow> bool" where
  "breaks_off t t' \<longleftrightarrow> t' = [] \<or>
     (lower_char (hd t') \<notin> set ''htps:/'' \<and> hd t' \<notin> set long_s \<and> (url_stop (hd t') \<or> (t \<noteq> [] \<and> \<not> url_stop (hd t))))"

lemma url_transfer:
  assumes "heartbeatLogURL (p @ t') \<noteq> None" "breaks_off t t'"
  shows "heartbeatLogURL (p @ t) \<noteq> None"
proof -
  from assms(1) obtain h c r where h: "p @ t' = h @ c # r" "scheme_of h" "\<not> url_stop c"
    unfolding heartbeatLogURL_iff by blast
  then obtain q where "(p = h @ q \<and> q @ t' = c # r) \<or> (h = p @ q \<and> t' = q @ c # r)"
    by (auto simp: append_eq_append_conv2)
  then consider "p = h @ q" "q @ t' = c # r" | "h = p @ q" "q \<noteq> []" "t' = q @ c # r" by fastforce
  then show ?thesis
  proof cases
    case 1
    show ?thesis
    proof (cases q)
      case Nil
      with 1 h(3) assms(2) obtain d t2 where "t = d # t2" "\<not> url_stop d"
        by (cases t) (auto simp: breaks_off_def)
      with 1 Nil h(2) show ?thesis unfolding heartbeatLogURL_iff by auto
    next
      case (Cons x q')
      with 1 have "p @ t = h @ c # (q' @ t)" by simp
      with h(2,3) show ?thesis unfolding heartbeatLogURL_iff by blast
    qed
  next
    case 2
    then have "hd t' \<in> set h" "t' \<noteq> []" by (cases q; auto)+
    with assms(2) scheme_of_bytes [OF h(2)] show ?thesis by (auto simp: breaks_off_def)
  qed
qed

definition url_free :: "string \<Rightarrow> bool" where
  "url_free s \<longleftrightarrow> (\<forall>a b. s = a @ b \<longrightarrow> heartbeatLogURL b = None)"

lemma url_free_Nil [simp]: "url_free []"
  by (simp add: url_free_def heartbeatLogURL_def scheme_length_def ToLower_def)

lemma url_free_Cons: "url_free (c # s) \<longleftrightarrow> heartbeatLogURL (c # s) = None \<and> url_free s"
  unfolding url_free_def by (metis append_Cons append_Nil append_eq_Cons_conv)

lemma url_free_infix: "url_free (a @ m @ b) \<Longrightarrow> url_free m"
  unfolding url_free_def using url_transfer [where t = b and t' = "[]"]
  by (metis append.right_neutral append_assoc breaks_off_def)

section \<open>The URL replacement\<close>

abbreviation replaced :: "string \<Rightarrow> string" where
  "replaced s \<equiv> concat (map (piece_subst (\<lambda>_. ''[url]'')) (pieces heartbeatLogURL s))"

lemma replaced_simps:
  "replaced [] = []"
  "heartbeatLogURL (c # cs) = None \<Longrightarrow> replaced (c # cs) = c # replaced cs"
  "heartbeatLogURL s = Some (m, n) \<Longrightarrow> replaced s = ''[url]'' @ replaced (drop n s)"
proof -
  show "replaced [] = []" by (simp add: pieces.simps)
  show "heartbeatLogURL (c # cs) = None \<Longrightarrow> replaced (c # cs) = c # replaced cs"
    by (subst pieces.simps) simp
  assume m: "heartbeatLogURL s = Some (m, n)"
  then have "s \<noteq> []" "0 < n"
    by (auto simp: heartbeatLogURL_def scheme_length_def Let_def ToLower_def split: option.splits if_splits)
  with m show "replaced s = ''[url]'' @ replaced (drop n s)" 
    by (cases s) (simp, subst pieces.simps, simp)
qed

lemma replaced_induct [case_names Nil Lit Hit]:
  assumes "P []"
    and "\<And>c cs. heartbeatLogURL (c # cs) = None \<Longrightarrow> P cs \<Longrightarrow> P (c # cs)"
    and "\<And>s n. heartbeatLogURL s = Some ((), n) \<Longrightarrow> 0 < n \<Longrightarrow> s \<noteq> [] \<Longrightarrow> P (drop n s) \<Longrightarrow> P s"
  shows "P s"
proof (induction s rule: length_induct)
  case (1 s)
  show ?case
  proof (cases "heartbeatLogURL s")
    case None
    with 1 assms(1,2) show ?thesis by (cases s) auto
  next
    case (Some m)
    then obtain n where n: "heartbeatLogURL s = Some ((), n)" by (cases m) auto
    then have "0 < n" "s \<noteq> []"
      by (auto simp: heartbeatLogURL_def scheme_length_def Let_def ToLower_def split: option.splits if_splits)
    with 1 n show ?thesis by (intro assms(3) [OF n]) auto
  qed
qed

lemma url_match_head: "heartbeatLogURL s = Some m \<Longrightarrow> lower_char (hd s) = CHR ''h''"
  by (metis heartbeatLogURL_iff hd_append2 option.distinct(1) scheme_of_head)

lemma not_stop_h: "lower_char c = CHR ''h'' \<Longrightarrow> \<not> url_stop c"
  by (auto simp: url_stop_def lower_char_def)

lemma replaced_agrees: "\<exists>p t t'. s = p @ t \<and> replaced s = p @ t' \<and> breaks_off t t'"
proof (induction s rule: replaced_induct)
  case Nil
  show ?case by (auto simp: replaced_simps(1) breaks_off_def)
next
  case (Lit c cs)
  then obtain p t t' where "cs = p @ t" "replaced cs = p @ t'" "breaks_off t t'" by blast
  then have "c # cs = (c # p) @ t \<and> replaced (c # cs) = (c # p) @ t' \<and> breaks_off t t'"
    using replaced_simps(2) [OF Lit(1)] by simp
  then show ?case by blast
next
  case (Hit s n)
  have "breaks_off s (replaced s)"
    using Hit not_stop_h url_match_head by (auto simp: breaks_off_def replaced_simps(3) long_s_def lower_char_def)
  then show ?case by (metis append_Nil)
qed

lemma replaced_url_free: "url_free (replaced s)"
proof (induction s rule: replaced_induct)
  case (Lit c cs)
  obtain p t t' where p: "cs = p @ t" "replaced cs = p @ t'" "breaks_off t t'" using replaced_agrees by blast
  then have "heartbeatLogURL (c # replaced cs) = None" using url_transfer [of "c # p" t' t] Lit(1)
    by (metis append_Cons)
  with Lit show ?case by (simp only: replaced_simps(2) url_free_Cons simp_thms)
next
  case (Hit s n)
  then show ?case by (simp add: replaced_simps(3) url_free_Cons lower_char_def)
qed (simp add: replaced_simps(1))

lemma match_end:
  assumes "heartbeatLogURL s = Some ((), n)"
  shows "drop n s = [] \<or> ascii (hd (drop n s))"
proof -
  obtain k where k: "n = k + length (takeWhile (\<lambda>c. \<not> url_stop c) (drop k s))"
    using assms by (auto simp: heartbeatLogURL_def Let_def split: option.splits if_splits)
  then have "drop n s = dropWhile (\<lambda>c. \<not> url_stop c) (drop k s)"
    by (simp add: dropWhile_eq_drop add.commute)
  moreover have "ascii c" if "url_stop c" for c using that by (auto simp: url_stop_def ascii_def)
  ultimately show ?thesis using hd_dropWhile [of "\<lambda>c. \<not> url_stop c" "drop k s"] by metis
qed

lemma ascii_not_cont: "ascii c \<Longrightarrow> \<not> cont c"
  using cont_not_ascii by blast

lemma replaced_valid: "valid_utf8 (pre @ s) \<Longrightarrow> valid_utf8 (pre @ replaced s)"
proof (induction s arbitrary: pre rule: replaced_induct)
  case (Lit c cs)
  then show ?case using Lit.IH [of "pre @ [c]"] by (simp add: replaced_simps(2))
next
  case (Hit s n)
  have h: "ascii (hd s)" using url_match_head [OF Hit(1)] by (auto simp: ascii_def lower_char_def Let_def split: if_splits)
  with Hit(3) Hit.prems have v: "valid_utf8 pre" "valid_utf8 s"
    using valid_split [of pre "hd s" "tl s"] ascii_not_cont by auto
  have "valid_utf8 (drop n s)"
  proof (cases "drop n s")
    case (Cons d ds)
    with match_end [OF Hit(1)] have "\<not> cont d" using ascii_not_cont by simp
    with v(2) Cons valid_split [of "take n s" d ds] show ?thesis by (metis append_take_drop_id)
  qed (simp add: valid_simps(1))
  then have "valid_utf8 (replaced (drop n s))" using Hit.IH [of "[]"] by simp
  moreover have "valid_utf8 ''[url]''" by code_simp
  ultimately show ?case using v(1) replaced_simps(3) [OF Hit(1)] by (simp only: valid_append)
qed (simp add: replaced_simps(1))

section \<open>Control characters, white space and truncation\<close>

lemma blank_simps:
  "blank_controls [] = []"
  "rune_width s = Some n \<Longrightarrow> blank_controls s =
     (if IsControl (take n s) then '' '' else take n s) @ blank_controls (drop n s)"
  by (simp_all add: blank_controls_def map_runes_def runes_width)

lemma breaks_off_blank: "breaks_off t (CHR '' '' # t')"
  by (simp add: breaks_off_def url_stop_def long_s_def lower_char_def)

lemma blank_agrees: "valid_utf8 s \<Longrightarrow> \<exists>p t t'. s = p @ t \<and> blank_controls s = p @ t' \<and> breaks_off t t'"
proof (induction s rule: rune_induct)
  case Nil
  show ?case by (auto simp: blank_simps(1) breaks_off_def)
next
  case (Rune s n)
  show ?case
  proof (cases "IsControl (take n s)")
    case True
    then have "s = [] @ s \<and> blank_controls s = [] @ (CHR '' '' # blank_controls (drop n s)) \<and>
        breaks_off s (CHR '' '' # blank_controls (drop n s))"
      by (simp add: blank_simps(2) [OF Rune(1)] breaks_off_blank)
    then show ?thesis by blast
  next
    case False
    obtain p t t' where p: "drop n s = p @ t" "blank_controls (drop n s) = p @ t'" "breaks_off t t'"
      using Rune valid_simps(2) [OF Rune(1)] by blast
    then have "s = (take n s @ p) @ t \<and> blank_controls s = (take n s @ p) @ t' \<and> breaks_off t t'"
      using False by (simp add: blank_simps(2) [OF Rune(1)] flip: p(1))
    then show ?thesis by blast
  qed
qed (use valid_simps(3) in blast)

lemma url_free_append:
  assumes "url_free (a @ s)" "s = p @ t" "s' = p @ t'" "breaks_off t t'" "url_free s'"
  shows "url_free (a @ s')"
  using assms(1)
proof (induction a)
  case (Cons c a)
  have "heartbeatLogURL ((c # a @ p) @ t) = None" using Cons.prems assms(2) by (simp add: url_free_Cons)
  then have "heartbeatLogURL ((c # a @ p) @ t') = None" using url_transfer assms(4) by blast
  with Cons assms(3) show ?case by (simp add: url_free_Cons)
qed (use assms in simp)

lemma blank_ok: "valid_utf8 s \<Longrightarrow> url_free s \<Longrightarrow> valid_utf8 (blank_controls s) \<and> url_free (blank_controls s)"
proof (induction s rule: rune_induct)
  case (Rune s n)
  have v: "valid_utf8 (drop n s)" using Rune valid_simps(2) [OF Rune(1)] by blast
  have f: "url_free (take n s @ drop n s)" using Rune.prems by simp
  then have "url_free (drop n s)" using url_free_infix [of "take n s" "drop n s" "[]"] by simp
  with v Rune.IH have ih: "valid_utf8 (blank_controls (drop n s))" "url_free (blank_controls (drop n s))" by blast+
  show ?case
  proof (cases "IsControl (take n s)")
    case True
    have "valid_utf8 '' ''" by code_simp
    from True ih valid_append [OF this, of "blank_controls (drop n s)"] show ?thesis
      by (simp add: blank_simps(2) [OF Rune(1)] url_free_Cons lower_char_def)
  next
    case False
    obtain p t t' where "drop n s = p @ t" "blank_controls (drop n s) = p @ t'" "breaks_off t t'"
      using blank_agrees [OF v] by blast
    from url_free_append [OF f this ih(2)] rune_valid [OF Rune(1)] ih(1) False
    show ?thesis by (simp add: blank_simps(2) [OF Rune(1)] valid_append)
  qed
qed (use valid_simps(3) in \<open>auto simp: blank_simps(1) valid_simps(1)\<close>)

text \<open>No ASCII control byte is left: in a rune of several bytes none is ASCII.\<close>

definition control_byte :: "char \<Rightarrow> bool" where
  "control_byte c \<longleftrightarrow> (of_char c :: int) < 32 \<or> (of_char c :: int) = 127"

lemma rune_bytes_ascii:
  assumes "rune_width s = Some n" "c \<in> set (take n s)" "ascii c"
  shows "take n s = [c]"
proof -
  obtain i where i: "i < n" "i < length s" "c = s ! i" using assms(2) by (auto simp: in_set_conv_nth)
  have "i = 0" using rune_tail_cont [OF assms(1), of i] i assms(3) cont_not_ascii by (cases i) auto
  with i assms show ?thesis by (cases s) (auto simp: rune_width_def)
qed

lemma blank_no_controls: "valid_utf8 s \<Longrightarrow> c \<in> set (blank_controls s) \<Longrightarrow> \<not> control_byte c"
proof (induction s rule: rune_induct)
  case (Rune s n)
  have v: "valid_utf8 (drop n s)" using Rune valid_simps(2) [OF Rune(1)] by blast
  have "\<not> control_byte c" if "c \<in> set (take n s)" "\<not> IsControl (take n s)"
  proof
    assume k: "control_byte c"
    then have "ascii c" by (auto simp: control_byte_def ascii_def)
    from rune_bytes_ascii [OF Rune(1) that(1) this] k that(2) show False by (simp add: IsControl_def control_byte_def)
  qed
  moreover have "\<not> control_byte (CHR '' '')" by (simp add: control_byte_def)
  ultimately show ?case
    using Rune v by (auto simp: blank_simps(2) [OF Rune(1)] split: if_splits)
qed (use valid_simps(3) in \<open>auto simp: blank_simps(1)\<close>)

lemma trim_left_split: "\<exists>es. set es \<subseteq> set encs \<and> [] \<notin> set es \<and> s = concat es @ trim_left_with encs s"
proof (induction encs s rule: trim_left_with.induct)
  case (1 encs s)
  show ?case
  proof (cases "find (\<lambda>e. e \<noteq> [] \<and> HasPrefix s e) encs")
    case None
    then have "trim_left_with encs s = s" by (subst trim_left_with.simps) simp
    then show ?thesis by (metis append_Nil concat.simps(1) empty_iff empty_set empty_subsetI)
  next
    case (Some e)
    then have e: "e \<in> set encs" "e \<noteq> []" "HasPrefix s e" by (auto simp: find_Some_iff)
    then obtain t where t: "s = e @ t" by (auto simp: HasPrefix_iff)
    with e(2) have "s \<noteq> []" by simp
    then have tr: "trim_left_with encs s = trim_left_with encs (drop (length e) s)"
      using Some by (subst trim_left_with.simps) simp
    obtain es where "set es \<subseteq> set encs" "[] \<notin> set es" "drop (length e) s = concat es @ trim_left_with encs (drop (length e) s)"
      using "1.IH" [OF Some \<open>s \<noteq> []\<close>] by blast
    with t e tr have "set (e # es) \<subseteq> set encs \<and> [] \<notin> set (e # es) \<and> s = concat (e # es) @ trim_left_with encs s" by simp
    then show ?thesis by blast
  qed
qed

lemma space_encodings_valid: "list_all valid_utf8 space_encodings"
  by code_simp

lemma valid_concat: "list_all valid_utf8 es \<Longrightarrow> valid_utf8 (concat es)"
  by (induction es) (simp_all add: valid_simps(1) valid_append)

lemma valid_head: "valid_utf8 (c # s) \<Longrightarrow> \<not> cont c"
  using valid_simps(3) [of c s] by (auto simp: rune_width_def cont_not_ascii cont_not_lead)

lemma TrimSpace_infix: "\<exists>a b. s = a @ TrimSpace s @ b \<and> valid_utf8 a \<and> valid_utf8 b"
proof -
  let ?l = "trim_left_with space_encodings s"
  obtain es where es: "set es \<subseteq> set space_encodings" "s = concat es @ ?l" using trim_left_split by blast
  obtain fs where fs: "set fs \<subseteq> set (map rev space_encodings)"
      "rev ?l = concat fs @ trim_left_with (map rev space_encodings) (rev ?l)" using trim_left_split by blast
  have "?l = TrimSpace s @ concat (map rev (rev fs))"
    using arg_cong [OF fs(2), of rev] by (simp add: TrimSpace_def rev_concat)
  moreover have "list_all valid_utf8 es" "list_all valid_utf8 (map rev (rev fs))"
    using es(1) fs(1) space_encodings_valid by (auto simp: list_all_iff)
  ultimately show ?thesis using es(2) valid_concat by metis
qed

lemma TrimSpace_valid:
  assumes "valid_utf8 s"
  shows "valid_utf8 (TrimSpace s)"
proof -
  obtain a b where ab: "s = a @ TrimSpace s @ b" "valid_utf8 a" "valid_utf8 b" using TrimSpace_infix by blast
  then have v: "valid_utf8 (TrimSpace s @ b)" using assms valid_append by metis
  show ?thesis
  proof (cases b)
    case (Cons c b')
    with ab(3) valid_head v valid_split show ?thesis by metis
  qed (use v in simp)
qed

section \<open>Stored text\<close>

definition audit_text :: "nat \<Rightarrow> string \<Rightarrow> bool" where
  "audit_text limit t \<longleftrightarrow> length t \<le> limit \<and> valid_utf8 t \<and> (\<forall>c \<in> set t. \<not> control_byte c) \<and> url_free t"

lemma truncate_length: "length (truncateHeartbeatText s k) \<le> k"
  using length_ToValidUTF8 [of "take k s"] length_ToValidUTF8 [of s] by (auto simp: truncateHeartbeatText_def)

lemma truncate_valid: "valid_utf8 (truncateHeartbeatText s k)"
  by (simp add: truncateHeartbeatText_def ToValidUTF8_valid)

lemma truncate_prefix: "valid_utf8 s \<Longrightarrow> \<exists>b. s = truncateHeartbeatText s k @ b"
  using ToValidUTF8_take [of s k] by (auto simp: truncateHeartbeatText_def valid_utf8_def)

lemma heartbeatAuditText_ok: "audit_text limit (heartbeatAuditText raw limit)"
proof -
  define s1 where "s1 = truncateHeartbeatText raw (limit * 4)"
  define s2 where "s2 = strip_urls s1"
  define s3 where "s3 = blank_controls s2"
  have v1: "valid_utf8 s1" by (simp add: s1_def truncate_valid)
  have 2: "valid_utf8 s2" "url_free s2"
    using replaced_valid [of "[]" s1] replaced_url_free v1 by (simp_all add: s2_def strip_urls_def ReplaceAllStringFunc_def)
  then have 3: "valid_utf8 s3" "url_free s3" "\<forall>c \<in> set s3. \<not> control_byte c"
    using blank_ok blank_no_controls unfolding s3_def by blast+
  obtain a b where t: "s3 = a @ TrimSpace s3 @ b" using TrimSpace_infix by blast
  obtain b' where r: "TrimSpace s3 = heartbeatAuditText raw limit @ b'"
    using truncate_prefix [OF TrimSpace_valid [OF 3(1)]]
    by (metis heartbeatAuditText_def s1_def s2_def s3_def)
  have in3: "s3 = a @ heartbeatAuditText raw limit @ (b' @ b)" using t r by simp
  then have "url_free (heartbeatAuditText raw limit)" using 3(2) url_free_infix by metis
  moreover have "\<forall>c \<in> set (heartbeatAuditText raw limit). \<not> control_byte c"
    using 3(3) in3 by (metis UnCI set_append)
  moreover have "length (heartbeatAuditText raw limit) \<le> limit"
    unfolding heartbeatAuditText_def by (rule truncate_length)
  moreover have "valid_utf8 (heartbeatAuditText raw limit)"
    unfolding heartbeatAuditText_def by (rule truncate_valid)
  ultimately show ?thesis by (simp add: audit_text_def)
qed

lemma heartbeatAuditOrigin_ok:
  "length (heartbeatAuditOrigin raw) \<le> heartbeatOriginMaxBytes \<and>
   (heartbeatAuditOrigin raw = [] \<or>
    (\<exists>u. url_Parse (TrimSpace raw) = Some u \<and> u_Scheme u \<in> {''http'', ''https''} \<and>
       heartbeatAuditOrigin raw = u_Scheme u @ ''://'' @ url_escape encodeHost (u_Host u)))"
proof -
  have "url_escape encodePath [] = []" by simp
  then show ?thesis
    by (auto simp: heartbeatAuditOrigin_def url_String_def url_authority_def EscapedPath_def Let_def split: option.splits)
qed

text \<open>C27: Whatever a failed push reports, the record it leaves in the heartbeat log is bounded and carries
  no URL: every text field is valid UTF-8 of limited length without control characters in which no
  \<^verbatim>\<open>http(s)://\<close> URL occurs (so no push token in a path or query), the origin is at most a scheme and an
  authority, the status is a real HTTP status or 0, and the duration is not negative.\<close>

theorem heartbeat_log_carries_no_url:
  assumes "SaveHeartbeatError E wallNow entry (busy, d) = (r, busy', d')"
    and "h \<in> set (db_heartbeat_logs d') - set (db_heartbeat_logs d)"
  shows "audit_text 128 (hb_target h) \<and> audit_text 32 (hb_mode h) \<and> audit_text 32 (hb_health h) \<and>
    audit_text 2048 (hb_error h) \<and> length (hb_origin h) \<le> 512 \<and>
    (hb_origin h = [] \<or> (\<exists>u. url_Parse (TrimSpace (hl_Origin entry)) = Some u \<and> u_Scheme u \<in> {''http'', ''https''} \<and>
       hb_origin h = u_Scheme u @ ''://'' @ url_escape encodeHost (u_Host u))) \<and>
    (hb_http_status h = 0 \<or> 100 \<le> hb_http_status h \<and> hb_http_status h \<le> 599) \<and> 0 \<le> hb_duration_ms h"
proof -
  have "h = (heartbeat_entry wallNow entry)\<lparr>hb_id := db_hb_seq d + 1\<rparr>"
    using assms by (auto simp: SaveHeartbeatError_def withDeadlineWriter_def with_fault_def insert_heartbeat_def Let_def
        split: if_splits option.splits fault.splits)
  then show ?thesis
    using heartbeatAuditText_ok heartbeatAuditOrigin_ok [of "hl_Origin entry"]
    by (auto simp: heartbeat_entry_def Let_def heartbeatTargetMaxBytes_def heartbeatErrorMaxBytes_def heartbeatOriginMaxBytes_def)
qed

definition demo_hb_entry :: HeartbeatLog where
  "demo_hb_entry = \<lparr>hl_ID = 0, hl_Target = ''kuma'', hl_Origin = ''https://example.com/push/tok'', hl_Mode = ''kuma'',
     hl_Health = ''fail'', hl_Error = ''Post https://example.com/push/tok: refused'', hl_HTTPStatus = 7, hl_DurationMS = -3,
     hl_CreatedAt = Some 5000000\<rparr>"

definition demo_dl :: dl_env where
  "demo_dl = \<lparr>dl_conn_fails = False, dl_remaining = Some Second, dl_pragma_fails = False, dl_restore_fails = False, dl_fault = Fine\<rparr>"

theorem heartbeat_log_carries_no_url_witness:
  "map hb_error (db_heartbeat_logs (snd (snd (SaveHeartbeatError demo_dl 0 demo_hb_entry (250, empty_db))))) =
     [''Post [url] refused''] \<and> audit_text 2048 ''Post [url] refused''"
proof -
  define h where "h = hd (db_heartbeat_logs (snd (snd (SaveHeartbeatError demo_dl 0 demo_hb_entry (250, empty_db)))))"
  have 1: "map hb_error (db_heartbeat_logs (snd (snd (SaveHeartbeatError demo_dl 0 demo_hb_entry (250, empty_db))))) =
     [''Post [url] refused'']" by code_simp
  obtain r busy d' where run: "SaveHeartbeatError demo_dl 0 demo_hb_entry (250, empty_db) = (r, busy, d')"
    by (metis prod.exhaust)
  with 1 have "db_heartbeat_logs d' \<noteq> []" "hb_error h = ''Post [url] refused''" "h = hd (db_heartbeat_logs d')"
    by (auto simp: h_def)
  then have "h \<in> set (db_heartbeat_logs d') - set (db_heartbeat_logs empty_db)" by (simp add: empty_db_def)
  from heartbeat_log_carries_no_url [OF run this] \<open>hb_error h = _\<close> 1 show ?thesis by simp
qed

end
