(* ===== verification/Queue.thy ===== *)
theory Queue
  imports Maintenance Policy Handler_Errors Logger "HOL-Library.Signed_Division"
begin

text \<open>
  The durable worker (\<^verbatim>\<open>internal/queue/queue.go\<close>). A worker is a program in the state monad over
  \<open>qstate\<close>: the database, the rejection counters, the rule cache, the wake channel, the stop flag
  and the trace of handler calls. What the program cannot determine is read from an environment
  \<open>qenv\<close>, indexed by the number of the step that reads it: the clock, cancellation of the
  context, random numbers, the handlers' results, store faults and the store calls that other
  goroutines (other workers, the lease heartbeat, the HTTP server, retention) make just before
  one of this worker's own. A store fault is either \<open>Lost\<close> (the call had no effect) or \<open>Late\<close>
  (it took effect and the error is reported all the same).
\<close>

section \<open>Constants and the queue object\<close>

definition defaultHTTPActionTimeout :: duration where "defaultHTTPActionTimeout = 15 * Second"
definition defaultExecTimeout :: duration where "defaultExecTimeout = 60 * Second"
definition leaseSafetyMargin :: duration where "leaseSafetyMargin = 2 * Minute"

record Queue =
  q_buffer :: int
  q_workers :: int
  q_maxRetries :: int
  q_retryBase :: duration
  q_maxRetryDelay :: duration
  q_maxRetryAge :: duration
  q_lease :: duration
  q_owner :: string
  q_reg :: "string list"
  q_cfg :: "Config option"

definition actionTimeout :: "ActionConfig \<Rightarrow> duration" where
  "actionTimeout ac =
     (if ac_Type ac = ''exec''
      then if ac_Timeout ac > 0 then ac_Timeout ac else defaultExecTimeout
      else defaultHTTPActionTimeout)"

definition pass_time :: "Source \<Rightarrow> duration" where
  "pass_time src = fold (\<lambda>ac pass. wrap64 (pass + actionTimeout ac)) (src_Actions src) 0"

definition longest_pass :: "Config option \<Rightarrow> duration" where
  "longest_pass cfg =
     (case cfg of
        None \<Rightarrow> defaultHTTPActionTimeout
      | Some c \<Rightarrow> fold (\<lambda>src longest. if pass_time src > longest then pass_time src else longest)
                    (cf_Sources c) defaultHTTPActionTimeout)"

definition computeLease :: "Config option \<Rightarrow> duration" where
  "computeLease cfg =
     (let lease = wrap64 (longest_pass cfg + leaseSafetyMargin)
      in if lease < 5 * Minute then 5 * Minute else lease)"

definition New :: "QueueConfig \<Rightarrow> string list \<Rightarrow> Config option \<Rightarrow> string \<Rightarrow> Queue" where
  "New cfg reg sources owner =
     (let retryBase = (if qc_RetryBase cfg \<le> 0 then Second else qc_RetryBase cfg)
      in \<lparr>q_buffer = (if qc_Buffer cfg \<le> 0 then 1 else qc_Buffer cfg),
          q_workers = (if qc_Workers cfg \<le> 0 then 1 else qc_Workers cfg),
          q_maxRetries = (if qc_MaxRetries cfg < 0 then 0 else qc_MaxRetries cfg),
          q_retryBase = retryBase,
          q_maxRetryDelay = (if qc_MaxRetryDelay cfg < retryBase then 15 * Minute else qc_MaxRetryDelay cfg),
          q_maxRetryAge = (if qc_MaxRetryAge cfg < retryBase then 24 * Hour else qc_MaxRetryAge cfg),
          q_lease = computeLease sources,
          q_owner = (if owner = [] then ''local'' else owner),
          q_reg = reg,
          q_cfg = sources\<rparr>)"

definition new_drops :: "Config option \<Rightarrow> Counters" where
  "new_drops sources = NewCounters (case sources of None \<Rightarrow> [] | Some c \<Rightarrow> map src_Name (cf_Sources c))"

section \<open>State and environment\<close>

record handler_call =
  hc_event :: string
  hc_index :: nat
  hc_attempt :: int
  hc_action :: ActionConfig
  hc_vars :: gomap

record qstate =
  qs_db :: db
  qs_tick :: nat
  qs_calls :: "handler_call list"
  qs_drops :: Counters
  qs_cache :: regexpCache
  qs_wake :: int
  qs_stopped :: bool

record qenv =
  en_lib :: golib
  en_now :: "nat \<Rightarrow> gtime"
  en_cancel :: "nat \<Rightarrow> bool"
  en_rand :: "nat \<Rightarrow> int \<Rightarrow> int"
  en_handle :: "nat \<Rightarrow> handler_call \<Rightarrow> (string \<times> string) \<times> goerr option"
  en_fault :: "nat \<Rightarrow> fault"
  en_other :: "nat \<Rightarrow> call list"

type_synonym 'a prog = "(qstate, 'a) state"

text \<open>Primitive steps: reading an oracle and calling the store.\<close>

definition ask :: "(nat \<Rightarrow> 'a) \<Rightarrow> 'a prog" where
  "ask f = State (\<lambda>s. (f (qs_tick s), s\<lparr>qs_tick := qs_tick s + 1\<rparr>))"

definition store :: "qenv \<Rightarrow> 'a op \<Rightarrow> (store_err + 'a) prog" where
  "store E f = State (\<lambda>s.
     let d = fold exec_call (en_other E (qs_tick s)) (qs_db s); (r, d') = f d
     in case en_fault E (qs_tick s) of
          Fine \<Rightarrow> (r, s\<lparr>qs_db := d', qs_tick := qs_tick s + 1\<rparr>)
        | Lost \<Rightarrow> (Inl ErrDB, s\<lparr>qs_db := d, qs_tick := qs_tick s + 1\<rparr>)
        | Late \<Rightarrow> (Inl ErrDB, s\<lparr>qs_db := d', qs_tick := qs_tick s + 1\<rparr>))"

definition now :: "qenv \<Rightarrow> gtime prog" where "now E = ask (en_now E)"
definition isCanceled :: "qenv \<Rightarrow> bool prog" where "isCanceled E = ask (en_cancel E)"
definition isStopped :: "bool prog" where "isStopped = State (\<lambda>s. (qs_stopped s, s))"

definition handle :: "qenv \<Rightarrow> handler_call \<Rightarrow> ((string \<times> string) \<times> goerr option) prog" where
  "handle E hc = State (\<lambda>s. (en_handle E (qs_tick s) hc,
     s\<lparr>qs_calls := qs_calls s @ [hc], qs_tick := qs_tick s + 1\<rparr>))"

definition modify :: "(qstate \<Rightarrow> qstate) \<Rightarrow> unit prog" where
  "modify f = State (\<lambda>s. ((), f s))"

definition match_rules :: "qenv \<Rightarrow> Rule list \<Rightarrow> gomap \<Rightarrow> (match_err + bool) prog" where
  "match_rules E rs vars = State (\<lambda>s.
     let (r, c) = Match (en_lib E) rs vars (qs_cache s) in (r, s\<lparr>qs_cache := c\<rparr>))"

section \<open>Delays\<close>

function delay_loop :: "int \<Rightarrow> int \<Rightarrow> duration \<Rightarrow> duration \<Rightarrow> duration" where
  "delay_loop i attempt cap maxDelay =
     (if i < attempt \<and> cap < maxDelay
      then if cap > maxDelay sdiv 2 then maxDelay
           else delay_loop (i + 1) attempt (wrap64 (cap * 2)) maxDelay
      else cap)"
  by pat_completeness auto
termination by (relation "measure (\<lambda>(i, attempt, cap, m). nat (attempt - i))") auto

declare delay_loop.simps [simp del]

definition delay_cap :: "Queue \<Rightarrow> int \<Rightarrow> duration" where
  "delay_cap q attempt =
     (let cap = delay_loop 1 attempt (q_retryBase q) (q_maxRetryDelay q)
      in if cap > q_maxRetryDelay q then q_maxRetryDelay q else cap)"

definition jitter :: "qenv \<Rightarrow> nat \<Rightarrow> duration \<Rightarrow> duration" where
  "jitter E t cap = (if cap \<le> 0 then 0 else en_rand E t (cap + 1))"

definition retryDelay :: "qenv \<Rightarrow> Queue \<Rightarrow> int \<Rightarrow> duration prog" where
  "retryDelay E q attempt = ask (\<lambda>t. jitter E t (delay_cap q attempt))"

section \<open>The pass over one event\<close>

definition requeue :: "qenv \<Rightarrow> string \<Rightarrow> unit prog" where
  "requeue E eid = do { _ \<leftarrow> store E (RequeueEvent eid); State_Monad.return () }"

definition log_exists :: "string \<Rightarrow> unit op" where
  "log_exists eid d = (if exists_where (\<lambda>e. ev_id e = eid) (db_events d) then Inr () else Inl (ErrNotFound eid), d)"

definition logAction ::
  "qenv \<Rightarrow> pending_event \<Rightarrow> nat \<Rightarrow> string \<Rightarrow> string \<Rightarrow> int \<Rightarrow> bool \<Rightarrow> string \<Rightarrow> duration \<Rightarrow> unit prog" where
  "logAction E ev index action target attempt success detail dur = do {
     t \<leftarrow> now E;
     r \<leftarrow> store E (log_exists (pe_ID ev));
     case r of
       Inl _ \<Rightarrow> State_Monad.return ()
     | Inr _ \<Rightarrow> do {
         _ \<leftarrow> store E (insert_log (pe_ID ev) (int index) (pe_ReplayGeneration ev) action (RedactSensitive target)
                attempt success (RedactSensitive detail) dur t);
         State_Monad.return () } }"

text \<open>The continuation shared by the store calls of the action loop: an error requeues the event
  and ends the pass, success goes on with the next action.\<close>

definition proceed :: "qenv \<Rightarrow> string \<Rightarrow> (store_err + 'a) \<Rightarrow> bool prog" where
  "proceed E eid r = (case r of
     Inl _ \<Rightarrow> do { _ \<leftarrow> requeue E eid; State_Monad.return False }
   | Inr _ \<Rightarrow> State_Monad.return True)"

definition copyVars :: "gomap \<Rightarrow> gomap" where "copyVars vars = vars"

definition attempt_call :: "pending_event \<Rightarrow> nat \<Rightarrow> int \<Rightarrow> ActionConfig \<Rightarrow> gomap \<Rightarrow> handler_call" where
  "attempt_call ev index attempt ac vars =
     \<lparr>hc_event = pe_ID ev, hc_index = index, hc_attempt = attempt, hc_action = ac,
      hc_vars = AList.update ''action_index'' (Itoa (int index))
                  (AList.update ''attempt'' (Itoa attempt) (copyVars vars))\<rparr>"

definition dead_letter :: "qenv \<Rightarrow> pending_event \<Rightarrow> nat \<Rightarrow> string \<Rightarrow> bool prog" where
  "dead_letter E ev index detail = do {
     t \<leftarrow> now E;
     r \<leftarrow> store E (DeadAction (pe_ID ev) index detail t);
     proceed E (pe_ID ev) r }"

text \<open>What follows a failed attempt.\<close>

definition after_failure :: "qenv \<Rightarrow> Queue \<Rightarrow> pending_event \<Rightarrow> nat \<Rightarrow> int \<Rightarrow> goerr \<Rightarrow> bool prog" where
  "after_failure E q ev index attempt err = do {
     canceled \<leftarrow> isCanceled E;
     if canceled \<or> errors_Is_Canceled err
     then do { _ \<leftarrow> requeue E (pe_ID ev); State_Monad.return False }
     else let detail = RedactSensitive (Error_text err) in
       if IsNonRetryable (Some err) \<or> attempt \<ge> q_maxRetries q + 1
       then dead_letter E ev index detail
       else do {
         let retryAfter = RetryAfter err;
         delay \<leftarrow> (if retryAfter \<le> 0 then retryDelay E q attempt else State_Monad.return retryAfter);
         t \<leftarrow> now E;
         if \<not> t + delay < pe_RetryStartedAt ev + q_maxRetryAge q
         then dead_letter E ev index (''retry deadline exceeded: '' @ detail)
         else do {
           r \<leftarrow> store E (ScheduleActionRetry (pe_ID ev) index (t + delay) detail retryAfter);
           proceed E (pe_ID ev) r } } }"

text \<open>A started attempt: the handler call and what its result leads to.\<close>

definition dispatch :: "qenv \<Rightarrow> Queue \<Rightarrow> pending_event \<Rightarrow> gomap \<Rightarrow> nat \<Rightarrow> ActionConfig \<Rightarrow> int \<Rightarrow> bool prog" where
  "dispatch E q ev vars index ac attempt =
     (if ac_Type ac \<notin> set (q_reg q)
      then let detail = ''no handler for action type '' @ ac_Type ac in do {
        _ \<leftarrow> logAction E ev index (ac_Type ac) [] attempt False detail 0;
        dead_letter E ev index detail }
      else do {
        start \<leftarrow> now E;
        out \<leftarrow> handle E (attempt_call ev index attempt ac vars);
        stop \<leftarrow> now E;
        case snd out of
          None \<Rightarrow> do {
            _ \<leftarrow> logAction E ev index (ac_Type ac) (fst (fst out)) attempt True (snd (fst out)) (time_Sub stop start);
            t \<leftarrow> now E;
            r \<leftarrow> store E (CompleteAction (pe_ID ev) index t);
            proceed E (pe_ID ev) r }
        | Some err \<Rightarrow> do {
            _ \<leftarrow> logAction E ev index (ac_Type ac) (fst (fst out)) attempt False (Error_text err) (time_Sub stop start);
            after_failure E q ev index attempt err } })"

definition process_action ::
  "qenv \<Rightarrow> Queue \<Rightarrow> pending_event \<Rightarrow> gomap \<Rightarrow> action_state list \<Rightarrow> nat \<Rightarrow> ActionConfig \<Rightarrow> bool prog" where
  "process_action E q ev vars states index ac = do {
     canceled \<leftarrow> isCanceled E;
     if canceled then do { _ \<leftarrow> requeue E (pe_ID ev); State_Monad.return False }
     else case find (\<lambda>s. as_Index s = index) states of
       None \<Rightarrow> State_Monad.return True
     | Some st \<Rightarrow>
         if as_Status st = ADone \<or> as_Status st = ADead then State_Monad.return True
         else do {
           t \<leftarrow> now E;
           if as_Status st \<in> {APending, ARetrying} \<and> \<not> t < pe_RetryStartedAt ev + q_maxRetryAge q
           then do {
             r \<leftarrow> store E (ExpireAction (pe_ID ev) index t);
             proceed E (pe_ID ev) r }
           else if as_Status st = ARetrying \<and> as_NextAttemptMS st > UnixMilli t then State_Monad.return True
           else do {
             r \<leftarrow> store E (StartAction (pe_ID ev) index t);
             case r of
               Inl e \<Rightarrow> if e = ErrNoRows then State_Monad.return True
                        else do { _ \<leftarrow> requeue E (pe_ID ev); State_Monad.return False }
             | Inr attempt \<Rightarrow> dispatch E q ev vars index ac attempt } } }"

fun process_actions ::
  "qenv \<Rightarrow> Queue \<Rightarrow> pending_event \<Rightarrow> gomap \<Rightarrow> action_state list \<Rightarrow> nat \<Rightarrow> ActionConfig list \<Rightarrow> bool prog" where
  "process_actions E q ev vars states index [] = State_Monad.return True"
| "process_actions E q ev vars states index (ac # acs) = do {
     go \<leftarrow> process_action E q ev vars states index ac;
     if go then process_actions E q ev vars states (index + 1) acs else State_Monad.return False }"

text \<open>\<open>RefreshEventStatus\<close> is a SELECT and an UPDATE of their own.\<close>

definition select_aggregate :: "string \<Rightarrow> gtime \<Rightarrow> (ev_status \<times> int option \<times> int option) op" where
  "select_aggregate eid t d =
     (case aggregate (actions_of eid d) (UnixMilli t) of None \<Rightarrow> Inl (ErrNoActionState eid) | Some r \<Rightarrow> Inr r, d)"

definition refresh :: "qenv \<Rightarrow> string \<Rightarrow> (store_err + ev_status) prog" where
  "refresh E eid = do {
     t \<leftarrow> now E;
     a \<leftarrow> store E (select_aggregate eid t);
     case a of Inl e \<Rightarrow> State_Monad.return (Inl e) | Inr r \<Rightarrow> store E (refresh_write eid t r) }"

definition mark :: "qenv \<Rightarrow> string \<Rightarrow> ev_status \<Rightarrow> (store_err + unit) prog" where
  "mark E eid st = do { t \<leftarrow> now E; store E (UpdateEventStatus eid st t) }"

definition clears_payload :: "Queue \<Rightarrow> bool" where
  "clears_payload q = (case q_cfg q of None \<Rightarrow> False | Some c \<Rightarrow> sc_RetainPayload (cf_Store c) = Some False)"

text \<open>A skipped event: its status, then (only for a policy rejection) the counter, then the
  payload.\<close>

definition skip_event :: "qenv \<Rightarrow> Queue \<Rightarrow> string \<Rightarrow> unit prog \<Rightarrow> unit prog" where
  "skip_event E q eid count = do {
     r \<leftarrow> mark E eid Skipped;
     case r of
       Inl _ \<Rightarrow> requeue E eid
     | Inr _ \<Rightarrow> do {
         _ \<leftarrow> count;
         if clears_payload q then do { _ \<leftarrow> store E (ClearPayload eid); State_Monad.return () }
         else State_Monad.return () } }"

definition fail_event :: "qenv \<Rightarrow> string \<Rightarrow> 'a option prog" where
  "fail_event E eid = do { _ \<leftarrow> mark E eid Dead; State_Monad.return None }"

definition filtered_vars :: "qenv \<Rightarrow> Queue \<Rightarrow> pending_event \<Rightarrow> Source \<Rightarrow> string \<Rightarrow> gomap option prog" where
  "filtered_vars E q ev src payload =
     (let vars = AList.update ''delivery_id'' (pe_ExternalDeliveryID ev)
                   (AList.update ''event_id'' (pe_ID ev) (Extract (en_lib E) payload (src_Extract src)))
      in if \<not> snd (Allow (Some src) vars)
         then do {
           _ \<leftarrow> skip_event E q (pe_ID ev) (modify (\<lambda>s. s\<lparr>qs_drops := Inc (src_Name src) (qs_drops s)\<rparr>));
           State_Monad.return None }
         else do {
           m \<leftarrow> match_rules E (src_Rules src) vars;
           case m of
             Inl _ \<Rightarrow> fail_event E (pe_ID ev)
           | Inr False \<Rightarrow> do { _ \<leftarrow> skip_event E q (pe_ID ev) (State_Monad.return ()); State_Monad.return None }
           | Inr True \<Rightarrow> State_Monad.return (Some (Redact (en_lib E) (Some src) vars)) })"

definition get_payload :: "string \<Rightarrow> (string \<times> string) op" where
  "get_payload eid d = (GetPayload eid d, d)"

definition executionVars :: "qenv \<Rightarrow> Queue \<Rightarrow> pending_event \<Rightarrow> Source \<Rightarrow> gomap option prog" where
  "executionVars E q ev src =
     (if pe_VarsJSON ev \<noteq> []
      then (case unmarshalVars (pe_VarsJSON ev) of
              None \<Rightarrow> fail_event E (pe_ID ev)
            | Some None \<Rightarrow> fail_event E (pe_ID ev)
            | Some (Some vars) \<Rightarrow> State_Monad.return (Some vars))
      else do {
        r \<leftarrow> (if pe_Payload ev = [] then store E (get_payload (pe_ID ev))
              else State_Monad.return (Inr (pe_Payload ev, [])));
        case r of
          Inl _ \<Rightarrow> do { _ \<leftarrow> requeue E (pe_ID ev); State_Monad.return None }
        | Inr (payload, _) \<Rightarrow>
            if payload = [] then fail_event E (pe_ID ev)
            else filtered_vars E q ev src payload })"

definition list_states :: "string \<Rightarrow> action_state list op" where
  "list_states eid d = (Inr (ListActionStates eid d), d)"

definition run_plan :: "qenv \<Rightarrow> Queue \<Rightarrow> pending_event \<Rightarrow> Source \<Rightarrow> gomap \<Rightarrow> unit prog" where
  "run_plan E q ev src vars = do {
     l \<leftarrow> store E (list_states (pe_ID ev));
     case l of
       Inl _ \<Rightarrow> requeue E (pe_ID ev)
     | Inr states \<Rightarrow> do {
         go \<leftarrow> process_actions E q ev vars states 0 (src_Actions src);
         if \<not> go then State_Monad.return ()
         else do {
           r \<leftarrow> refresh E (pe_ID ev);
           case r of Inl _ \<Rightarrow> requeue E (pe_ID ev) | Inr _ \<Rightarrow> State_Monad.return () } } }"

definition process :: "qenv \<Rightarrow> Queue \<Rightarrow> pending_event \<Rightarrow> Source \<Rightarrow> unit prog" where
  "process E q ev src = do {
     v \<leftarrow> executionVars E q ev src;
     case v of
       None \<Rightarrow> State_Monad.return ()
     | Some vars \<Rightarrow>
         (case marshalVars vars of
            None \<Rightarrow> requeue E (pe_ID ev)
          | Some varsJSON \<Rightarrow> do {
              t \<leftarrow> now E;
              p \<leftarrow> store E (PrepareEvent (pe_ID ev) varsJSON (length (src_Actions src)) (clears_payload q) t);
              case p of
                Inl _ \<Rightarrow> requeue E (pe_ID ev)
              | Inr _ \<Rightarrow> run_plan E q ev src vars }) }"

section \<open>The drain loop and the worker\<close>

definition resolveSource :: "golib \<Rightarrow> Config option \<Rightarrow> pending_event \<Rightarrow> Source option" where
  "resolveSource L cfg ev =
     (if pe_ActionsJSON ev \<noteq> []
      then (case ParseSourceSnapshot L (pe_ActionsJSON ev) of
              Inl _ \<Rightarrow> None
            | Inr src \<Rightarrow> Some (if src_Name src = [] then src\<lparr>src_Name := pe_Source ev\<rparr> else src))
      else case cfg of None \<Rightarrow> None | Some c \<Rightarrow> SourceByName c (pe_Source ev))"

text \<open>One iteration; \<open>True\<close> means go on with the next event.\<close>

definition drain_step :: "qenv \<Rightarrow> Queue \<Rightarrow> bool prog" where
  "drain_step E q = do {
     canceled \<leftarrow> isCanceled E;
     stopped \<leftarrow> isStopped;
     if canceled \<or> stopped then State_Monad.return False
     else do {
       t \<leftarrow> now E;
       x \<leftarrow> store E (RequeueExpiredLeases t);
       case x of
         Inl _ \<Rightarrow> State_Monad.return False
       | Inr _ \<Rightarrow> do {
           c \<leftarrow> store E (ClaimPending (q_lease q) t (q_owner q));
           case c of
             Inl _ \<Rightarrow> State_Monad.return False
           | Inr None \<Rightarrow> State_Monad.return False
           | Inr (Some ev) \<Rightarrow>
               (case resolveSource (en_lib E) (q_cfg q) ev of
                  None \<Rightarrow> do { _ \<leftarrow> mark E (pe_ID ev) Dead; State_Monad.return True }
                | Some src \<Rightarrow> do { _ \<leftarrow> process E q ev src; State_Monad.return True }) } } }"

text \<open>The loop ends when nothing is due; it may go on as long as events keep coming, so the model
  runs at most \<open>n\<close> iterations.\<close>

fun drain :: "nat \<Rightarrow> qenv \<Rightarrow> Queue \<Rightarrow> unit prog" where
  "drain 0 E q = State_Monad.return ()"
| "drain (Suc n) E q = do {
     go \<leftarrow> drain_step E q;
     if go then drain n E q else State_Monad.return () }"

text \<open>What the worker's select can receive.\<close>

datatype wake_event = CtxDone | StopClosed | WakeHint | TickerFired

fun worker :: "nat \<Rightarrow> qenv \<Rightarrow> Queue \<Rightarrow> wake_event list \<Rightarrow> unit prog" where
  "worker n E q [] = State_Monad.return ()"
| "worker n E q (w # ws) =
     (if w = CtxDone \<or> w = StopClosed then State_Monad.return ()
      else do {
        _ \<leftarrow> (if w = WakeHint then modify (\<lambda>s. s\<lparr>qs_wake := qs_wake s - 1\<rparr>) else State_Monad.return ());
        _ \<leftarrow> drain n E q;
        worker n E q ws })"

definition Wake :: "Queue \<Rightarrow> bool prog" where
  "Wake q = State (\<lambda>s. if qs_stopped s then (False, s)
     else (True, if qs_wake s < q_buffer q then s\<lparr>qs_wake := qs_wake s + 1\<rparr> else s))"

text \<open>\<open>Stop\<close> closes the stop channel (once) and waits for the workers: the argument tells whether
  they return before the context ends.\<close>

definition Stop :: "bool \<Rightarrow> string option prog" where
  "Stop returned = do {
     _ \<leftarrow> modify (\<lambda>s. s\<lparr>qs_stopped := True\<rparr>);
     State_Monad.return (if returned then None else Some ''context deadline exceeded'') }"

definition renew_interval :: "Queue \<Rightarrow> duration" where
  "renew_interval q = (let i = q_lease q sdiv 3 in if i < 15 * Second then 15 * Second else i)"

text \<open>The lease heartbeat of one event: a renewal per tick, until the context of the pass ends. An
  error of the renewal is only logged.\<close>

definition renew_tick :: "qenv \<Rightarrow> Queue \<Rightarrow> string \<Rightarrow> unit prog" where
  "renew_tick E q eid = do {
     t \<leftarrow> now E;
     _ \<leftarrow> store E (RenewLease eid (q_lease q) t (q_owner q));
     State_Monad.return () }"

datatype beat_event = BeatDone | BeatTick

fun leaseHeartbeat :: "qenv \<Rightarrow> Queue \<Rightarrow> string \<Rightarrow> beat_event list \<Rightarrow> unit prog" where
  "leaseHeartbeat E q eid [] = State_Monad.return ()"
| "leaseHeartbeat E q eid (BeatDone # es) = State_Monad.return ()"
| "leaseHeartbeat E q eid (BeatTick # es) = do { _ \<leftarrow> renew_tick E q eid; leaseHeartbeat E q eid es }"

text \<open>The drop counters of a queue that may be nil.\<close>

definition DropSummary :: "qstate option \<Rightarrow> string" where
  "DropSummary q = (case q of None \<Rightarrow> ''dropped: none'' | Some s \<Rightarrow> Summary (qs_drops s))"

definition DropSnapshot :: "qstate option \<Rightarrow> (string \<times> (string \<times> int) list) list" where
  "DropSnapshot q = (case q of None \<Rightarrow> [] | Some s \<Rightarrow> Snapshot (qs_drops s))"

end
