(* ===== verification/Queue_Logic.thy ===== *)
theory Queue_Logic
  imports Queue
begin

text \<open>
  Hoare triples for the worker's programs and the general theorem of the worker: a property of
  the database that the store's calls keep is kept by every worker, whatever the other
  goroutines, the faults, the cancellations and the handlers do. The interface is the locale
  \<open>store_client\<close> for the code around the action loop and its extension \<open>worker_safe\<close> for the
  whole worker; they extend \<open>kept_by_runs\<close>: the calls the worker makes are among those that
  keep the property, and a handler is called only with what a successful \<open>StartAction\<close>
  returned, so a property of the trace of handler calls follows from a property of
  \<open>StartAction\<close>.
\<close>

section \<open>Triples\<close>

definition triple :: "('s \<Rightarrow> bool) \<Rightarrow> ('s, 'a) state \<Rightarrow> ('a \<Rightarrow> 's \<Rightarrow> bool) \<Rightarrow> bool" where
  "triple P m Q \<longleftrightarrow> (\<forall>s. P s \<longrightarrow> (case run_state m s of (x, s') \<Rightarrow> Q x s'))"

abbreviation (input) keeps :: "('s \<Rightarrow> bool) \<Rightarrow> ('s, 'a) state \<Rightarrow> bool" where
  "keeps P m \<equiv> triple P m (\<lambda>_. P)"

lemma tripleI: "(\<And>s x s'. P s \<Longrightarrow> run_state m s = (x, s') \<Longrightarrow> Q x s') \<Longrightarrow> triple P m Q"
  by (auto simp: triple_def split: prod.splits)

lemma tripleD: "triple P m Q \<Longrightarrow> P s \<Longrightarrow> run_state m s = (x, s') \<Longrightarrow> Q x s'"
  by (fastforce simp: triple_def)

lemma tripleD': "triple P m Q \<Longrightarrow> P s \<Longrightarrow> Q (fst (run_state m s)) (snd (run_state m s))"
  by (auto simp: triple_def split: prod.splits)

lemma triple_conseq: "triple P m Q \<Longrightarrow> (\<And>s. P' s \<Longrightarrow> P s) \<Longrightarrow> (\<And>x s. Q x s \<Longrightarrow> Q' x s) \<Longrightarrow> triple P' m Q'"
  by (fastforce simp: triple_def)

lemma triple_return: "(\<And>s. P s \<Longrightarrow> Q x s) \<Longrightarrow> triple P (State_Monad.return x) Q"
  by (simp add: triple_def)

lemma triple_bind: "triple P m Q \<Longrightarrow> (\<And>x. triple (Q x) (f x) R) \<Longrightarrow> triple P (State_Monad.bind m f) R"
  by (fastforce simp: triple_def split: prod.splits)

lemma triple_pure: "(b \<Longrightarrow> triple P m Q) \<Longrightarrow> triple (\<lambda>s. P s \<and> b) m Q"
  by (auto simp: triple_def)

lemma keeps_return [keeps_intros]: "keeps P (State_Monad.return x)"
  by (rule triple_return)

lemma keeps_bind [keeps_intros]: "keeps P m \<Longrightarrow> (\<And>x. keeps P (f x)) \<Longrightarrow> keeps P (State_Monad.bind m f)"
  by (rule triple_bind)

lemma keeps_if [keeps_intros]: "(b \<Longrightarrow> triple P m Q) \<Longrightarrow> (\<not> b \<Longrightarrow> triple P m' Q) \<Longrightarrow> triple P (if b then m else m') Q"
  by simp

lemma keeps_case_sum [keeps_intros]:
  "(\<And>e. x = Inl e \<Longrightarrow> triple P (f e) Q) \<Longrightarrow> (\<And>y. x = Inr y \<Longrightarrow> triple P (g y) Q) \<Longrightarrow>
     triple P (case x of Inl e \<Rightarrow> f e | Inr y \<Rightarrow> g y) Q"
  by (simp split: sum.split)

lemma keeps_case_option [keeps_intros]:
  "(x = None \<Longrightarrow> triple P m Q) \<Longrightarrow> (\<And>y. x = Some y \<Longrightarrow> triple P (g y) Q) \<Longrightarrow>
     triple P (case x of None \<Rightarrow> m | Some y \<Rightarrow> g y) Q"
  by (simp split: option.split)

lemma keeps_case_prod [keeps_intros]:
  "(\<And>a b. x = (a, b) \<Longrightarrow> triple P (f a b) Q) \<Longrightarrow> triple P (case x of (a, b) \<Rightarrow> f a b) Q"
  by (simp split: prod.split)

lemma keeps_case_bool [keeps_intros]:
  "(x \<Longrightarrow> triple P m Q) \<Longrightarrow> (\<not> x \<Longrightarrow> triple P m' Q) \<Longrightarrow> triple P (case x of True \<Rightarrow> m | False \<Rightarrow> m') Q"
  by (cases x) simp_all

text \<open>Assertions on the database and the trace of handler calls are kept by every step that
  neither calls the store nor a handler.\<close>

definition on_db :: "(db \<Rightarrow> bool) \<Rightarrow> (handler_call list \<Rightarrow> bool) \<Rightarrow> qstate \<Rightarrow> bool" where
  "on_db I R s \<longleftrightarrow> I (qs_db s) \<and> R (qs_calls s)"

lemma keeps_ask [keeps_intros]: "keeps (on_db I R) (ask f)"
  by (simp add: triple_def ask_def on_db_def)

lemma keeps_now [keeps_intros]: "keeps (on_db I R) (now E)"
  by (simp add: now_def keeps_ask)

lemma keeps_isCanceled [keeps_intros]: "keeps (on_db I R) (isCanceled E)"
  by (simp add: isCanceled_def keeps_ask)

lemma keeps_match_rules [keeps_intros]: "keeps (on_db I R) (match_rules E rs vars)"
  by (simp add: triple_def match_rules_def on_db_def Let_def split: prod.splits)

lemma keeps_drops [keeps_intros]: "keeps (on_db I R) (modify (\<lambda>s. s\<lparr>qs_drops := f s\<rparr>))"
  by (simp add: triple_def modify_def on_db_def)

lemma keeps_wake [keeps_intros]: "keeps (on_db I R) (modify (\<lambda>s. s\<lparr>qs_wake := g s\<rparr>))"
  by (simp add: triple_def modify_def on_db_def)

lemma keeps_isStopped [keeps_intros]: "keeps P isStopped"
  by (simp add: triple_def isStopped_def)

lemma keeps_retryDelay [keeps_intros]: "keeps (on_db I R) (retryDelay E q a)"
  by (simp add: retryDelay_def keeps_ask)

section \<open>The calls a worker makes\<close>

fun worker_call :: "call \<Rightarrow> bool" where
  "worker_call (CSave _ _ _ _ _ _ _ _ _ _) \<longleftrightarrow> False"
| "worker_call CRequeueAll \<longleftrightarrow> False"
| "worker_call (CReplay _ _ _) \<longleftrightarrow> False"
| "worker_call (CRefresh eid t r) \<longleftrightarrow> refresh_ok t r"
| "worker_call (CStatus eid st t) \<longleftrightarrow> st \<in> {Dead, Skipped}"
| "worker_call CReady \<longleftrightarrow> False"
| "worker_call (CPurge _ _) \<longleftrightarrow> False"
| "worker_call (CSnapshot _ _ _) \<longleftrightarrow> False"
| "worker_call (CHeartbeat _) \<longleftrightarrow> False"
| "worker_call c \<longleftrightarrow> True"

text \<open>Every call of the other goroutines satisfies \<open>adm\<close>.\<close>

definition quiet :: "(call \<Rightarrow> bool) \<Rightarrow> qenv \<Rightarrow> bool" where
  "quiet adm E \<longleftrightarrow> (\<forall>t. list_all adm (en_other E t))"

text \<open>The calls a worker makes outside the action loop, once the event is prepared.\<close>

fun plain_call :: "call \<Rightarrow> bool" where
  "plain_call (CStart _ _ _) \<longleftrightarrow> False"
| "plain_call (CComplete _ _ _) \<longleftrightarrow> False"
| "plain_call (CSchedule _ _ _ _ _) \<longleftrightarrow> False"
| "plain_call (CDead _ _ _ _) \<longleftrightarrow> False"
| "plain_call (CExpire _ _ _) \<longleftrightarrow> False"
| "plain_call (CPrepare _ _ _ _ _) \<longleftrightarrow> False"
| "plain_call c \<longleftrightarrow> worker_call c"

locale store_client = kept_by_runs exec_call adm inv
  for adm :: "call \<Rightarrow> bool" and inv :: "db \<Rightarrow> bool" +
  fixes trace :: "handler_call list \<Rightarrow> bool"
  assumes plain_adm: "plain_call c \<Longrightarrow> adm c"
begin

lemma keeps_store:
  assumes "quiet adm E" and "\<And>d. inv d \<Longrightarrow> inv (snd (f d))"
  shows "keeps (on_db inv trace) (store E f)"
proof (rule tripleI)
  fix s x s' assume "on_db inv trace s" and run: "run_state (store E f) s = (x, s')"
  then have d: "inv (fold exec_call (en_other E (qs_tick s)) (qs_db s))"
    using run_keeps assms(1) by (simp add: on_db_def quiet_def)
  obtain r d' where "f (fold exec_call (en_other E (qs_tick s)) (qs_db s)) = (r, d')" by fastforce
  with run d assms(2) [OF d] \<open>on_db inv trace s\<close> show "on_db inv trace s'"
    by (auto simp: store_def Let_def on_db_def split: fault.splits)
qed

lemma keeps_store_call:
  assumes "quiet adm E" and "\<And>d. snd (f d) = exec_call c d" and "adm c"
  shows "keeps (on_db inv trace) (store E f)"
  using assms exec_keeps by (intro keeps_store) auto

lemmas keeps_plain_call = keeps_store_call [OF _ _ plain_adm]

lemma keeps_store_read:
  assumes "quiet adm E" and "\<And>d. snd (f d) = d"
  shows "keeps (on_db inv trace) (store E f)"
  using assms by (intro keeps_store) auto

text \<open>What is known of the result of a store call, unless a fault hides it.\<close>

lemma triple_store_result:
  assumes "quiet adm E" and "\<And>d. inv d \<Longrightarrow> inv (snd (f d))" and "\<And>d. inv d \<Longrightarrow> P (fst (f d))" and "P (Inl ErrDB)"
  shows "triple (on_db inv trace) (store E f) (\<lambda>r s. on_db inv trace s \<and> P r)"
proof (rule tripleI)
  fix s x s' assume s: "on_db inv trace s" and run: "run_state (store E f) s = (x, s')"
  let ?d = "fold exec_call (en_other E (qs_tick s)) (qs_db s)"
  have "inv ?d" using s assms(1) run_keeps by (simp add: on_db_def quiet_def)
  then have "P x"
    using run assms(3) [of ?d] assms(4) by (cases "f ?d") (auto simp: store_def Let_def split: fault.splits)
  with tripleD [OF keeps_store [OF assms(1,2)] s run] show "on_db inv trace s' \<and> P x" by blast
qed

lemma keeps_mark: "quiet adm E \<Longrightarrow> st \<in> {Dead, Skipped} \<Longrightarrow> keeps (on_db inv trace) (mark E eid st)"
  unfolding mark_def
  by (intro keeps_intros keeps_plain_call [where c = "CStatus eid st _"]) auto

lemma keeps_requeue: "quiet adm E \<Longrightarrow> keeps (on_db inv trace) (requeue E eid)"
  unfolding requeue_def
  by (intro keeps_intros keeps_plain_call [where c = "CRequeueEvent eid"]) auto

lemma keeps_proceed: "quiet adm E \<Longrightarrow> keeps (on_db inv trace) (proceed E eid r)"
  unfolding proceed_def by (intro keeps_intros keeps_requeue)

lemma keeps_logAction: "quiet adm E \<Longrightarrow> keeps (on_db inv trace) (logAction E ev i act tgt att ok det dur)"
  unfolding logAction_def
  by (intro keeps_intros keeps_store_read keeps_plain_call [where c = "CLog _ _ _ _ _ _ _ _ _ _"])
     (auto simp: log_exists_def)

lemma keeps_refresh:
  assumes "quiet adm E"
  shows "keeps (on_db inv trace) (refresh E eid)"
proof -
  have agg: "triple (on_db inv trace) (store E (select_aggregate eid t))
      (\<lambda>a s. on_db inv trace s \<and> (\<forall>r. a = Inr r \<longrightarrow> refresh_ok t r))" for t
    by (rule triple_store_result [OF assms])
       (auto simp: select_aggregate_def simp del: split_paired_All refresh_ok.simps intro: refresh_ok_aggregate split: option.splits)
  have wr: "keeps (on_db inv trace) (store E (refresh_write eid t r))" if "refresh_ok t r" for t r
    using that by (intro keeps_plain_call [where c = "CRefresh eid t r"] assms) auto
  show ?thesis
    unfolding refresh_def
    by (intro triple_bind [OF keeps_now] triple_bind [OF agg] keeps_case_sum)
       (auto intro: triple_conseq [OF wr] triple_return simp: triple_def split: prod.splits dest: tripleD [OF wr])
qed

lemma keeps_skip_event: "quiet adm E \<Longrightarrow> keeps (on_db inv trace) count \<Longrightarrow> keeps (on_db inv trace) (skip_event E q eid count)"
  unfolding skip_event_def
  by (intro keeps_intros keeps_mark keeps_requeue keeps_plain_call [where c = "CClear _"]) auto

lemma keeps_fail_event: "quiet adm E \<Longrightarrow> keeps (on_db inv trace) (fail_event E eid)"
  unfolding fail_event_def by (intro keeps_intros keeps_mark) auto

lemma keeps_filtered_vars: "quiet adm E \<Longrightarrow> keeps (on_db inv trace) (filtered_vars E q ev src pl)"
  unfolding filtered_vars_def Let_def
  by (intro keeps_intros keeps_skip_event keeps_fail_event)

lemma keeps_executionVars: "quiet adm E \<Longrightarrow> keeps (on_db inv trace) (executionVars E q ev src)"
  unfolding executionVars_def
  by (intro keeps_intros keeps_fail_event keeps_requeue keeps_filtered_vars keeps_store_read) (auto simp: get_payload_def)

lemma keeps_renew_tick: "quiet adm E \<Longrightarrow> keeps (on_db inv trace) (renew_tick E q eid)"
  unfolding renew_tick_def
  by (intro keeps_intros keeps_plain_call [where c = "CRenew _ _ _ _"]) auto

lemma keeps_leaseHeartbeat: "quiet adm E \<Longrightarrow> keeps (on_db inv trace) (leaseHeartbeat E q eid es)"
  by (induction E q eid es rule: leaseHeartbeat.induct) (auto intro!: keeps_intros keeps_renew_tick)

end

locale worker_safe = store_client adm inv trace
  for adm :: "call \<Rightarrow> bool" and inv :: "db \<Rightarrow> bool" and trace :: "handler_call list \<Rightarrow> bool" +
  fixes startable_call :: "string \<Rightarrow> nat \<Rightarrow> int \<Rightarrow> bool"
  assumes worker_adm: "worker_call c \<Longrightarrow> adm c"
    and start_law: "inv d \<Longrightarrow> fst (StartAction eid i t d) = Inr att \<Longrightarrow> startable_call eid i att"
    and trace_law: "trace cs \<Longrightarrow> startable_call (hc_event hc) (hc_index hc) (hc_attempt hc) \<Longrightarrow> trace (cs @ [hc])"
begin

lemmas keeps_worker_call = keeps_store_call [OF _ _ worker_adm]

lemma keeps_dead_letter: "quiet adm E \<Longrightarrow> keeps (on_db inv trace) (dead_letter E ev i det)"
  unfolding dead_letter_def
  by (intro keeps_intros keeps_proceed keeps_worker_call [where c = "CDead _ _ _ _"]) auto

lemma keeps_after_failure: "quiet adm E \<Longrightarrow> keeps (on_db inv trace) (after_failure E q ev i att err)"
  unfolding after_failure_def Let_def
  by (intro keeps_intros keeps_proceed keeps_requeue keeps_dead_letter
      keeps_worker_call [where c = "CSchedule _ _ _ _ _"]) auto

lemma keeps_handle:
  "startable_call (hc_event hc) (hc_index hc) (hc_attempt hc) \<Longrightarrow> keeps (on_db inv trace) (handle E hc)"
  by (simp add: triple_def handle_def on_db_def trace_law)

lemma keeps_dispatch:
  assumes "quiet adm E" and "startable_call (pe_ID ev) i att"
  shows "keeps (on_db inv trace) (dispatch E q ev vars i ac att)"
  unfolding dispatch_def Let_def using assms
  by (intro keeps_intros keeps_handle keeps_proceed keeps_logAction keeps_dead_letter keeps_after_failure
      keeps_worker_call [where c = "CComplete _ _ _"]) (auto simp: attempt_call_def)

lemma StartAction_triple:
  assumes "quiet adm E"
  shows "triple (on_db inv trace) (store E (StartAction eid i t))
    (\<lambda>r s. on_db inv trace s \<and> (\<forall>att. r = Inr att \<longrightarrow> startable_call eid i att))"
proof (rule triple_store_result [OF assms])
  show "inv (snd (StartAction eid i t d))" if "inv d" for d
    using exec_keeps [OF that worker_adm [of "CStart eid i t"]] by simp
qed (use start_law in auto)

lemma keeps_process_action:
  assumes "quiet adm E"
  shows "keeps (on_db inv trace) (process_action E q ev vars sts i ac)"
proof -
  have go: "triple (\<lambda>s. on_db inv trace s \<and> (\<forall>att. r = Inr att \<longrightarrow> startable_call (pe_ID ev) i att))
      (case r of Inl e \<Rightarrow> if e = ErrNoRows then State_Monad.return True
                        else do { _ \<leftarrow> requeue E (pe_ID ev); State_Monad.return False }
        | Inr attempt \<Rightarrow> dispatch E q ev vars i ac attempt) (\<lambda>_. on_db inv trace)" for r
  proof (cases r)
    case (Inl e)
    then show ?thesis by (auto intro!: keeps_intros keeps_requeue assms)
  next
    case (Inr att)
    then show ?thesis using keeps_dispatch [OF assms] by (fastforce simp: triple_def)
  qed
  show ?thesis
    unfolding process_action_def using assms
    by (intro keeps_intros keeps_proceed keeps_requeue triple_bind [OF StartAction_triple [OF assms] go]
        keeps_worker_call [where f = "ExpireAction _ _ _" and c = "CExpire _ _ _"]) auto
qed

lemma keeps_process_actions: "quiet adm E \<Longrightarrow> keeps (on_db inv trace) (process_actions E q ev vars sts i acs)"
  by (induction acs arbitrary: i) (auto intro!: keeps_intros keeps_process_action)

lemma keeps_run_plan: "quiet adm E \<Longrightarrow> keeps (on_db inv trace) (run_plan E q ev src vars)"
  unfolding run_plan_def
  by (intro keeps_intros keeps_requeue keeps_process_actions keeps_refresh keeps_store_read) (auto simp: list_states_def)

lemma keeps_process: "quiet adm E \<Longrightarrow> keeps (on_db inv trace) (process E q ev src)"
  unfolding process_def
  by (intro keeps_intros keeps_executionVars keeps_requeue keeps_run_plan
      keeps_worker_call [where c = "CPrepare _ _ _ _ _"]) auto

lemma keeps_drain_step: "quiet adm E \<Longrightarrow> keeps (on_db inv trace) (drain_step E q)"
  unfolding drain_step_def
  by (intro keeps_intros keeps_process keeps_mark
      keeps_worker_call [where f = "RequeueExpiredLeases _" and c = "CRequeueExpired _"]
      keeps_worker_call [where f = "ClaimPending _ _ _" and c = "CClaim _ _ _"]) auto

lemma keeps_drain: "quiet adm E \<Longrightarrow> keeps (on_db inv trace) (drain n E q)"
  by (induction n) (auto intro!: keeps_intros keeps_drain_step)

lemma keeps_worker: "quiet adm E \<Longrightarrow> keeps (on_db inv trace) (worker n E q ws)"
  by (induction ws) (auto intro!: keeps_intros keeps_drain)

end

section \<open>The outbox invariant\<close>

interpretation safe: worker_safe call_ok db_ok "\<lambda>_. True" "\<lambda>_ _ _. True"
proof unfold_locales
  fix c
  show "call_ok c" if "plain_call c" using that by (cases c) auto
  show "call_ok c" if "worker_call c" using that by (cases c) auto
qed simp_all

section \<open>Completed actions\<close>

text \<open>With both the invariant and a set of completed rows kept, no attempt starts on a key of that
  set.\<close>

lemma StartAction_not_done:
  assumes "db_ok d" "A \<subseteq> done_rows d" "fst (StartAction eid i t d) = Inr att"
  shows "(eid, i) \<notin> action_key ` A"
proof
  assume "(eid, i) \<in> action_key ` A"
  then obtain a where a: "a \<in> A" "action_key a = (eid, i)" by auto
  obtain b where b: "find (startable eid i t) (db_event_actions d) = Some b"
    using assms(3) by (auto simp: StartAction_def split: option.splits)
  then have "b \<in> set (db_event_actions d)" "startable eid i t b" by (auto simp: find_Some_iff)
  moreover from this a assms(1,2) have "a = b"
    using distinct_map_unique [of action_key "db_event_actions d" a b]
    by (auto simp: db_ok_def actions_ok_def done_rows_def startable_def action_key_def)
  ultimately show False using a assms(2) by (auto simp: done_rows_def startable_def)
qed

lemma trace_snoc: "(\<exists>new. cs = old @ new \<and> list_all P new) \<Longrightarrow> P c \<Longrightarrow> \<exists>new. cs @ [c] = old @ new \<and> list_all P new"
proof (elim exE conjE)
  fix new assume "cs = old @ new" "list_all P new" "P c"
  then have "cs @ [c] = old @ (new @ [c]) \<and> list_all P (new @ [c])" by simp
  then show ?thesis by blast
qed

interpretation finished_safe: worker_safe "\<lambda>c. call_ok c \<and> not_purge c" "\<lambda>d. db_ok d \<and> A \<subseteq> done_rows d"
  "\<lambda>cs. \<exists>new. cs = old @ new \<and> list_all (\<lambda>c. (hc_event c, hc_index c) \<notin> action_key ` A) new"
  "\<lambda>eid i att. (eid, i) \<notin> action_key ` A" for A old
proof unfold_locales
  show "db_ok (exec_call c d) \<and> A \<subseteq> done_rows (exec_call c d)"
    if "db_ok d \<and> A \<subseteq> done_rows d" "call_ok c \<and> not_purge c" for c d
    using that db_ok_exec_call done_rows_exec_call by blast
  show "call_ok c \<and> not_purge c" if "plain_call c" for c using that by (cases c) auto
  show "call_ok c \<and> not_purge c" if "worker_call c" for c using that by (cases c) auto
  show "(eid, i) \<notin> action_key ` A"
    if "db_ok d \<and> A \<subseteq> done_rows d" "fst (StartAction eid i t d) = Inr att" for d eid i t att
    using that StartAction_not_done by blast
  show "\<exists>new. cs @ [c] = old @ new \<and> list_all (\<lambda>c. (hc_event c, hc_index c) \<notin> action_key ` A) new"
    if "\<exists>new. cs = old @ new \<and> list_all (\<lambda>c. (hc_event c, hc_index c) \<notin> action_key ` A) new"
      "(hc_event c, hc_index c) \<notin> action_key ` A" for cs c
    using that by (rule trace_snoc)
qed

end
