(* ===== verification/Worker.thy ===== *)
theory Worker
  imports Queue_Logic
begin

text \<open>
  Properties of the worker (\<^verbatim>\<open>internal/queue/queue.go\<close>) over all schedules of the environment:
  safety under interference and faults, the retry delays and leases, and what one pass over an
  event leaves behind.
\<close>

section \<open>A concrete environment\<close>

definition demo_qenv :: qenv where
  "demo_qenv = \<lparr>en_lib = demo_lib, en_now = (\<lambda>t. 20 * Second + int t * Millisecond),
     en_cancel = (\<lambda>_. False), en_rand = (\<lambda>_ n. n - 1), en_handle = (\<lambda>_ hc. ((''https://example.com'', ''status=200''), None)),
     en_fault = (\<lambda>_. Fine), en_other = (\<lambda>_. [])\<rparr>"

definition demo_queue :: Queue where
  "demo_queue = New (cf_Queue demo_config) [''http'', ''exec''] (Some demo_config) ''w1''"

definition demo_saved :: db where
  "demo_saved = exec_call (CSave ''e1'' ''github'' ''10.0.0.1'' ''please deploy'' (10 * Second) ''d1'' ''h1'' ''c'' []
     (Some (620 * Second))) empty_db"

definition demo_state :: "db \<Rightarrow> qstate" where
  "demo_state d = \<lparr>qs_db = d, qs_tick = 0, qs_calls = [], qs_drops = NewCounters [''github''], qs_cache = empty_cache,
     qs_wake = 0, qs_stopped = False\<rparr>"

lemma demo_saved_ok: "db_ok demo_saved"
  unfolding demo_saved_def by (intro db_ok_exec_call db_ok_empty) simp

lemma demo_quiet: "quiet adm demo_qenv"
  by (simp add: quiet_def demo_qenv_def)

section \<open>Safety under interference and faults\<close>

text \<open>C12: no worker corrupts the outbox. Whatever other goroutines do to the store between a
  worker's calls, whichever store calls fail with or without effect, whenever the context is
  cancelled and whatever the handlers return, the invariant of the tables holds after any
  number of wake-ups and drained events.\<close>

theorem worker_keeps_outbox:
  assumes "db_ok (qs_db s)" and "quiet call_ok E"
  shows "db_ok (qs_db (snd (run_state (worker n E q ws) s)))"
  using tripleD' [OF safe.keeps_worker [OF assms(2), of n q ws], of s] assms(1) by (simp add: on_db_def)

theorem worker_keeps_outbox_witness:
  "db_ok (qs_db (snd (run_state (worker 3 demo_qenv demo_queue [WakeHint]) (demo_state demo_saved)))) \<and>
   map ev_status (db_events (qs_db (snd (run_state (worker 3 demo_qenv demo_queue [WakeHint]) (demo_state demo_saved))))) = [Done]"
proof -
  have "map ev_status (db_events (qs_db (snd (run_state (worker 3 demo_qenv demo_queue [WakeHint]) (demo_state demo_saved))))) = [Done]"
    by code_simp
  with worker_keeps_outbox [of "demo_state demo_saved" demo_qenv 3 demo_queue "[WakeHint]"] demo_saved_ok demo_quiet
  show ?thesis by (simp add: demo_state_def)
qed

text \<open>A completed action is never delivered again by any worker: under the same interference (the
  retention purge excepted, which removes the event altogether), no handler call is for an action that
  was recorded done when the worker started, and that record stays.\<close>

lemma worker_skips_done:
  assumes "db_ok (qs_db s)" and "quiet (\<lambda>c. call_ok c \<and> not_purge c) E"
    and "run_state (worker n E q ws) s = (u, s')"
  shows "done_rows (qs_db s) \<subseteq> done_rows (qs_db s') \<and>
    (\<exists>new. qs_calls s' = qs_calls s @ new \<and>
       list_all (\<lambda>c. (hc_event c, hc_index c) \<notin> action_key ` done_rows (qs_db s)) new)"
  using tripleD [OF finished_safe.keeps_worker [OF assms(2), of "done_rows (qs_db s)" "qs_calls s" n q ws], of s, OF _ assms(3)]
    assms(1)
  by (simp add: on_db_def)

section \<open>Delays and leases\<close>

lemma delay_loop_min:
  assumes "0 < cap" "cap \<le> m" "m \<le> max_int64"
  shows "delay_loop i attempt cap m = min (cap * 2 ^ nat (attempt - i)) m"
  using assms
proof (induction i attempt cap m rule: delay_loop.induct)
  case (1 i attempt cap m)
  have half: "m sdiv 2 = m div 2" using "1.prems" by (simp add: signed_divide_int_def)
  show ?case
  proof (cases "i < attempt \<and> cap < m")
    case True
    then have exp: "nat (attempt - i) = Suc (nat (attempt - (i + 1)))" by (simp add: Suc_nat_eq_nat_zadd1)
    show ?thesis
    proof (cases "cap > m div 2")
      case big: True
      have "cap * 2 \<le> cap * 2 ^ nat (attempt - i)" using "1.prems"(1) exp by simp
      moreover have "m < cap * 2" using big by linarith
      ultimately have "min (cap * 2 ^ nat (attempt - i)) m = m" by linarith
      with True big half show ?thesis by (subst delay_loop.simps) simp
    next
      case False
      then have le: "cap * 2 \<le> m" by linarith
      with "1.prems" have w: "wrap64 (cap * 2) = cap * 2" by (simp add: wrap64_id max_int64_def)
      have "delay_loop (i + 1) attempt (cap * 2) m = min (cap * 2 * 2 ^ nat (attempt - (i + 1))) m"
        using "1.IH" [OF True] False half w "1.prems" le by simp
      then show ?thesis using True False half w exp by (subst delay_loop.simps) (simp add: mult.assoc)
    qed
  next
    case False
    then show ?thesis
    proof (cases "i < attempt")
      case True
      with False "1.prems" have "cap = m" by simp
      moreover have "m * 1 \<le> m * 2 ^ nat (attempt - i)" using "1.prems" by (intro mult_left_mono) auto
      ultimately show ?thesis using False by (subst delay_loop.simps) auto
    qed (use "1.prems" in \<open>subst delay_loop.simps, simp\<close>)
  qed
qed



lemma fold_wrap_add:
  assumes "0 \<le> acc" "\<forall>ac \<in> set acs. 0 \<le> f ac" "acc + sum_list (map f acs) \<le> max_int64"
  shows "fold (\<lambda>ac pass. wrap64 (pass + f ac)) acs acc = acc + sum_list (map f acs)"
  using assms
proof (induction acs arbitrary: acc)
  case (Cons a acs)
  have nn: "0 \<le> sum_list (map f acs)" using Cons.prems(2) by (intro sum_list_nonneg) auto
  with Cons.prems have "wrap64 (acc + f a) = acc + f a" by (intro wrap64_id) (auto simp: max_int64_def)
  with Cons show ?case by (simp add: add.assoc)
qed simp

lemma fold_max_ge: "x \<le> fold (\<lambda>src (m :: int). if g src > m then g src else m) srcs x \<and>
   (\<forall>src \<in> set srcs. g src \<le> fold (\<lambda>src m. if g src > m then g src else m) srcs x)"
proof (induction srcs arbitrary: x)
  case (Cons a srcs)
  from Cons.IH [of "if g a > x then g a else x"] show ?case by (auto split: if_splits intro: order_trans)
qed simp

lemma fold_max_le: "(x :: int) \<le> b \<Longrightarrow> \<forall>src \<in> set srcs. g src \<le> b \<Longrightarrow>
   fold (\<lambda>src m. if g src > m then g src else m) srcs x \<le> b"
  by (induction srcs arbitrary: x) auto

lemma actionTimeout_bounds:
  "action_cfg_ok ac \<Longrightarrow> 0 \<le> actionTimeout ac \<and> actionTimeout ac \<le> maxActionTimeout"
  by (auto simp: action_cfg_ok_def actionTimeout_def defaultHTTPActionTimeout_def defaultExecTimeout_def maxActionTimeout_def)

lemma sum_list_le_times: "(\<And>x. x \<in> set xs \<Longrightarrow> f x \<le> (b :: int)) \<Longrightarrow> sum_list (map f xs) \<le> int (length xs) * b"
  by (induction xs) (auto simp: algebra_simps add_mono)

lemma pass_time_eq:
  assumes "source_ok L src" and "length (src_Actions src) \<le> 10000000"
  shows "pass_time src = sum_list (map actionTimeout (src_Actions src)) \<and> pass_time src \<le> 9000000000000000000"
proof -
  have b: "\<forall>ac \<in> set (src_Actions src). 0 \<le> actionTimeout ac \<and> actionTimeout ac \<le> maxActionTimeout"
    using assms(1) actionTimeout_bounds by (auto simp: source_ok_def list_all_iff)
  then have "sum_list (map actionTimeout (src_Actions src)) \<le> int (length (src_Actions src)) * maxActionTimeout"
    by (intro sum_list_le_times) auto
  also have "\<dots> \<le> 10000000 * maxActionTimeout" using assms(2) by (intro mult_right_mono) (auto simp: maxActionTimeout_def)
  finally have "sum_list (map actionTimeout (src_Actions src)) \<le> 9000000000000000000" by (simp add: maxActionTimeout_def)
  with fold_wrap_add [of 0 "src_Actions src" actionTimeout] b show ?thesis
    by (simp add: pass_time_def max_int64_def)
qed

text \<open>C29: a lease outlasts the longest possible pass. For every loaded configuration (with at most
  ten million actions per source, so that the sum fits 64 bits) the lease covers the timeouts of
  all actions of any source plus two minutes, is at least five minutes, and the heartbeat
  renews it three times before it can expire.\<close>

theorem lease_covers_every_pass:
  assumes "config_ok L c" and "\<forall>src \<in> set (cf_Sources c). length (src_Actions src) \<le> 10000000"
    and "src \<in> set (cf_Sources c)" and "q = New cfg reg (Some c) owner"
  shows "sum_list (map actionTimeout (src_Actions src)) + 2 * Minute \<le> q_lease q \<and> 5 * Minute \<le> q_lease q \<and>
    3 * renew_interval q \<le> q_lease q"
proof -
  have ps: "pass_time s = sum_list (map actionTimeout (src_Actions s)) \<and> pass_time s \<le> 9000000000000000000"
    if "s \<in> set (cf_Sources c)" for s
    using that assms(1,2) pass_time_eq [of L s] by (auto simp: config_ok_def list_all_iff)
  let ?l = "longest_pass (Some c)"
  have "?l \<le> 9000000000000000000"
    unfolding longest_pass_def option.case
  proof (rule fold_max_le)
    show "\<forall>src \<in> set (cf_Sources c). pass_time src \<le> 9000000000000000000" using ps by blast
  qed (simp add: defaultHTTPActionTimeout_def)
  moreover have ge: "defaultHTTPActionTimeout \<le> ?l" "pass_time src \<le> ?l"
    using fold_max_ge [of defaultHTTPActionTimeout pass_time "cf_Sources c"] assms(3) by (auto simp: longest_pass_def)
  ultimately have "wrap64 (?l + leaseSafetyMargin) = ?l + leaseSafetyMargin"
    by (intro wrap64_id) (auto simp: leaseSafetyMargin_def max_int64_def defaultHTTPActionTimeout_def)
  then have lease: "q_lease q = max (5 * Minute) (?l + 2 * Minute)"
    by (simp add: assms(4) New_def Let_def computeLease_def leaseSafetyMargin_def)
  have "q_lease q sdiv 3 = q_lease q div 3" using lease by (simp add: signed_divide_int_def)
  then show ?thesis using lease ge(2) ps [OF assms(3)] by (auto simp: renew_interval_def Let_def)
qed

theorem lease_covers_every_pass_witness:
  "sum_list (map actionTimeout (src_Actions demo_source)) + 2 * Minute \<le> q_lease demo_queue"
proof -
  have c: "config_ok demo_lib demo_config"
    using validate_ok demo_config_loads by (simp add: Load_def)
  have s: "demo_source \<in> set (cf_Sources demo_config)" "cf_Sources demo_config = [demo_source]"
    "length (src_Actions demo_source) = 2" by code_simp+
  from lease_covers_every_pass [OF c _ s(1) demo_queue_def] s(2,3) show ?thesis by simp
qed

end
