(* ===== verification/Passes.thy ===== *)
theory Passes
  imports Worker
begin

text \<open>
  What one pass of \<^verbatim>\<open>process\<close> (\<^verbatim>\<open>internal/queue/queue.go\<close>) leaves behind: the event is released,
  attempts respect the retry budget, nothing is delivered after the retry deadline, and a pass
  in which every handler succeeds completes the event.
\<close>

section \<open>Every exit releases the event\<close>

definition calm :: "qenv \<Rightarrow> bool" where
  "calm E \<longleftrightarrow> (\<forall>t. en_fault E t = Fine \<and> en_other E t = [])"

definition stored :: "string \<Rightarrow> db \<Rightarrow> bool" where
  "stored eid d \<longleftrightarrow> eid \<in> ev_id ` set (db_events d)"

definition released :: "string \<Rightarrow> db \<Rightarrow> bool" where
  "released eid d \<longleftrightarrow> stored eid d \<and> (\<forall>e \<in> set (db_events d). ev_id e = eid \<longrightarrow> ev_status e \<noteq> Processing)"

abbreviation (input) holds :: "(db \<Rightarrow> bool) \<Rightarrow> qstate \<Rightarrow> bool" where
  "holds I \<equiv> on_db I (\<lambda>_. True)"

lemma calm_quiet: "calm E \<Longrightarrow> quiet adm E"
  by (simp add: calm_def quiet_def)

lemma triple_store_calm:
  assumes "calm E" and "\<And>d. I d \<Longrightarrow> J (fst (f d)) (snd (f d))"
  shows "triple (holds I) (store E f) (\<lambda>r. holds (J r))"
  using assms by (fastforce simp: triple_def store_def calm_def on_db_def Let_def split: prod.splits)

lemma stored_exec_call:
  assumes "stored eid d" "not_purge c"
  shows "stored eid (exec_call c d)"
proof -
  have ids: "ev_id ` set (update_where P f rows) = ev_id ` set rows" if "\<And>e. ev_id (f e) = ev_id e" for P f and rows :: "event_row list"
    using that by (metis list.set_map map_update_where)
  show ?thesis
    using assms
    by (cases c)
       (auto simp: stored_def store_defs RequeueExpiredLeases_def RequeueAllProcessing_def CompleteAction_def
         ScheduleActionRetry_def DeadAction_def Let_def ids row_assignments refreshed_def split: option.splits)
qed

interpretation stored_safe: worker_safe not_purge "stored eid" "\<lambda>_. True" "\<lambda>_ _ _. True" for eid
proof unfold_locales
  fix c
  show "stored eid (exec_call c d)" if "stored eid d" "not_purge c" for d using that by (rule stored_exec_call)
  show "not_purge c" if "plain_call c" using that by (cases c) auto
  show "not_purge c" if "worker_call c" using that by (cases c) auto
qed simp_all

lemma requeue_releases:
  assumes "calm E" shows "triple (holds (stored eid)) (requeue E eid) (\<lambda>_. holds (released eid))"
proof -
  have "released eid (snd (RequeueEvent eid d))" if "stored eid d" for d
    using that stored_exec_call [of eid d "CRequeueEvent eid"]
    by (auto simp: released_def RequeueEvent_def Let_def requeued_def sql_simps split: if_splits)
  then show ?thesis
    unfolding requeue_def
    by (intro triple_bind [OF triple_store_calm [where J = "\<lambda>_. released eid"]] keeps_intros assms)
qed

lemma mark_releases:
  assumes "calm E" "st \<noteq> Processing"
  shows "triple (holds (stored eid)) (mark E eid st) (\<lambda>_. holds (released eid))"
proof -
  have "released eid (snd (UpdateEventStatus eid st t d))" if "stored eid d" for d t
    using that assms(2) stored_exec_call [of eid d "CStatus eid st t"]
    by (auto simp: released_def stored_def UpdateEventStatus_def sql_simps split: if_splits)
  then show ?thesis
    unfolding mark_def
    by (intro triple_bind [OF keeps_now] triple_store_calm [where J = "\<lambda>_. released eid"] assms)
qed

text \<open>The assertion of the action loop: the pass goes on, or the event is released.\<close>

definition goes_on :: "string \<Rightarrow> bool \<Rightarrow> qstate \<Rightarrow> bool" where
  "goes_on eid go s \<longleftrightarrow> holds (stored eid) s \<and> (go \<or> holds (released eid) s)"

lemma stop_releases:
  "calm E \<Longrightarrow> triple (holds (stored eid)) (do { _ \<leftarrow> requeue E eid; State_Monad.return False }) (goes_on eid)"
  by (intro triple_bind [OF requeue_releases] triple_return) (auto simp: goes_on_def on_db_def released_def)

lemma proceed_goes_on: "calm E \<Longrightarrow> triple (holds (stored eid)) (proceed E eid r) (goes_on eid)"
  unfolding proceed_def
  by (intro keeps_case_sum stop_releases triple_return) (auto simp: goes_on_def)

lemma dead_letter_goes_on: "calm E \<Longrightarrow> triple (holds (stored (pe_ID ev))) (dead_letter E ev i det) (goes_on (pe_ID ev))"
  unfolding dead_letter_def
  by (intro triple_bind [OF keeps_now] triple_bind [OF stored_safe.keeps_worker_call [where c = "CDead _ _ _ _"]]
      proceed_goes_on calm_quiet) auto

lemma after_failure_goes_on:
  "calm E \<Longrightarrow> triple (holds (stored (pe_ID ev))) (after_failure E q ev i att err) (goes_on (pe_ID ev))"
  unfolding after_failure_def Let_def
  by (intro triple_bind [OF keeps_isCanceled] keeps_if stop_releases dead_letter_goes_on
      triple_bind [where m = "if _ then _ else _" and Q = "\<lambda>_. holds (stored (pe_ID ev))"] keeps_retryDelay keeps_return
      triple_bind [OF keeps_now] triple_bind [OF stored_safe.keeps_worker_call [where c = "CSchedule _ _ _ _ _"]]
      proceed_goes_on calm_quiet) auto

lemma dispatch_goes_on:
  "calm E \<Longrightarrow> triple (holds (stored (pe_ID ev))) (dispatch E q ev vars i ac att) (goes_on (pe_ID ev))"
  unfolding dispatch_def Let_def
  by (intro keeps_if triple_bind [OF stored_safe.keeps_logAction] dead_letter_goes_on triple_bind [OF keeps_now]
      triple_bind [OF stored_safe.keeps_handle] keeps_case_option after_failure_goes_on
      triple_bind [OF stored_safe.keeps_worker_call [where c = "CComplete _ _ _"]] proceed_goes_on calm_quiet) auto

lemma process_action_goes_on:
  "calm E \<Longrightarrow> triple (holds (stored (pe_ID ev))) (process_action E q ev vars sts i ac) (goes_on (pe_ID ev))"
  unfolding process_action_def
  by (intro triple_bind [OF keeps_isCanceled] keeps_if stop_releases keeps_case_option triple_return
      triple_bind [OF keeps_now] triple_bind [OF stored_safe.keeps_worker_call [where f = "ExpireAction _ _ _" and c = "CExpire _ _ _"]]
      triple_bind [OF stored_safe.keeps_worker_call [where f = "StartAction _ _ _" and c = "CStart _ _ _"]] keeps_case_sum
      dispatch_goes_on proceed_goes_on calm_quiet) (auto simp: goes_on_def)

lemma process_actions_goes_on:
  "calm E \<Longrightarrow> triple (holds (stored (pe_ID ev))) (process_actions E q ev vars sts i acs) (goes_on (pe_ID ev))"
proof (induction acs arbitrary: i)
  case (Cons ac acs)
  have "triple (goes_on (pe_ID ev) go)
      (if go then process_actions E q ev vars sts (i + 1) acs else State_Monad.return False) (goes_on (pe_ID ev))" for go
    using Cons.IH [OF Cons.prems, of "i + 1"] by (auto simp: triple_def goes_on_def split: prod.splits)
  then show ?case unfolding process_actions.simps by (rule triple_bind [OF process_action_goes_on [OF Cons.prems]])
qed (simp add: triple_return goes_on_def)

lemma refresh_releases:
  assumes "calm E"
  shows "triple (holds (stored eid)) (refresh E eid)
    (\<lambda>r s. holds (stored eid) s \<and> ((\<exists>st. r = Inr st) \<longrightarrow> holds (released eid) s))"
proof -
  have agg: "triple (holds (stored eid)) (store E (select_aggregate eid t))
      (\<lambda>a. holds (\<lambda>d. stored eid d \<and> (\<forall>r. a = Inr r \<longrightarrow> refresh_ok t r)))" for t
    by (rule triple_store_calm [OF assms])
       (auto simp: select_aggregate_def refresh_ok_aggregate simp del: refresh_ok.simps split: option.splits)
  have wr: "triple (holds (\<lambda>d. stored eid d \<and> refresh_ok t r)) (store E (refresh_write eid t r))
      (\<lambda>x. holds (\<lambda>d. stored eid d \<and> ((\<exists>st. x = Inr st) \<longrightarrow> released eid d)))" for t r
  proof (rule triple_store_calm [OF assms])
    fix d assume d: "stored eid d \<and> refresh_ok t r"
    with stored_exec_call [of eid d "CRefresh eid t r"] have "stored eid (snd (refresh_write eid t r d))" by simp
    with d show "stored eid (snd (refresh_write eid t r d)) \<and>
        ((\<exists>st. fst (refresh_write eid t r d) = Inr st) \<longrightarrow> released eid (snd (refresh_write eid t r d)))"
      by (cases r) (auto simp: released_def refresh_write_def refreshed_def sql_simps split: if_splits)
  qed
  show ?thesis
    unfolding refresh_def
  proof (intro triple_bind [OF keeps_now] triple_bind [OF agg] keeps_case_sum)
    show "triple (holds (\<lambda>d. stored eid d \<and> (\<forall>r. x = Inr r \<longrightarrow> refresh_ok t r)))
        (State_Monad.return (Inl e)) (\<lambda>r s. holds (stored eid) s \<and> ((\<exists>st. r = Inr st) \<longrightarrow> holds (released eid) s))"
      for t x and e :: store_err by (rule triple_return) (auto simp: on_db_def)
    show "triple (holds (\<lambda>d. stored eid d \<and> (\<forall>r. x = Inr r \<longrightarrow> refresh_ok t r)))
        (store E (refresh_write eid t y)) (\<lambda>r s. holds (stored eid) s \<and> ((\<exists>st. r = Inr st) \<longrightarrow> holds (released eid) s))"
      if "x = Inr y" for t x y
      using that by (intro triple_conseq [OF wr]) (auto simp: on_db_def)
  qed
qed

lemma released_keeps_clear: "calm E \<Longrightarrow> keeps (holds (released eid)) (store E (ClearPayload eid'))"
proof (rule triple_store_calm [where J = "\<lambda>_. released eid"])
  show "released eid (snd (ClearPayload eid' d))" if "released eid d" for d
    using that stored_exec_call [of eid d "CClear eid'"] by (auto simp: released_def ClearPayload_def sql_simps)
qed

lemma skip_event_releases:
  assumes "calm E" "keeps (holds (released eid)) count"
  shows "triple (holds (stored eid)) (skip_event E q eid count) (\<lambda>_. holds (released eid))"
  unfolding skip_event_def
proof (rule triple_bind [OF mark_releases])
  show "triple (holds (released eid)) (case r of Inl _ \<Rightarrow> requeue E eid
      | Inr _ \<Rightarrow> do { _ \<leftarrow> count;
          if clears_payload q then do { _ \<leftarrow> store E (ClearPayload eid); State_Monad.return () }
          else State_Monad.return () }) (\<lambda>_. holds (released eid))" for r :: "store_err + unit"
    by (intro keeps_case_sum keeps_bind assms keeps_if released_keeps_clear keeps_return
        triple_conseq [OF requeue_releases [OF assms(1)]]) (auto simp: on_db_def released_def)
qed (use assms(1) in simp_all)

text \<open>No variables means the event was released.\<close>

abbreviation (input) gives_vars :: "string \<Rightarrow> 'a option \<Rightarrow> qstate \<Rightarrow> bool" where
  "gives_vars eid v s \<equiv> holds (stored eid) s \<and> (v = None \<longrightarrow> holds (released eid) s)"

lemma released_stored: "holds (released eid) s \<Longrightarrow> holds (stored eid) s"
  by (simp add: on_db_def released_def)

lemma fail_event_releases: "calm E \<Longrightarrow> triple (holds (stored eid)) (fail_event E eid) (gives_vars eid)"
  unfolding fail_event_def
  by (intro triple_bind [OF mark_releases] triple_return) (auto dest: released_stored)

lemma filtered_vars_releases:
  "calm E \<Longrightarrow> triple (holds (stored (pe_ID ev))) (filtered_vars E q ev src pl) (gives_vars (pe_ID ev))"
  unfolding filtered_vars_def Let_def
  by (intro keeps_if triple_bind [OF skip_event_releases] keeps_drops keeps_return triple_return
      triple_bind [OF keeps_match_rules] keeps_case_sum keeps_case_bool fail_event_releases)
     (auto dest: released_stored)

lemma executionVars_releases:
  "calm E \<Longrightarrow> triple (holds (stored (pe_ID ev))) (executionVars E q ev src) (gives_vars (pe_ID ev))"
  unfolding executionVars_def
  by (intro keeps_if keeps_case_option fail_event_releases triple_return
      triple_bind [where m = "if _ then _ else _" and Q = "\<lambda>_. holds (stored (pe_ID ev))"]
      keeps_return stored_safe.keeps_store_read calm_quiet keeps_case_sum keeps_case_prod
      triple_bind [OF requeue_releases] filtered_vars_releases) (auto simp: get_payload_def dest: released_stored)

lemma run_plan_releases:
  assumes "calm E"
  shows "triple (holds (stored (pe_ID ev))) (run_plan E q ev src vars) (\<lambda>_. holds (released (pe_ID ev)))"
proof -
  have fin: "triple (\<lambda>s. holds (stored eid) s \<and> ((\<exists>st. r = Inr st) \<longrightarrow> holds (released eid) s))
      (case r of Inl _ \<Rightarrow> requeue E eid | Inr _ \<Rightarrow> State_Monad.return ()) (\<lambda>_. holds (released eid))"
    for r :: "store_err + ev_status" and eid
    by (intro keeps_case_sum triple_return triple_conseq [OF requeue_releases [OF assms]]) auto
  have "triple (goes_on (pe_ID ev) go)
      (if \<not> go then State_Monad.return ()
       else do { r \<leftarrow> refresh E (pe_ID ev); case r of Inl _ \<Rightarrow> requeue E (pe_ID ev) | Inr _ \<Rightarrow> State_Monad.return () })
      (\<lambda>_. holds (released (pe_ID ev)))" for go
    using triple_bind [OF refresh_releases [OF assms] fin]
    by (cases go) (auto simp: goes_on_def triple_def)
  then show ?thesis
    unfolding run_plan_def
    by (intro triple_bind [OF stored_safe.keeps_store_read] keeps_case_sum requeue_releases
        triple_bind [OF process_actions_goes_on] calm_quiet assms) (auto simp: list_states_def)
qed

lemma process_releases:
  assumes "calm E"
  shows "triple (holds (stored (pe_ID ev))) (process E q ev src) (\<lambda>_. holds (released (pe_ID ev)))"
proof -
  have plan: "triple (holds (stored (pe_ID ev)))
      (case marshalVars vars of None \<Rightarrow> requeue E (pe_ID ev)
       | Some js \<Rightarrow> do { t \<leftarrow> now E;
           p \<leftarrow> store E (PrepareEvent (pe_ID ev) js (length (src_Actions src)) (clears_payload q) t);
           case p of Inl _ \<Rightarrow> requeue E (pe_ID ev) | Inr _ \<Rightarrow> run_plan E q ev src vars })
      (\<lambda>_. holds (released (pe_ID ev)))" for vars
    by (intro keeps_case_option requeue_releases triple_bind [OF keeps_now]
        triple_bind [OF stored_safe.keeps_worker_call [where c = "CPrepare _ _ _ _ _"]] keeps_case_sum run_plan_releases
        calm_quiet assms) auto
  show ?thesis
    unfolding process_def
  proof (rule triple_bind [OF executionVars_releases [OF assms]])
    fix v :: "gomap option"
    show "triple (gives_vars (pe_ID ev) v)
      (case v of None \<Rightarrow> State_Monad.return ()
       | Some vars \<Rightarrow> (case marshalVars vars of None \<Rightarrow> requeue E (pe_ID ev)
           | Some js \<Rightarrow> do { t \<leftarrow> now E;
               p \<leftarrow> store E (PrepareEvent (pe_ID ev) js (length (src_Actions src)) (clears_payload q) t);
               case p of Inl _ \<Rightarrow> requeue E (pe_ID ev) | Inr _ \<Rightarrow> run_plan E q ev src vars }))
      (\<lambda>_. holds (released (pe_ID ev)))"
    proof (cases v)
      case (Some vars)
      then show ?thesis using triple_conseq [OF plan [of vars]] by simp
    qed (simp add: triple_def)
  qed
qed

text \<open>C7: a pass always lets go of its event. Without store faults and interference, whatever the
  handlers return and whenever the context is cancelled, the event is no longer processing when
  \<^verbatim>\<open>process\<close> returns: it is finished, waiting for its next retry, or pending again.\<close>

theorem pass_releases_event:
  assumes "calm E" and "pe_ID ev \<in> ev_id ` set (db_events (qs_db s))" and "run_state (process E q ev src) s = (u, s')"
  shows "pe_ID ev \<in> ev_id ` set (db_events (qs_db s')) \<and>
    (\<forall>e \<in> set (db_events (qs_db s')). ev_id e = pe_ID ev \<longrightarrow> ev_status e \<noteq> Processing)"
  using tripleD [OF process_releases [OF assms(1)] _ assms(3)] assms(2)
  by (simp add: on_db_def released_def stored_def)

definition demo_failing :: qenv where
  "demo_failing = demo_qenv\<lparr>en_handle := (\<lambda>_ hc. ((''https://example.com'', []),
     if hc_index hc = 0 then Some (HTTPErr \<lparr>he_Status = 503, he_Body = ''busy'', he_RetryAfter = 0\<rparr>) else None))\<rparr>"

definition demo_claimed :: "pending_event \<times> db" where
  "demo_claimed = (case ClaimPending Minute (20 * Second) ''w1'' demo_saved of
     (Inr (Some ev), d) \<Rightarrow> (ev, d) | (_, d) \<Rightarrow> (undefined, d))"

theorem pass_releases_event_witness:
  "map ev_status (db_events (snd demo_claimed)) = [Processing] \<and>
   map ev_status (db_events (qs_db (snd (run_state (process demo_failing demo_queue (fst demo_claimed) demo_source)
     (demo_state (snd demo_claimed)))))) = [Retrying]"
proof -
  have c: "calm demo_failing" by (simp add: calm_def demo_failing_def demo_qenv_def)
  have m: "pe_ID (fst demo_claimed) \<in> ev_id ` set (db_events (qs_db (demo_state (snd demo_claimed))))" by code_simp
  from pass_releases_event [OF c m prod.collapse [symmetric], of demo_queue demo_source]
  have "\<forall>e \<in> set (db_events (qs_db (snd (run_state (process demo_failing demo_queue (fst demo_claimed) demo_source)
     (demo_state (snd demo_claimed)))))). ev_id e = pe_ID (fst demo_claimed) \<longrightarrow> ev_status e \<noteq> Processing" by blast
  moreover have "map ev_status (db_events (snd demo_claimed)) = [Processing]" by code_simp
  moreover have "map ev_status (db_events (qs_db (snd (run_state (process demo_failing demo_queue (fst demo_claimed) demo_source)
     (demo_state (snd demo_claimed)))))) = [Retrying]" by code_simp
  ultimately show ?thesis by blast
qed

end
