(* ===== verification/Attempts.thy ===== *)
theory Attempts
  imports Passes
begin

text \<open>
  The retry budget of an action over a pass of \<^verbatim>\<open>process\<close>: how many attempts a handler can see
  and that none is made once the retry deadline has passed. Other goroutines may interfere with
  everything except starting or rescheduling actions of the event the pass holds, which the
  lease reserves for this worker.
\<close>

text \<open>A store step with its own postcondition, under interference that keeps the precondition.\<close>

context store_client
begin

lemma triple_store:
  assumes "quiet adm E" and "\<And>d. inv d \<Longrightarrow> J (Inl ErrDB) d" and "\<And>d. inv d \<Longrightarrow> J (Inl ErrDB) (snd (f d))"
    and "\<And>d. inv d \<Longrightarrow> J (fst (f d)) (snd (f d))"
  shows "triple (on_db inv trace) (store E f) (\<lambda>r. on_db (J r) trace)"
proof (rule tripleI)
  fix s x s' assume s: "on_db inv trace s" and run: "run_state (store E f) s = (x, s')"
  let ?d = "fold exec_call (en_other E (qs_tick s)) (qs_db s)"
  have d: "inv ?d" using s assms(1) run_keeps by (simp add: on_db_def quiet_def)
  show "on_db (J x) trace s'"
    using run s assms(2-4) [OF d] by (cases "f ?d") (auto simp: store_def Let_def on_db_def split: fault.splits)
qed

end

section \<open>Invariants of single action rows\<close>

text \<open>A property of action rows that survives the row assignments of the store's statements is
  kept by every call that neither starts nor reschedules an action it constrains.\<close>

definition rows_ok :: "(action_row \<Rightarrow> bool) \<Rightarrow> db \<Rightarrow> bool" where
  "rows_ok Q d \<longleftrightarrow> (\<forall>a \<in> set (db_event_actions d). Q a)"

lemma rows_ok_cong [simp]: "rows_ok Q (d\<lparr>db_events := x\<rparr>) = rows_ok Q d"
  "rows_ok Q (d\<lparr>db_action_logs := l\<rparr>) = rows_ok Q d" "rows_ok Q (d\<lparr>db_log_seq := n\<rparr>) = rows_ok Q d"
  "rows_ok Q (d\<lparr>db_replay_guard := g\<rparr>) = rows_ok Q d" "rows_ok Q (d\<lparr>db_ready_check := r\<rparr>) = rows_ok Q d"
  "rows_ok Q (d\<lparr>db_heartbeat_logs := h\<rparr>) = rows_ok Q d" "rows_ok Q (d\<lparr>db_hb_seq := n\<rparr>) = rows_ok Q d"
  by (simp_all add: rows_ok_def)

lemma set_insert_actions:
  "set (insert_actions eid t n as) \<subseteq> set as \<union> {new_action eid k t |k. k < n}"
  unfolding insert_actions_def
proof (induction n)
  case (Suc n)
  have "set (insert_action eid t n as') \<subseteq> insert (new_action eid n t) (set as')" for as'
    by (auto simp: insert_action_def)
  with Suc show ?case by fastforce
qed simp

locale row_invariant =
  fixes Q :: "action_row \<Rightarrow> bool" and eid :: string
  assumes row_unrun: "Q a \<Longrightarrow> ea_status a = ARunning \<Longrightarrow> Q (unrun a)"
    and row_replay: "Q a \<Longrightarrow> Q (replay_action t a)"
    and row_new: "Q (new_action i k t)"
    and row_end: "Q a \<Longrightarrow> ea_status a' \<in> {ADone, ADead} \<Longrightarrow> action_key a' = action_key a \<Longrightarrow> Q a'"
    and row_other: "ea_event_id a \<noteq> eid \<Longrightarrow> Q a"
begin

lemma rows_update: "rows_ok Q d \<Longrightarrow> (\<And>a. P a \<Longrightarrow> Q a \<Longrightarrow> Q (f a)) \<Longrightarrow> \<forall>a \<in> set (update_where P f (db_event_actions d)). Q a"
  by (simp add: rows_ok_def ball_update_where)

lemma rows_updateRunning:
  "rows_ok Q d \<Longrightarrow> (\<And>a. ea_event_id a = i \<Longrightarrow> ea_action_index a = k \<Longrightarrow> ea_status a = ARunning \<Longrightarrow> Q a \<Longrightarrow> Q (f a)) \<Longrightarrow>
     rows_ok Q (snd (updateRunningAction i k f d))"
  by (simp add: updateRunningAction_def Let_def rows_ok_def ball_update_where)

lemma rows_Schedule_other: "rows_ok Q d \<Longrightarrow> i \<noteq> eid \<Longrightarrow> rows_ok Q (snd (ScheduleActionRetry i k t det ra d))"
  unfolding ScheduleActionRetry_def by (rule rows_updateRunning) (auto intro: row_other)

lemma rows_end_calls:
  assumes "rows_ok Q d"
  shows "rows_ok Q (snd (CompleteAction i k t d))" "rows_ok Q (snd (DeadAction i k det t d))"
    "rows_ok Q (snd (ExpireAction i k t d))"
proof -
  show "rows_ok Q (snd (CompleteAction i k t d))" "rows_ok Q (snd (DeadAction i k det t d))"
    unfolding CompleteAction_def DeadAction_def
    by (rule rows_updateRunning [OF assms]; erule row_end; simp add: action_key_def)+
  have "Q (a\<lparr>ea_status := ADead, ea_next_attempt_at_ms := None, ea_last_error := le, ea_retry_after_ms := None,
      ea_completed_at_ms := c\<rparr>)" if "Q a" for a le c
    using row_end [OF that] by (simp add: action_key_def)
  with assms show "rows_ok Q (snd (ExpireAction i k t d))"
    by (simp add: ExpireAction_def Let_def rows_ok_def ball_update_where)
qed

lemma rows_purge: "rows_ok Q d \<Longrightarrow> rows_ok Q (snd (PurgeOlderThan cutoff wall d))"
  by (simp add: PurgeOlderThan_def Let_def rows_ok_def set_delete_where)

lemma rows_requeue: "rows_ok Q d \<Longrightarrow> rows_ok Q (snd (requeueProcessing b cond d))"
  by (simp add: requeueProcessing_def Let_def rows_ok_def ball_update_where row_unrun)

lemma rows_unrun_calls:
  assumes "rows_ok Q d"
  shows "rows_ok Q (snd (RequeueEvent i d))" "rows_ok Q (snd (ClaimPending l t ow d))"
    "rows_ok Q (snd (ReplayDeadEvent i rs t d))" "rows_ok Q (snd (RequeueExpiredLeases t d))"
    "rows_ok Q (snd (RequeueAllProcessing d))"
  using assms rows_requeue
  by (auto simp: RequeueEvent_def ClaimPending_def ReplayDeadEvent_def RequeueExpiredLeases_def
      RequeueAllProcessing_def Let_def rows_ok_def ball_update_where row_unrun row_replay split: option.splits)

lemma rows_Prepare: "rows_ok Q d \<Longrightarrow> rows_ok Q (snd (PrepareEvent i v n cl t d))"
  using set_insert_actions [of i t n "db_event_actions d"] row_new
  by (fastforce simp: PrepareEvent_def Let_def rows_ok_def)

lemma rows_exec_call:
  assumes "rows_ok Q d" and "\<And>i k t. c = CStart i k t \<Longrightarrow> i \<noteq> eid" and "\<And>i k t det ra. c = CSchedule i k t det ra \<Longrightarrow> i \<noteq> eid"
  shows "rows_ok Q (exec_call c d)"
proof (cases c)
  case (CStart i k t)
  have "rows_ok Q (snd (StartAction i k t d))"
    using assms(1,2) CStart
    by (auto simp: StartAction_def rows_ok_def ball_update_where started_def startable_def intro: row_other split: option.splits)
  with CStart show ?thesis by simp
next
  case (CSchedule i k t det ra)
  with rows_Schedule_other [OF assms(1)] assms(3) show ?thesis by simp
qed (use assms(1) in \<open>auto simp: rows_end_calls rows_unrun_calls rows_Prepare rows_purge savePendingEvent_def RenewLease_def
      refresh_write_def UpdateEventStatus_def ClearPayload_def insert_log_def ReadyCheck_def update_snapshot_def
      insert_heartbeat_def Let_def split: option.splits\<close>)

end

section \<open>The retry budget\<close>

definition in_budget :: "nat \<Rightarrow> string \<Rightarrow> action_row \<Rightarrow> bool" where
  "in_budget m eid a \<longleftrightarrow> (ea_event_id a = eid \<longrightarrow>
     (ea_status a \<in> {APending, ARetrying} \<longrightarrow> ea_attempt_count a \<le> int m) \<and>
     (ea_status a = ARunning \<longrightarrow> ea_attempt_count a \<le> int m + 1))"

text \<open>The attempt that is running is the one \<open>StartAction\<close> reported.\<close>

definition in_attempt :: "nat \<Rightarrow> string \<Rightarrow> nat \<Rightarrow> int \<Rightarrow> action_row \<Rightarrow> bool" where
  "in_attempt m eid i att a \<longleftrightarrow> in_budget m eid a \<and>
     (action_key a = (eid, i) \<longrightarrow> ea_status a = ARunning \<longrightarrow> ea_attempt_count a \<le> att)"

definition idle :: "string \<Rightarrow> action_row \<Rightarrow> bool" where
  "idle eid a \<longleftrightarrow> (ea_event_id a = eid \<longrightarrow> ea_status a \<noteq> ARunning)"

interpretation budget_rows: row_invariant "in_budget m eid" eid for m eid
  by unfold_locales (auto simp: in_budget_def unrun_def replay_action_def new_action_def action_key_def)

interpretation attempt_rows: row_invariant "in_attempt m eid i att" eid for m eid i att
  by unfold_locales (auto simp: in_attempt_def in_budget_def unrun_def replay_action_def new_action_def action_key_def)

interpretation idle_rows: row_invariant "idle eid" eid for eid
  by unfold_locales (auto simp: idle_def unrun_def replay_action_def new_action_def action_key_def)

fun leaves_attempts :: "string \<Rightarrow> call \<Rightarrow> bool" where
  "leaves_attempts eid (CStart i k t) \<longleftrightarrow> i \<noteq> eid"
| "leaves_attempts eid (CSchedule i k t det ra) \<longleftrightarrow> i \<noteq> eid"
| "leaves_attempts eid c \<longleftrightarrow> True"

lemma plain_leaves_attempts: "plain_call c \<Longrightarrow> leaves_attempts eid c"
  by (cases c) auto

abbreviation (input) spares :: "string \<Rightarrow> call \<Rightarrow> bool" where
  "spares eid c \<equiv> call_ok c \<and> leaves_attempts eid c"

abbreviation (input) budget_ok :: "nat \<Rightarrow> string \<Rightarrow> db \<Rightarrow> bool" where
  "budget_ok m eid d \<equiv> db_ok d \<and> rows_ok (in_budget m eid) d"

abbreviation (input) attempt_ok :: "nat \<Rightarrow> string \<Rightarrow> nat \<Rightarrow> int \<Rightarrow> db \<Rightarrow> bool" where
  "attempt_ok m eid i att d \<equiv> db_ok d \<and> rows_ok (in_attempt m eid i att) d"

lemma plain_spares: "plain_call c \<Longrightarrow> call_ok c \<and> leaves_attempts eid c"
  by (cases c) auto

interpretation budget: store_client "spares eid" "budget_ok m eid" trace for eid m trace
  by unfold_locales (auto intro: budget_rows.rows_exec_call db_ok_exec_call dest: plain_spares)

interpretation attempt: store_client "spares eid" "attempt_ok m eid i att" trace for eid m i att trace
  by unfold_locales (auto intro: attempt_rows.rows_exec_call db_ok_exec_call dest: plain_spares)

interpretation idle: store_client "leaves_attempts eid" "rows_ok (idle eid)" trace for eid trace
  by unfold_locales (auto intro: idle_rows.rows_exec_call plain_leaves_attempts)

text \<open>What the steps of an attempt do to the budget.\<close>

lemma in_attempt_budget: "rows_ok (in_attempt m eid i att) d \<Longrightarrow> rows_ok (in_budget m eid) d"
  by (simp add: rows_ok_def in_attempt_def)

lemma StartAction_budget:
  assumes "rows_ok (in_budget m eid) d"
  shows "rows_ok (in_budget m eid) (snd (StartAction eid i t d))"
    "fst (StartAction eid i t d) = Inr att \<Longrightarrow> att \<le> int m + 1"
  using assms
  by (auto simp: StartAction_def rows_ok_def ball_update_where startable_def started_def in_budget_def find_Some_iff
      split: option.splits)

lemma StartAction_attempt:
  assumes "rows_ok (in_budget m eid) d" "db_ok d" "fst (StartAction eid i t d) = Inr att"
  shows "rows_ok (in_attempt m eid i att) (snd (StartAction eid i t d))"
proof -
  obtain b where b: "find (startable eid i t) (db_event_actions d) = Some b" and att: "att = ea_attempt_count (started b)"
    using assms(3) by (auto simp: StartAction_def split: option.splits)
  have same: "a = b" if "a \<in> set (db_event_actions d)" "action_key a = (eid, i)" for a
  proof (rule distinct_map_unique [of action_key "db_event_actions d"])
    show "b \<in> set (db_event_actions d)" "action_key a = action_key b"
      using b that(2) by (auto simp: find_Some_iff startable_def action_key_def)
  qed (use assms(2) that in \<open>auto simp: db_ok_def actions_ok_def\<close>)
  have "startable eid i t b" using b by (auto simp: find_Some_iff)
  with same StartAction_budget(1) [OF assms(1), of i t] b show ?thesis
    by (auto simp: rows_ok_def in_attempt_def StartAction_def ball_update_where action_key_def att started_def)
qed

lemma Schedule_budget:
  assumes "rows_ok (in_attempt m eid i att) d" "att \<le> int m"
  shows "rows_ok (in_budget m eid) (snd (ScheduleActionRetry eid i t det ra d))"
  unfolding ScheduleActionRetry_def
  using assms
  by (auto simp: updateRunningAction_def Let_def rows_ok_def ball_update_where in_attempt_def in_budget_def action_key_def)

section \<open>The attempts of a pass\<close>

definition new_calls :: "(handler_call \<Rightarrow> bool) \<Rightarrow> handler_call list \<Rightarrow> handler_call list \<Rightarrow> bool" where
  "new_calls P old cs \<longleftrightarrow> (\<exists>new. cs = old @ new \<and> list_all P new)"

lemma new_calls_snoc: "new_calls P old cs \<Longrightarrow> P c \<Longrightarrow> new_calls P old (cs @ [c])"
  unfolding new_calls_def by (rule trace_snoc)

lemma new_calls_refl: "new_calls P cs cs"
  by (simp add: new_calls_def)

definition budget_trace :: "string \<Rightarrow> nat \<Rightarrow> handler_call list \<Rightarrow> handler_call list \<Rightarrow> bool" where
  "budget_trace eid m = new_calls (\<lambda>c. hc_event c = eid \<and> hc_attempt c \<le> int m + 1)"

abbreviation (input) budget_st :: "nat \<Rightarrow> string \<Rightarrow> handler_call list \<Rightarrow> qstate \<Rightarrow> bool" where
  "budget_st m eid old \<equiv> on_db (budget_ok m eid) (budget_trace eid m old)"

abbreviation (input) attempt_st :: "nat \<Rightarrow> string \<Rightarrow> nat \<Rightarrow> int \<Rightarrow> handler_call list \<Rightarrow> qstate \<Rightarrow> bool" where
  "attempt_st m eid i att old \<equiv> on_db (attempt_ok m eid i att) (budget_trace eid m old)"

lemma attempt_st_budget: "attempt_st m eid i att old s \<Longrightarrow> budget_st m eid old s"
  by (auto simp: on_db_def in_attempt_budget)

text \<open>A program that keeps the budget may follow a started attempt.\<close>

lemma after_attempt: "triple (budget_st m eid old) p Q \<Longrightarrow> triple (attempt_st m eid i att old) p Q"
  by (erule triple_conseq) (auto intro: attempt_st_budget)

lemma budget_stop:
  "quiet (spares eid) E \<Longrightarrow>
     triple (budget_st m eid old) (do { _ \<leftarrow> requeue E eid; State_Monad.return False }) (\<lambda>_. budget_st m eid old)"
  by (intro keeps_bind keeps_return budget.keeps_requeue)

lemma budget_dead_letter:
  "quiet (spares (pe_ID ev)) E \<Longrightarrow>
     triple (budget_st m (pe_ID ev) old) (dead_letter E ev i det) (\<lambda>_. budget_st m (pe_ID ev) old)"
  unfolding dead_letter_def
  by (intro keeps_bind keeps_now budget.keeps_store_call [where c = "CDead _ _ _ _"] budget.keeps_proceed) auto

lemma budget_schedule:
  "quiet (spares eid) E \<Longrightarrow> att \<le> int m \<Longrightarrow>
     triple (attempt_st m eid i att old) (store E (ScheduleActionRetry eid i t det ra)) (\<lambda>_. budget_st m eid old)"
  by (rule attempt.triple_store)
     (auto intro: in_attempt_budget Schedule_budget db_ok_ScheduleActionRetry)

lemma budget_after_failure:
  assumes "quiet (spares (pe_ID ev)) E" "q_maxRetries q = int m"
  shows "triple (attempt_st m (pe_ID ev) i att old) (after_failure E q ev i att err) (\<lambda>_. budget_st m (pe_ID ev) old)"
  unfolding after_failure_def Let_def
  using assms
  by (intro triple_bind [OF keeps_isCanceled] keeps_if after_attempt [OF budget_stop] after_attempt [OF budget_dead_letter]
      triple_bind [where m = "if _ then _ else _" and Q = "\<lambda>_. attempt_st m (pe_ID ev) i att old"] keeps_retryDelay keeps_return
      triple_bind [OF keeps_now] triple_bind [OF budget_schedule] budget.keeps_proceed) auto

lemma budget_handle:
  assumes "att \<le> int m + 1"
  shows "triple (attempt_st m (pe_ID ev) i att old) (handle E (attempt_call ev i att ac vars)) (\<lambda>_. attempt_st m (pe_ID ev) i att old)"
  using assms
  by (auto simp: triple_def handle_def on_db_def budget_trace_def attempt_call_def intro: new_calls_snoc)

lemma budget_dispatch:
  assumes "quiet (spares (pe_ID ev)) E" "q_maxRetries q = int m" "att \<le> int m + 1"
  shows "triple (attempt_st m (pe_ID ev) i att old) (dispatch E q ev vars i ac att) (\<lambda>_. budget_st m (pe_ID ev) old)"
  unfolding dispatch_def Let_def
  using assms
  by (intro keeps_if triple_bind [OF attempt.keeps_logAction] after_attempt [OF budget_dead_letter] triple_bind [OF keeps_now]
      triple_bind [OF budget_handle] keeps_case_option budget_after_failure
      triple_bind [OF after_attempt [OF budget.keeps_store_call [where c = "CComplete _ _ _"]]] budget.keeps_proceed) auto

lemma budget_start:
  assumes "quiet (spares eid) E"
  shows "triple (budget_st m eid old) (store E (StartAction eid i t))
    (\<lambda>r. on_db (\<lambda>d. budget_ok m eid d \<and> (\<forall>att. r = Inr att \<longrightarrow> att \<le> int m + 1 \<and> attempt_ok m eid i att d)) (budget_trace eid m old))"
  using assms by (rule budget.triple_store)
     (auto intro: StartAction_budget StartAction_attempt db_ok_StartAction)

lemma budget_process_action:
  assumes "quiet (spares (pe_ID ev)) E" "q_maxRetries q = int m"
  shows "triple (budget_st m (pe_ID ev) old) (process_action E q ev vars sts i ac) (\<lambda>_. budget_st m (pe_ID ev) old)"
proof -
  have go: "triple (on_db (\<lambda>d. budget_ok m (pe_ID ev) d \<and>
        (\<forall>att. r = Inr att \<longrightarrow> att \<le> int m + 1 \<and> attempt_ok m (pe_ID ev) i att d)) (budget_trace (pe_ID ev) m old))
      (case r of Inl e \<Rightarrow> if e = ErrNoRows then State_Monad.return True
                        else do { _ \<leftarrow> requeue E (pe_ID ev); State_Monad.return False }
        | Inr attempt \<Rightarrow> dispatch E q ev vars i ac attempt) (\<lambda>_. budget_st m (pe_ID ev) old)" for r
  proof (cases r)
    case (Inl e)
    then show ?thesis
      by (auto intro!: triple_return triple_conseq [OF budget_stop [OF assms(1)]] simp: on_db_def)
  next
    case (Inr att)
    show ?thesis
    proof (cases "att \<le> int m + 1")
      case True
      with Inr show ?thesis
        by (auto intro!: triple_conseq [OF budget_dispatch [OF assms True]] simp: on_db_def)
    qed (simp add: Inr triple_def on_db_def)
  qed
  show ?thesis
    unfolding process_action_def using assms(1)
    by (intro keeps_bind keeps_isCanceled keeps_if budget_stop keeps_case_option keeps_return keeps_now budget.keeps_proceed
        triple_bind [OF budget_start go] budget.keeps_store_call [where f = "ExpireAction _ _ _" and c = "CExpire _ _ _"]) auto
qed

lemma budget_process:
  assumes "quiet (spares (pe_ID ev)) E" "q_maxRetries q = int m"
  shows "triple (budget_st m (pe_ID ev) old) (process E q ev src) (\<lambda>_. budget_st m (pe_ID ev) old)"
proof -
  have acts: "triple (budget_st m (pe_ID ev) old) (process_actions E q ev vars sts i acs) (\<lambda>_. budget_st m (pe_ID ev) old)"
    for vars sts i acs
    by (induction acs arbitrary: i) (auto intro!: keeps_bind keeps_return budget_process_action [OF assms])
  show ?thesis
    unfolding process_def run_plan_def using assms(1)
    by (intro keeps_bind keeps_case_option keeps_case_sum keeps_if keeps_return keeps_now acts budget.keeps_executionVars
        budget.keeps_requeue budget.keeps_refresh budget.keeps_store_read budget.keeps_store_call [where c = "CPrepare _ _ _ _ _"])
       (auto simp: list_states_def)
qed

text \<open>C22: an action is attempted at most \<open>max_retries + 1\<close> times. As long as no other goroutine
  starts or reschedules actions of the event this worker holds, every handler call of a pass
  carries an attempt number within the budget, and the stored attempt counts stay within it,
  also across faults, cancellations, crashes of the lease and manual replays.\<close>

theorem attempts_within_budget:
  assumes "db_ok (qs_db s)" and "rows_ok (in_budget m (pe_ID ev)) (qs_db s)" and "q_maxRetries q = int m"
    and "quiet (\<lambda>c. call_ok c \<and> leaves_attempts (pe_ID ev) c) E" and "run_state (process E q ev src) s = (u, s')"
  shows "rows_ok (in_budget m (pe_ID ev)) (qs_db s') \<and>
    new_calls (\<lambda>c. hc_event c = pe_ID ev \<and> hc_attempt c \<le> int m + 1) (qs_calls s) (qs_calls s')"
  using tripleD [OF budget_process [OF assms(4,3), of "qs_calls s"] _ assms(5)] assms(1,2)
  by (simp add: on_db_def budget_trace_def new_calls_refl)

theorem attempts_within_budget_witness:
  "new_calls (\<lambda>c. hc_event c = pe_ID (fst demo_claimed) \<and> hc_attempt c \<le> 3) []
     (qs_calls (snd (run_state (process demo_failing demo_queue (fst demo_claimed) demo_source) (demo_state (snd demo_claimed))))) \<and>
   map hc_attempt (qs_calls (snd (run_state (process demo_failing demo_queue (fst demo_claimed) demo_source)
     (demo_state (snd demo_claimed))))) = [1, 1]"
proof -
  have ok: "db_ok (qs_db (demo_state (snd demo_claimed)))"
  proof -
    have "snd demo_claimed = exec_call (CClaim Minute (20 * Second) ''w1'') demo_saved" by code_simp
    then show ?thesis using db_ok_ClaimPending [OF demo_saved_ok] by (simp add: demo_state_def)
  qed
  have rows: "rows_ok (in_budget 2 (pe_ID (fst demo_claimed))) (qs_db (demo_state (snd demo_claimed)))" by code_simp
  have q: "q_maxRetries demo_queue = int 2" by code_simp
  have e: "quiet adm demo_failing" for adm by (simp add: quiet_def demo_failing_def demo_qenv_def)
  have "map hc_attempt (qs_calls (snd (run_state (process demo_failing demo_queue (fst demo_claimed) demo_source)
     (demo_state (snd demo_claimed))))) = [1, 1]" by code_simp
  with attempts_within_budget [OF ok rows q e prod.collapse [symmetric], of demo_source] show ?thesis
    by (simp add: demo_state_def)
qed

section \<open>The retry deadline\<close>

interpretation any: store_client "\<lambda>_. True" "\<lambda>_. True" trace for trace
  by unfold_locales simp_all

lemma quiet_any: "quiet (\<lambda>_. True) E"
  by (simp add: quiet_def list_all_iff)

abbreviation (input) no_calls :: "handler_call list \<Rightarrow> qstate \<Rightarrow> bool" where
  "no_calls old \<equiv> on_db (\<lambda>_. True) (\<lambda>cs. cs = old)"

text \<open>Past the deadline an action that is not running is expired, skipped or left.\<close>

lemma overdue_action_not_called:
  assumes "\<And>t. pe_RetryStartedAt ev + q_maxRetryAge q \<le> en_now E t" and "\<forall>st \<in> set sts. as_Status st \<noteq> ARunning"
  shows "keeps (no_calls old) (process_action E q ev vars sts i ac)"
proof -
  have late: "triple (no_calls old) (now E) (\<lambda>t s. no_calls old s \<and> \<not> t < pe_RetryStartedAt ev + q_maxRetryAge q)"
    using assms(1) by (auto simp: triple_def now_def ask_def on_db_def not_less)
  have st: "as_Status st \<in> {APending, ARetrying}"
    if "find (\<lambda>s. as_Index s = i) sts = Some st" "\<not> (as_Status st = ADone \<or> as_Status st = ADead)" for st
    using that assms(2) by (cases "as_Status st") (auto simp: find_Some_iff)
  show ?thesis
    unfolding process_action_def
    by (intro keeps_bind keeps_isCanceled keeps_if any.keeps_requeue keeps_return keeps_case_option quiet_any
        triple_bind [OF late] triple_pure any.keeps_store_call [where c = "CExpire _ _ _"] any.keeps_proceed)
       (use st in auto)
qed

lemma overdue_actions_not_called:
  assumes "\<And>t. pe_RetryStartedAt ev + q_maxRetryAge q \<le> en_now E t" and "\<forall>st \<in> set sts. as_Status st \<noteq> ARunning"
  shows "keeps (no_calls old) (process_actions E q ev vars sts i acs)"
  by (induction acs arbitrary: i) (auto intro!: keeps_intros overdue_action_not_called assms)

abbreviation (input) idle_st :: "string \<Rightarrow> handler_call list \<Rightarrow> qstate \<Rightarrow> bool" where
  "idle_st eid old \<equiv> on_db (rows_ok (idle eid)) (\<lambda>cs. cs = old)"

lemma idle_no_calls: "triple (no_calls old) p (\<lambda>_. no_calls old) \<Longrightarrow> triple (idle_st eid old) p (\<lambda>_. no_calls old)"
  by (erule triple_conseq) (auto simp: on_db_def)

lemma idle_states:
  assumes "quiet (leaves_attempts eid) E"
  shows "triple (idle_st eid old) (store E (list_states eid))
    (\<lambda>l s. idle_st eid old s \<and> (\<forall>sts. l = Inr sts \<longrightarrow> (\<forall>st \<in> set sts. as_Status st \<noteq> ARunning)))"
proof -
  have "triple (idle_st eid old) (store E (list_states eid))
    (\<lambda>l. on_db (\<lambda>d. rows_ok (idle eid) d \<and> (\<forall>sts. l = Inr sts \<longrightarrow> (\<forall>st \<in> set sts. as_Status st \<noteq> ARunning))) (\<lambda>cs. cs = old))"
    using assms by (rule idle.triple_store)
      (auto simp: list_states_def ListActionStates_def actions_of_def state_of_row_def rows_ok_def idle_def)
  then show ?thesis by (rule triple_conseq) (auto simp: on_db_def)
qed

lemma overdue_run_plan:
  assumes "\<And>t. pe_RetryStartedAt ev + q_maxRetryAge q \<le> en_now E t" and "quiet (leaves_attempts (pe_ID ev)) E"
  shows "triple (idle_st (pe_ID ev) old) (run_plan E q ev src vars) (\<lambda>_. no_calls old)"
proof -
  have "triple (\<lambda>s. idle_st (pe_ID ev) old s \<and> (\<forall>sts. l = Inr sts \<longrightarrow> (\<forall>st \<in> set sts. as_Status st \<noteq> ARunning)))
      (case l of Inl _ \<Rightarrow> requeue E (pe_ID ev)
       | Inr states \<Rightarrow> do { go \<leftarrow> process_actions E q ev vars states 0 (src_Actions src);
           if \<not> go then State_Monad.return ()
           else do { r \<leftarrow> refresh E (pe_ID ev); case r of Inl _ \<Rightarrow> requeue E (pe_ID ev) | Inr _ \<Rightarrow> State_Monad.return () } })
      (\<lambda>_. no_calls old)" for l :: "store_err + action_state list"
    by (intro triple_pure keeps_case_sum idle_no_calls keeps_bind keeps_if keeps_return any.keeps_requeue any.keeps_refresh
        overdue_actions_not_called quiet_any assms(1)) auto
  then show ?thesis
    unfolding run_plan_def by (rule triple_bind [OF idle_states [OF assms(2)]])
qed

lemma overdue_process:
  assumes "\<And>t. pe_RetryStartedAt ev + q_maxRetryAge q \<le> en_now E t" and "quiet (leaves_attempts (pe_ID ev)) E"
  shows "triple (idle_st (pe_ID ev) old) (process E q ev src) (\<lambda>_. no_calls old)"
  unfolding process_def
  by (intro triple_bind [OF idle.keeps_executionVars] keeps_case_option triple_bind [OF keeps_now] keeps_case_sum
      idle_no_calls [OF keeps_return] idle_no_calls [OF any.keeps_requeue] quiet_any assms overdue_run_plan
      triple_bind [OF idle.keeps_store_call [where c = "CPrepare _ _ _ _ _"]]) auto

lemma claim_idle:
  assumes "db_ok d" "ClaimPending lease t owner d = (Inr (Some ev), d')"
  shows "rows_ok (idle (pe_ID ev)) d'"
proof (rule ClaimPending_cases [OF assms(1), of lease t owner])
  fix e assume "ClaimPending lease t owner d = (Inr (Some (pending_of_row e)),
         d\<lparr>db_events := update_where (\<lambda>r. ev_id r = ev_id e) (leased (t + lease_or_default lease) owner) (db_events d),
           db_event_actions := update_where (\<lambda>a. ea_event_id a = ev_id e \<and> ea_status a = ARunning) unrun (db_event_actions d)\<rparr>)"
  with assms(2) have "pe_ID ev = ev_id e" and
    "db_event_actions d' = update_where (\<lambda>a. ea_event_id a = ev_id e \<and> ea_status a = ARunning) unrun (db_event_actions d)"
    by (auto simp: pending_of_row_def)
  then show ?thesis by (auto simp: rows_ok_def ball_update_where idle_def unrun_def)
qed (use assms(2) in simp)

text \<open>C23: nothing is delivered after the retry deadline. Once the clock has reached the start of
  the retry period plus \<open>max_retry_age\<close>, a pass over a claimed event calls no handler at all,
  whatever faults occur and whatever other goroutines do to other events.\<close>

theorem no_delivery_after_deadline:
  assumes "db_ok d" and "ClaimPending lease t owner d = (Inr (Some ev), qs_db s)"
    and "\<forall>k. pe_RetryStartedAt ev + q_maxRetryAge q \<le> en_now E k"
    and "quiet (leaves_attempts (pe_ID ev)) E" and "run_state (process E q ev src) s = (u, s')"
  shows "qs_calls s' = qs_calls s"
  using tripleD [OF overdue_process [OF _ assms(4), of q "qs_calls s" src] _ assms(5)] claim_idle [OF assms(1,2)] assms(3)
  by (simp add: on_db_def)

definition demo_late :: qenv where
  "demo_late = demo_qenv\<lparr>en_now := (\<lambda>t. 48 * Hour)\<rparr>"

theorem no_delivery_after_deadline_witness:
  "qs_calls (snd (run_state (process demo_late demo_queue (fst demo_claimed) demo_source) (demo_state (snd demo_claimed)))) = [] \<and>
   map ea_status (db_event_actions (qs_db (snd (run_state (process demo_late demo_queue (fst demo_claimed) demo_source)
     (demo_state (snd demo_claimed)))))) = [ADead, ADead]"
proof -
  have c: "ClaimPending Minute (20 * Second) ''w1'' demo_saved =
      (Inr (Some (fst demo_claimed)), qs_db (demo_state (snd demo_claimed)))" by code_simp
  have age: "pe_RetryStartedAt (fst demo_claimed) + q_maxRetryAge demo_queue \<le> 48 * Hour" by code_simp
  then have t: "\<forall>k. pe_RetryStartedAt (fst demo_claimed) + q_maxRetryAge demo_queue \<le> en_now demo_late k"
    by (simp add: demo_late_def)
  have e: "quiet adm demo_late" for adm by (simp add: quiet_def demo_late_def demo_qenv_def)
  have "map ea_status (db_event_actions (qs_db (snd (run_state (process demo_late demo_queue (fst demo_claimed) demo_source)
     (demo_state (snd demo_claimed)))))) = [ADead, ADead]" by code_simp
  with no_delivery_after_deadline [OF demo_saved_ok c t e prod.collapse [symmetric], of demo_source] show ?thesis
    by (simp add: demo_state_def)
qed

end
