(* ===== verification/Delivery.thy ===== *)
theory Delivery
  imports Attempts
begin

text \<open>
  The successful path: a pass in which every handler succeeds, no store call fails and nobody
  interferes completes the event and calls each unfinished action exactly once, in order.
\<close>

section \<open>Running programs in a calm environment\<close>

lemma run_now: "run_state (now E) s = (en_now E (qs_tick s), s\<lparr>qs_tick := qs_tick s + 1\<rparr>)"
  by (simp add: now_def ask_def)

lemma run_isCanceled: "run_state (isCanceled E) s = (en_cancel E (qs_tick s), s\<lparr>qs_tick := qs_tick s + 1\<rparr>)"
  by (simp add: isCanceled_def ask_def)

lemma run_store_calm:
  "calm E \<Longrightarrow> run_state (store E f) s =
     (fst (f (qs_db s)), s\<lparr>qs_db := snd (f (qs_db s)), qs_tick := qs_tick s + 1\<rparr>)"
  by (simp add: store_def calm_def Let_def split: prod.splits)

lemma run_handle:
  "run_state (handle E hc) s =
     (en_handle E (qs_tick s) hc, s\<lparr>qs_calls := qs_calls s @ [hc], qs_tick := qs_tick s + 1\<rparr>)"
  by (simp add: handle_def)

lemmas run_calm = run_now run_isCanceled run_store_calm run_handle

section \<open>One row\<close>

definition arow :: "string \<Rightarrow> nat \<Rightarrow> db \<Rightarrow> action_row option" where
  "arow eid k d = find (\<lambda>a. action_key a = (eid, k)) (db_event_actions d)"

lemma find_update_where:
  "(\<And>a. K (f a) = K a) \<Longrightarrow>
     find (\<lambda>a. K a = k) (update_where P f rows) = map_option (\<lambda>a. if P a then f a else a) (find (\<lambda>a. K a = k) rows)"
  by (induction rows) auto

lemma find_refine: "(\<And>x. P x \<Longrightarrow> Q x) \<Longrightarrow> find Q xs = Some a \<Longrightarrow> P a \<Longrightarrow> find P xs = Some a"
  by (induction xs) (auto split: if_splits)

lemma arow_mem: "arow eid k d = Some a \<Longrightarrow> a \<in> set (db_event_actions d) \<and> action_key a = (eid, k)"
  by (auto simp: arow_def find_Some_iff)

definition ready :: "gtime \<Rightarrow> action_row \<Rightarrow> bool" where
  "ready t a \<longleftrightarrow> ea_status a \<in> {APending, ARetrying} \<and> coalesce (ea_next_attempt_at_ms a) 0 \<le> UnixMilli t"

lemma ready_mono: "ready t a \<Longrightarrow> t \<le> t' \<Longrightarrow> ready t' a"
  by (auto simp: ready_def UnixMilli_def intro: order_trans zdiv_mono1)

text \<open>What a step for action \<open>i\<close> leaves of the rest of the database.\<close>

definition only_row :: "string \<Rightarrow> nat \<Rightarrow> db \<Rightarrow> db \<Rightarrow> bool" where
  "only_row eid i d d' \<longleftrightarrow> db_events d' = db_events d \<and>
     map action_key (db_event_actions d') = map action_key (db_event_actions d) \<and>
     (\<forall>k. k \<noteq> i \<longrightarrow> arow eid k d' = arow eid k d)"

lemma only_row_trans: "only_row eid i d d' \<Longrightarrow> only_row eid i d' d'' \<Longrightarrow> only_row eid i d d''"
  by (simp add: only_row_def)

lemma only_row_update:
  assumes "\<And>a. action_key (f a) = action_key a" "\<And>a. P a \<Longrightarrow> action_key a = (eid, i)"
  shows "only_row eid i d (d\<lparr>db_event_actions := update_where P f (db_event_actions d)\<rparr>)"
proof -
  have "map_option (\<lambda>a. if P a then f a else a) (arow eid k d) = arow eid k d" if "k \<noteq> i" for k
  proof (cases "arow eid k d")
    case (Some a)
    with arow_mem [OF Some] assms(2) [of a] that show ?thesis by auto
  qed simp
  then show ?thesis
    using find_update_where [of action_key f, OF assms(1)] assms(1)
    by (simp add: only_row_def arow_def map_update_where)
qed

lemma StartAction_ready:
  assumes "arow eid i d = Some a" "ready t a"
  shows "fst (StartAction eid i t d) = Inr (ea_attempt_count a + 1)"
    "only_row eid i d (snd (StartAction eid i t d))"
    "arow eid i (snd (StartAction eid i t d)) = Some (started a)"
proof -
  have P: "startable eid i t x \<Longrightarrow> action_key x = (eid, i)" for x by (simp add: startable_def action_key_def)
  have st: "startable eid i t a" using assms arow_mem [OF assms(1)] by (simp add: startable_def ready_def action_key_def)
  have f: "find (startable eid i t) (db_event_actions d) = Some a"
    using P assms(1) st unfolding arow_def by (rule find_refine)
  have key: "action_key (started x) = action_key x" for x by (simp add: started_def action_key_def)
  have c: "StartAction eid i t d = (Inr (ea_attempt_count a + 1),
      d\<lparr>db_event_actions := update_where (startable eid i t) started (db_event_actions d)\<rparr>)"
    by (simp add: StartAction_def f started_def [of a])
  then show "fst (StartAction eid i t d) = Inr (ea_attempt_count a + 1)" by simp
  show "only_row eid i d (snd (StartAction eid i t d))"
    unfolding c snd_conv by (rule only_row_update [OF key P])
  show "arow eid i (snd (StartAction eid i t d)) = Some (started a)"
    using find_update_where [of action_key started, OF key, of "(eid, i)"] assms(1) st by (simp add: c arow_def)
qed

lemma CompleteAction_running:
  assumes "arow eid i d = Some a" "ea_status a = ARunning"
  shows "fst (CompleteAction eid i t d) = Inr ()"
    "only_row eid i d (snd (CompleteAction eid i t d))"
    "\<exists>b. arow eid i (snd (CompleteAction eid i t d)) = Some b \<and> ea_status b = ADone"
proof -
  let ?hit = "\<lambda>x. ea_event_id x = eid \<and> ea_action_index x = i \<and> ea_status x = ARunning"
  let ?f = "\<lambda>x. x\<lparr>ea_status := ADone, ea_next_attempt_at_ms := None, ea_last_error := None,
            ea_retry_after_ms := None, ea_completed_at_ms := Some (UnixMilli t)\<rparr>"
  have key: "action_key (?f x) = action_key x" for x by (simp add: action_key_def)
  have hit: "?hit a" "a \<in> set (db_event_actions d)" using assms arow_mem [OF assms(1)] by (auto simp: action_key_def)
  then have ra: "rows_affected ?hit (db_event_actions d) \<noteq> 0" by (auto simp: rows_affected_0)
  have c: "CompleteAction eid i t d = (Inr (), d\<lparr>db_event_actions := update_where ?hit ?f (db_event_actions d)\<rparr>)"
    using ra by (simp add: CompleteAction_def updateRunningAction_def Let_def)
  then show "fst (CompleteAction eid i t d) = Inr ()" by simp
  have "only_row eid i d (d\<lparr>db_event_actions := update_where ?hit ?f (db_event_actions d)\<rparr>)"
    by (rule only_row_update [OF key]) (simp add: action_key_def)
  with c show "only_row eid i d (snd (CompleteAction eid i t d))" by simp
  show "\<exists>b. arow eid i (snd (CompleteAction eid i t d)) = Some b \<and> ea_status b = ADone"
    using find_update_where [of action_key ?f, OF key] assms(1) hit c by (auto simp: arow_def)
qed

lemma run_logAction_calm:
  assumes "calm E" "run_state (logAction E ev i act tgt att ok det dur) s = (u, s')"
  shows "db_events (qs_db s') = db_events (qs_db s)" "db_event_actions (qs_db s') = db_event_actions (qs_db s)"
    "qs_calls s' = qs_calls s" "qs_tick s \<le> qs_tick s'"
  using assms
  by (auto simp: logAction_def run_calm log_exists_def insert_log_def split: if_splits sum.splits)

section \<open>One action\<close>

definition all_succeed :: "qenv \<Rightarrow> bool" where
  "all_succeed E \<longleftrightarrow> calm E \<and> (\<forall>t. \<not> en_cancel E t) \<and> (\<forall>t hc. snd (en_handle E t hc) = None) \<and> mono (en_now E)"

lemma only_row_cong:
  "db_events d' = db_events d \<Longrightarrow> db_event_actions d' = db_event_actions d \<Longrightarrow> only_row eid i d d'"
  "db_events d' = db_events d \<Longrightarrow> db_event_actions d' = db_event_actions d \<Longrightarrow> arow eid k d' = arow eid k d"
  by (simp_all add: only_row_def arow_def)

lemma dispatch_success:
  assumes "all_succeed E" "ac_Type ac \<in> set (q_reg q)" "arow (pe_ID ev) i (qs_db s) = Some a" "ea_status a = ARunning"
    and run: "run_state (dispatch E q ev vars i ac att) s = (go, s')"
  shows "go \<and> only_row (pe_ID ev) i (qs_db s) (qs_db s') \<and>
    (\<exists>b. arow (pe_ID ev) i (qs_db s') = Some b \<and> ea_status b = ADone) \<and>
    qs_calls s' = qs_calls s @ [attempt_call ev i att ac vars] \<and> qs_tick s \<le> qs_tick s'"
proof -
  have E: "calm E" "\<And>t hc. snd (en_handle E t hc) = None" using assms(1) by (simp_all add: all_succeed_def)
  let ?t = "qs_tick s"
  let ?s1 = "s\<lparr>qs_calls := qs_calls s @ [attempt_call ev i att ac vars], qs_tick := ?t + 3\<rparr>"
  let ?out = "en_handle E (Suc ?t) (attempt_call ev i att ac vars)"
  obtain u s2 where log: "run_state (logAction E ev i (ac_Type ac) (fst (fst ?out)) att True (snd (fst ?out))
      (time_Sub (en_now E (Suc (Suc ?t))) (en_now E ?t))) ?s1 = (u, s2)"
    by (rule prod.exhaust)
  note s2 = run_logAction_calm [OF E(1) log]
  have row: "arow (pe_ID ev) i (qs_db s2) = Some a" using only_row_cong(2) [of "qs_db s2" "qs_db s"] s2(1,2) assms(3) by simp
  note c = CompleteAction_running [OF row assms(4), of "en_now E (qs_tick s2)"]
  have s': "go" "s' = s2\<lparr>qs_db := snd (CompleteAction (pe_ID ev) i (en_now E (qs_tick s2)) (qs_db s2)), qs_tick := qs_tick s2 + 2\<rparr>"
    using run assms(2) E(2) log c(1)
    by (auto simp: dispatch_def run_calm E(1) proceed_def eval_nat_numeral split: prod.splits)
  have "only_row (pe_ID ev) i (qs_db s) (qs_db s2)" using s2(1,2) by (intro only_row_cong) simp_all
  with c(2,3) s2(3,4) s' show ?thesis by (auto intro: only_row_trans)
qed

lemma process_action_done:
  assumes "all_succeed E" "find (\<lambda>st. as_Index st = i) sts = Some st" "as_Status st = ADone"
  shows "run_state (process_action E q ev vars sts i ac) s = (True, s\<lparr>qs_tick := qs_tick s + 1\<rparr>)"
  using assms by (simp add: process_action_def run_calm all_succeed_def)

lemma process_action_success:
  assumes "all_succeed E" "ac_Type ac \<in> set (q_reg q)" "en_now E (Suc (qs_tick s)) < pe_RetryStartedAt ev + q_maxRetryAge q"
    and "arow (pe_ID ev) i (qs_db s) = Some a" "ready (en_now E (qs_tick s)) a"
    and "find (\<lambda>st. as_Index st = i) sts = Some (state_of_row a)"
    and run: "run_state (process_action E q ev vars sts i ac) s = (go, s')"
  shows "go \<and> only_row (pe_ID ev) i (qs_db s) (qs_db s') \<and>
    (\<exists>b. arow (pe_ID ev) i (qs_db s') = Some b \<and> ea_status b = ADone) \<and>
    qs_calls s' = qs_calls s @ [attempt_call ev i (ea_attempt_count a + 1) ac vars] \<and> qs_tick s \<le> qs_tick s'"
proof -
  have E: "calm E" "\<And>t. \<not> en_cancel E t" "mono (en_now E)" using assms(1) by (simp_all add: all_succeed_def)
  let ?now = "en_now E (Suc (qs_tick s))"
  have rd: "ready ?now a" using assms(5) ready_mono E(3) by (meson le_SucI monoD order_refl)
  then have st: "as_Status (state_of_row a) \<in> {APending, ARetrying}" "as_NextAttemptMS (state_of_row a) \<le> UnixMilli ?now"
    by (auto simp: state_of_row_def ready_def)
  note start = StartAction_ready [OF assms(4) rd]
  let ?s1 = "s\<lparr>qs_db := snd (StartAction (pe_ID ev) i ?now (qs_db s)), qs_tick := qs_tick s + 3\<rparr>"
  have d: "run_state (dispatch E q ev vars i ac (ea_attempt_count a + 1)) ?s1 = (go, s')"
    using run st assms(3,6) E(2) start(1)
    by (auto simp: process_action_def run_calm E(1) eval_nat_numeral split: if_splits)
  have row: "arow (pe_ID ev) i (qs_db ?s1) = Some (started a)" "ea_status (started a) = ARunning"
    using start(3) by (simp_all add: started_def)
  show ?thesis using dispatch_success [OF assms(1,2) row d] start(2) by (auto intro: only_row_trans)
qed

section \<open>The action loop\<close>

definition todo :: "pending_event \<Rightarrow> gomap \<Rightarrow> db \<Rightarrow> nat \<times> ActionConfig \<Rightarrow> handler_call list" where
  "todo ev vars d p = (case arow (pe_ID ev) (fst p) d of
     None \<Rightarrow> [attempt_call ev (fst p) 1 (snd p) vars]
   | Some a \<Rightarrow> if ea_status a = ADone then [] else [attempt_call ev (fst p) (ea_attempt_count a + 1) (snd p) vars])"

definition actionable :: "qenv \<Rightarrow> qstate \<Rightarrow> action_row \<Rightarrow> bool" where
  "actionable E s a \<longleftrightarrow> ea_status a = ADone \<or> ready (en_now E (qs_tick s)) a"

lemma actionable_mono: "mono (en_now E) \<Longrightarrow> actionable E s a \<Longrightarrow> qs_tick s \<le> qs_tick s' \<Longrightarrow> actionable E s' a"
  unfolding actionable_def by (meson monoD ready_mono)

lemma todo_only_row: "only_row (pe_ID ev) i d d' \<Longrightarrow> fst p \<noteq> i \<Longrightarrow> todo ev vars d' p = todo ev vars d p"
  by (simp add: todo_def only_row_def)

lemma process_action_step:
  assumes "all_succeed E" "ac_Type ac \<in> set (q_reg q)" "\<And>t. en_now E t < pe_RetryStartedAt ev + q_maxRetryAge q"
    and "arow (pe_ID ev) i (qs_db s) = Some a" "actionable E s a"
    and "find (\<lambda>st. as_Index st = i) sts = Some (state_of_row a)"
    and "run_state (process_action E q ev vars sts i ac) s = (go, s')"
  shows "go \<and> only_row (pe_ID ev) i (qs_db s) (qs_db s') \<and>
    (\<exists>b. arow (pe_ID ev) i (qs_db s') = Some b \<and> ea_status b = ADone) \<and>
    qs_calls s' = qs_calls s @ todo ev vars (qs_db s) (i, ac) \<and> qs_tick s \<le> qs_tick s'"
proof (cases "ea_status a = ADone")
  case True
  then have "as_Status (state_of_row a) = ADone" by (simp add: state_of_row_def)
  from process_action_done [OF assms(1,6) this, of q ev vars ac s] assms(4,7) True show ?thesis
    by (auto simp: todo_def only_row_def)
next
  case False
  with assms(5) have "ready (en_now E (qs_tick s)) a" by (simp add: actionable_def)
  from process_action_success [OF assms(1-4) this assms(6,7)] assms(4) False show ?thesis by (simp add: todo_def)
qed

lemma process_actions_success:
  assumes "all_succeed E" "\<forall>ac \<in> set acs. ac_Type ac \<in> set (q_reg q)"
    and "\<And>t. en_now E t < pe_RetryStartedAt ev + q_maxRetryAge q"
    and "\<And>k. i \<le> k \<Longrightarrow> k < i + length acs \<Longrightarrow> \<exists>a. arow (pe_ID ev) k (qs_db s) = Some a \<and> actionable E s a \<and>
           find (\<lambda>st. as_Index st = k) sts = Some (state_of_row a)"
    and "run_state (process_actions E q ev vars sts i acs) s = (go, s')"
  shows "go \<and> db_events (qs_db s') = db_events (qs_db s) \<and>
    map action_key (db_event_actions (qs_db s')) = map action_key (db_event_actions (qs_db s)) \<and>
    (\<forall>k. k < i \<longrightarrow> arow (pe_ID ev) k (qs_db s') = arow (pe_ID ev) k (qs_db s)) \<and>
    (\<forall>k. i \<le> k \<longrightarrow> k < i + length acs \<longrightarrow> (\<exists>b. arow (pe_ID ev) k (qs_db s') = Some b \<and> ea_status b = ADone)) \<and>
    qs_calls s' = qs_calls s @ concat (map (todo ev vars (qs_db s)) (enumerate i acs)) \<and> qs_tick s \<le> qs_tick s'"
  using assms(2,4,5)
proof (induction acs arbitrary: i s)
  case Nil
  then show ?case by simp
next
  case (Cons ac acs)
  obtain g s1 where s1: "run_state (process_action E q ev vars sts i ac) s = (g, s1)" by (rule prod.exhaust)
  obtain a where a: "arow (pe_ID ev) i (qs_db s) = Some a" "actionable E s a"
      "find (\<lambda>st. as_Index st = i) sts = Some (state_of_row a)"
    using Cons.prems(2) [of i] by auto
  have ty: "ac_Type ac \<in> set (q_reg q)" using Cons.prems(1) by simp
  note step = process_action_step [OF assms(1) ty assms(3) a s1]
  have rest: "run_state (process_actions E q ev vars sts (Suc i) acs) s1 = (go, s')"
    using Cons.prems(3) s1 step by simp
  have mono: "mono (en_now E)" using assms(1) by (simp add: all_succeed_def)
  have inv: "\<exists>a. arow (pe_ID ev) k (qs_db s1) = Some a \<and> actionable E s1 a \<and>
        find (\<lambda>st. as_Index st = k) sts = Some (state_of_row a)" if "Suc i \<le> k" "k < Suc i + length acs" for k
  proof -
    have "arow (pe_ID ev) k (qs_db s1) = arow (pe_ID ev) k (qs_db s)" using step that(1) by (simp add: only_row_def)
    with Cons.prems(2) [of k] that step actionable_mono [OF mono, of s _ s1] show ?thesis by auto
  qed
  have same: "map (todo ev vars (qs_db s1)) (enumerate (Suc i) acs) = map (todo ev vars (qs_db s)) (enumerate (Suc i) acs)"
  proof (rule map_cong [OF refl])
    fix p assume "p \<in> set (enumerate (Suc i) acs)"
    then have "fst p \<noteq> i" by (auto simp: in_set_enumerate_eq)
    with step show "todo ev vars (qs_db s1) p = todo ev vars (qs_db s) p" by (blast intro: todo_only_row)
  qed
  note IH = Cons.IH [OF _ inv rest]
  have ih: "go" "db_events (qs_db s') = db_events (qs_db s1)"
    "map action_key (db_event_actions (qs_db s')) = map action_key (db_event_actions (qs_db s1))"
    "\<And>k. k < Suc i \<Longrightarrow> arow (pe_ID ev) k (qs_db s') = arow (pe_ID ev) k (qs_db s1)"
    "\<And>k. Suc i \<le> k \<Longrightarrow> k < Suc i + length acs \<Longrightarrow> \<exists>b. arow (pe_ID ev) k (qs_db s') = Some b \<and> ea_status b = ADone"
    "qs_calls s' = qs_calls s1 @ concat (map (todo ev vars (qs_db s)) (enumerate (Suc i) acs))" "qs_tick s1 \<le> qs_tick s'"
    using IH Cons.prems(1) by (auto simp: same)
  have done_i: "\<exists>b. arow (pe_ID ev) k (qs_db s') = Some b \<and> ea_status b = ADone"
    if "i \<le> k" "k < i + length (ac # acs)" for k
  proof (cases "k = i")
    case True
    with ih(4) [of i] step show ?thesis by simp
  qed (use ih(5) [of k] that in simp)
  show ?case using ih(1-3,6,7) ih(4) step done_i by (auto simp: only_row_def)
qed

section \<open>The whole pass\<close>

lemma arow_insert_actions:
  assumes "db_event_actions d' = insert_actions eid t n (db_event_actions d)"
  shows "arow eid k d' = (case arow eid k d of Some a \<Rightarrow> Some a | None \<Rightarrow> if k < n then Some (new_action eid k t) else None)"
proof -
  have ins: "find (\<lambda>a. action_key a = (eid, k)) (insert_action eid t j rows) =
      (case find (\<lambda>a. action_key a = (eid, k)) rows of Some a \<Rightarrow> Some a
       | None \<Rightarrow> if k = j then Some (new_action eid k t) else None)" for j rows
  proof -
    have app: "find P (xs @ ys) = (case find P xs of Some x \<Rightarrow> Some x | None \<Rightarrow> find P ys)" for P xs and ys :: "action_row list"
      by (induction xs) auto
    have key: "action_key (new_action eid j t) = (eid, j)" by (simp add: new_action_def action_key_def)
    show ?thesis
    proof (cases "find (\<lambda>a. action_key a = (eid, k)) rows")
      case None
      then have "exists_where (\<lambda>a. action_key a = (eid, j)) rows \<Longrightarrow> k \<noteq> j" by (auto simp: find_None_iff exists_where_iff)
      with None show ?thesis by (auto simp: insert_action_def app key)
    qed (simp add: insert_action_def app)
  qed
  have "find (\<lambda>a. action_key a = (eid, k)) (fold (insert_action eid t) [0..<n] rows) =
      (case find (\<lambda>a. action_key a = (eid, k)) rows of Some a \<Rightarrow> Some a
       | None \<Rightarrow> if k < n then Some (new_action eid k t) else None)" for rows
    by (induction n) (auto simp: ins split: option.splits)
  then show ?thesis by (simp add: arow_def assms insert_actions_def)
qed

lemma find_ListActionStates:
  assumes "db_ok d" "arow eid k d = Some a"
  shows "find (\<lambda>st. as_Index st = k) (ListActionStates eid d) = Some (state_of_row a)"
proof -
  have mem: "state_of_row a \<in> set (ListActionStates eid d)" "as_Index (state_of_row a) = k"
    using arow_mem [OF assms(2)] by (auto simp: ListActionStates_def actions_of_def state_of_row_def action_key_def)
  have uniq: "st = state_of_row a" if st: "st \<in> set (ListActionStates eid d)" "as_Index st = k" for st
  proof -
    obtain b where b: "b \<in> set (db_event_actions d)" "ea_event_id b = eid" "st = state_of_row b"
      using st(1) by (auto simp: ListActionStates_def actions_of_def)
    have "b = a"
      using assms(1) b st(2) arow_mem [OF assms(2)] distinct_map_unique [of action_key "db_event_actions d" b a]
      by (auto simp: db_ok_def actions_ok_def state_of_row_def action_key_def)
    with b show ?thesis by simp
  qed
  show ?thesis
  proof (cases "find (\<lambda>st. as_Index st = k) (ListActionStates eid d)")
    case None
    with mem show ?thesis by (auto simp: find_None_iff)
  next
    case (Some st)
    then show ?thesis using uniq [of st] by (auto simp: find_Some_iff)
  qed
qed

definition same_data :: "qstate \<Rightarrow> qstate \<Rightarrow> bool" where
  "same_data s0 s \<longleftrightarrow> qs_db s = qs_db s0 \<and> qs_calls s = qs_calls s0 \<and> qs_tick s0 \<le> qs_tick s"

lemma executionVars_same:
  assumes "calm E"
  shows "triple (same_data s0) (executionVars E q ev src) (\<lambda>v s. v \<noteq> None \<longrightarrow> same_data s0 s)"
proof -
  have none: "triple P (do { _ \<leftarrow> p; State_Monad.return None }) (\<lambda>v s. v \<noteq> None \<longrightarrow> same_data s0 s)"
    for P and p :: "'a prog" by (simp add: triple_def split: prod.splits)
  have mt: "triple (same_data s0) (match_rules E rs vars) (\<lambda>_. same_data s0)" for rs vars
    by (simp add: triple_def match_rules_def same_data_def Let_def split: prod.splits)
  have gp: "triple (same_data s0) (store E (get_payload eid)) (\<lambda>_. same_data s0)" for eid
    using assms by (simp add: triple_def run_store_calm get_payload_def same_data_def)
  have fv: "triple (same_data s0) (filtered_vars E q ev src pl) (\<lambda>v s. v \<noteq> None \<longrightarrow> same_data s0 s)" for pl
    unfolding filtered_vars_def Let_def fail_event_def
    by (intro keeps_if none triple_bind [OF mt] keeps_case_sum keeps_case_bool triple_return) auto
  show ?thesis
    unfolding executionVars_def fail_event_def
    by (intro keeps_if keeps_case_option none triple_return keeps_case_sum keeps_case_prod fv
        triple_bind [where m = "if _ then _ else _" and Q = "\<lambda>_. same_data s0"] gp) auto
qed

text \<open>What the plan of an event finds after \<open>PrepareEvent\<close>.\<close>

lemma prepared:
  assumes "db_ok d" "e \<in> set (db_events d)" "ev_id e = eid" "ev_status e = Processing"
    and "\<forall>a \<in> set (actions_of eid d). ea_action_index a < n"
    and p: "PrepareEvent eid js n cl t d = (r, d')"
  shows "r = Inr ()" "db_ok d'" "eid \<in> ev_id ` set (db_events d')"
    "\<And>k. k < n \<Longrightarrow> arow eid k d' = Some (case arow eid k d of Some a \<Rightarrow> a | None \<Rightarrow> new_action eid k t)"
    "\<And>a. a \<in> set (actions_of eid d') \<Longrightarrow> ea_action_index a < n"
proof -
  have hit: "rows_affected (\<lambda>e. ev_id e = eid \<and> ev_status e = Processing) (db_events d) \<noteq> 0"
    using assms(2-4) by (auto simp: rows_affected_0)
  have r: "r = Inr ()" "db_event_actions d' = insert_actions eid t n (db_event_actions d)"
    using p hit by (auto simp: PrepareEvent_def Let_def)
  then show "r = Inr ()" by simp
  show "db_ok d'" using db_ok_PrepareEvent [OF assms(1), of eid js n cl t] p by simp
  have "stored eid d" using assms(2,3) by (auto simp: stored_def)
  from stored_exec_call [OF this, of "CPrepare eid js n cl t"] p show "eid \<in> ev_id ` set (db_events d')"
    by (simp add: stored_def)
  show "arow eid k d' = Some (case arow eid k d of Some a \<Rightarrow> a | None \<Rightarrow> new_action eid k t)" if "k < n" for k
    using arow_insert_actions [OF r(2), of k] that by (simp split: option.splits)
  show "ea_action_index a < n" if "a \<in> set (actions_of eid d')" for a
  proof -
    have "a \<in> set (insert_actions eid t n (db_event_actions d))" "ea_event_id a = eid"
      using that by (simp_all add: actions_of_def r(2))
    then have "a \<in> set (actions_of eid d) \<or> (\<exists>k < n. a = new_action eid k t)"
      using set_insert_actions [of eid t n "db_event_actions d"] by (auto simp: actions_of_def)
    then show ?thesis using assms(5) by (auto simp: new_action_def)
  qed
qed

lemma aggregate_all_done:
  assumes "rows \<noteq> []" "\<forall>a \<in> set rows. ea_status a = ADone"
  shows "aggregate rows t = Some (Done, Some t, None)"
  using assms by (simp add: aggregate_def Let_def count_status_def filter_True)

lemma run_refresh_done:
  assumes "calm E" "actions_of eid (qs_db s) \<noteq> []" "\<forall>a \<in> set (actions_of eid (qs_db s)). ea_status a = ADone"
    and "eid \<in> ev_id ` set (db_events (qs_db s))" "run_state (refresh E eid) s = (r, s')"
  shows "r = Inr Done" "qs_calls s' = qs_calls s"
    "db_event_actions (qs_db s') = db_event_actions (qs_db s)"
    "\<forall>e \<in> set (db_events (qs_db s')). ev_id e = eid \<longrightarrow> ev_status e = Done"
proof -
  have ra: "rows_affected (\<lambda>e. ev_id e = eid) (db_events (qs_db s)) \<noteq> 0"
    using assms(4) by (auto simp: rows_affected_0)
  note agg = aggregate_all_done [OF assms(2,3)]
  have run: "r = Inr Done \<and> s' = s\<lparr>qs_db := (qs_db s)\<lparr>db_events := update_where (\<lambda>e. ev_id e = eid)
      (refreshed (en_now E (qs_tick s)) (Done, Some (UnixMilli (en_now E (qs_tick s))), None)) (db_events (qs_db s))\<rparr>,
      qs_tick := qs_tick s + 3\<rparr>"
    using assms(5) ra
    by (auto simp: refresh_def run_calm assms(1) select_aggregate_def agg refresh_write_def eval_nat_numeral)
  then show "r = Inr Done" "qs_calls s' = qs_calls s" "db_event_actions (qs_db s') = db_event_actions (qs_db s)" by auto
  from run show "\<forall>e \<in> set (db_events (qs_db s')). ev_id e = eid \<longrightarrow> ev_status e = Done"
    by (auto simp: ball_update_where refreshed_def)
qed

lemma prepared_actionable:
  assumes "mono (en_now E)" "same_data s s1" "\<forall>a \<in> set (actions_of eid (qs_db s)). ea_action_index a < n \<and> actionable E s a"
    and "qs_tick s1 \<le> qs_tick s2"
  shows "actionable E s2 (case arow eid k (qs_db s) of Some a \<Rightarrow> a | None \<Rightarrow> new_action eid k (en_now E (qs_tick s1)))"
proof (cases "arow eid k (qs_db s)")
  case None
  have "ready (en_now E (qs_tick s1)) (new_action eid k (en_now E (qs_tick s1)))" by (simp add: ready_def new_action_def)
  then have "ready (en_now E (qs_tick s2)) (new_action eid k (en_now E (qs_tick s1)))"
    by (rule ready_mono) (simp add: monoD [OF assms(1)] assms(4))
  with None show ?thesis by (simp add: actionable_def)
next
  case (Some a)
  then have "a \<in> set (actions_of eid (qs_db s))" using arow_mem [OF Some] by (simp add: actions_of_def action_key_def)
  with assms(2,3,4) Some show ?thesis
    by (auto simp: same_data_def intro: actionable_mono [OF assms(1), of s])
qed

lemma rows_all_done:
  assumes "db_ok d" "map action_key (db_event_actions d') = map action_key (db_event_actions d)"
    and "\<And>a. a \<in> set (actions_of eid d) \<Longrightarrow> ea_action_index a < n"
    and "\<And>k. k < n \<Longrightarrow> \<exists>b. arow eid k d' = Some b \<and> ea_status b = ADone"
  shows "\<forall>a \<in> set (actions_of eid d'). ea_status a = ADone"
proof
  fix a assume "a \<in> set (actions_of eid d')"
  then have a: "a \<in> set (db_event_actions d')" "action_key a = (eid, ea_action_index a)"
    by (auto simp: actions_of_def action_key_def)
  then have "action_key a \<in> set (map action_key (db_event_actions d))" using assms(2) by (metis imageI list.set_map)
  then obtain b where b: "b \<in> set (db_event_actions d)" "action_key b = action_key a" by auto
  then have "b \<in> set (actions_of eid d)" "ea_action_index b = ea_action_index a"
    using a(2) by (auto simp: actions_of_def action_key_def)
  with assms(3) [of b] assms(4) [of "ea_action_index a"] obtain c where
    c: "arow eid (ea_action_index a) d' = Some c" "ea_status c = ADone" by auto
  have keys: "distinct (map action_key (db_event_actions d'))" using assms(1,2) by (simp add: db_ok_def actions_ok_def)
  have "arow eid (ea_action_index a) d' = Some a"
    using find_distinct [OF keys a(1)] a(2) by (simp add: arow_def)
  with c show "ea_status a = ADone" by simp
qed

text \<open>C6: a pass in which every handler succeeds completes the event. Without faults, interference or
  cancellation and before the retry deadline, a claimed event whose unfinished actions are due
  ends in status \<open>done\<close> with all its actions done, and the handlers were called exactly once for
  every action that was not done, in the order of the configuration, each with the next
  attempt number.\<close>

theorem successful_pass_completes_event:
  assumes "all_succeed E" and "\<forall>t. en_now E t < pe_RetryStartedAt ev + q_maxRetryAge q"
    and "\<forall>ac \<in> set (src_Actions src). ac_Type ac \<in> set (q_reg q)" and "src_Actions src \<noteq> []"
    and "db_ok (qs_db s)" and "e \<in> set (db_events (qs_db s))" and "ev_id e = pe_ID ev" and "ev_status e = Processing"
    and "\<forall>a \<in> set (actions_of (pe_ID ev) (qs_db s)). ea_action_index a < length (src_Actions src) \<and> actionable E s a"
    and "run_state (executionVars E q ev src) s = (Some vars, s1)"
    and "run_state (process E q ev src) s = (u, s')"
  shows "(\<forall>r \<in> set (db_events (qs_db s')). ev_id r = pe_ID ev \<longrightarrow> ev_status r = Done) \<and>
    (\<forall>a \<in> set (actions_of (pe_ID ev) (qs_db s')). ea_status a = ADone) \<and>
    qs_calls s' = qs_calls s @ concat (map (todo ev vars (qs_db s)) (enumerate 0 (src_Actions src)))"
proof -
  let ?eid = "pe_ID ev" and ?n = "length (src_Actions src)"
  obtain js where js: "marshalVars vars = Some js" by (simp add: marshalVars_def)
  have E: "calm E" "mono (en_now E)" using assms(1) by (simp_all add: all_succeed_def)
  have s1: "same_data s s1"
    using tripleD [OF executionVars_same [OF E(1), of s], OF _ assms(10)] by (auto simp: same_data_def)
  let ?t = "en_now E (qs_tick s1)"
  obtain r d where p: "PrepareEvent ?eid js ?n (clears_payload q) ?t (qs_db s) = (r, d)" by (rule prod.exhaust)
  have idx: "\<forall>a \<in> set (actions_of ?eid (qs_db s)). ea_action_index a < ?n" using assms(9) by blast
  note prep = prepared [OF assms(5-8) idx p]
  let ?s2 = "s1\<lparr>qs_db := d, qs_tick := qs_tick s1 + 3\<rparr>"
  let ?sts = "ListActionStates ?eid d"
  obtain go s3 where run3: "run_state (process_actions E q ev vars ?sts 0 (src_Actions src)) ?s2 = (go, s3)" by (rule prod.exhaust)
  have rows: "\<exists>a. arow ?eid k (qs_db ?s2) = Some a \<and> actionable E ?s2 a \<and>
      find (\<lambda>st. as_Index st = k) ?sts = Some (state_of_row a)" if "0 \<le> k" "k < 0 + ?n" for k
    using prepared_actionable [OF E(2) s1 assms(9), of ?s2 k] prep(4) [of k] find_ListActionStates [OF prep(2), of ?eid k] that
    by simp
  note loop = process_actions_success [OF assms(1,3) _ rows run3]
  have l: "go" "db_events (qs_db s3) = db_events d"
    "map action_key (db_event_actions (qs_db s3)) = map action_key (db_event_actions d)"
    "\<And>k. k < ?n \<Longrightarrow> \<exists>b. arow ?eid k (qs_db s3) = Some b \<and> ea_status b = ADone"
    "qs_calls s3 = qs_calls s1 @ concat (map (todo ev vars d) (enumerate 0 (src_Actions src)))"
    using loop assms(2) by auto
  have done3: "\<forall>a \<in> set (actions_of ?eid (qs_db s3)). ea_status a = ADone"
    by (rule rows_all_done [OF prep(2) l(3) prep(5) l(4)])
  have ne: "actions_of ?eid (qs_db s3) \<noteq> []"
  proof -
    obtain b where "arow ?eid 0 (qs_db s3) = Some b" using l(4) [of 0] assms(4) by auto
    from arow_mem [OF this] have "b \<in> set (actions_of ?eid (qs_db s3))" by (simp add: actions_of_def action_key_def)
    then show ?thesis by auto
  qed
  obtain r4 s4 where run4: "run_state (refresh E ?eid) s3 = (r4, s4)" by (rule prod.exhaust)
  have "?eid \<in> ev_id ` set (db_events (qs_db s3))" using prep(3) l(2) by simp
  note fin = run_refresh_done [OF E(1) ne _ this run4]
  have st: "s' = s4"
    using assms(11) assms(10) js s1 p prep(1) run3 l(1) run4 fin(1) done3
    by (auto simp: process_def run_plan_def run_calm E(1) list_states_def same_data_def eval_nat_numeral)
  have td: "map (todo ev vars d) (enumerate 0 (src_Actions src)) = map (todo ev vars (qs_db s)) (enumerate 0 (src_Actions src))"
  proof (rule map_cong [OF refl])
    fix x assume "x \<in> set (enumerate 0 (src_Actions src))"
    then have "fst x < ?n" by (auto simp: in_set_enumerate_eq)
    from prep(4) [OF this] show "todo ev vars d x = todo ev vars (qs_db s) x"
      by (auto simp: todo_def new_action_def split: option.splits)
  qed
  show ?thesis using fin done3 l(5) s1 td by (auto simp: st same_data_def actions_of_def)
qed

definition demo_noon :: qenv where
  "demo_noon = demo_qenv\<lparr>en_now := (\<lambda>_. 20 * Second)\<rparr>"

theorem successful_pass_completes_event_witness:
  "map ev_status (db_events (qs_db (snd (run_state (process demo_noon demo_queue (fst demo_claimed) demo_source)
     (demo_state (snd demo_claimed)))))) = [Done] \<and>
   map (\<lambda>c. (hc_index c, hc_attempt c)) (qs_calls (snd (run_state (process demo_noon demo_queue (fst demo_claimed) demo_source)
     (demo_state (snd demo_claimed))))) = [(0, 1), (1, 1)]"
proof -
  let ?s = "demo_state (snd demo_claimed)" and ?ev = "fst demo_claimed"
  let ?r = "run_state (executionVars demo_noon demo_queue ?ev demo_source) ?s"
  let ?vars = "[(''msg'', ''please deploy''), (''event_id'', ''e1''), (''delivery_id'', ''d1'')]"
  let ?e = "hd (db_events (snd demo_claimed))"
  let ?s' = "snd (run_state (process demo_noon demo_queue ?ev demo_source) ?s)"
  have E: "all_succeed demo_noon" by (simp add: all_succeed_def calm_def demo_noon_def demo_qenv_def mono_def)
  have dl: "pe_RetryStartedAt ?ev + q_maxRetryAge demo_queue = 10 * Second + 24 * Hour" by code_simp
  then have now: "\<forall>t. en_now demo_noon t < pe_RetryStartedAt ?ev + q_maxRetryAge demo_queue" by (simp add: demo_noon_def)
  have reg: "\<forall>ac \<in> set (src_Actions demo_source). ac_Type ac \<in> set (q_reg demo_queue)" "src_Actions demo_source \<noteq> []" by code_simp+
  have ok: "db_ok (qs_db ?s)"
  proof -
    have "snd demo_claimed = snd (ClaimPending Minute (20 * Second) ''w1'' demo_saved)" by code_simp
    then show ?thesis using db_ok_ClaimPending [OF demo_saved_ok] by (simp add: demo_state_def)
  qed
  have ev: "?e \<in> set (db_events (qs_db ?s))" "ev_id ?e = pe_ID ?ev" "ev_status ?e = Processing" by code_simp+
  have acts: "\<forall>a \<in> set (actions_of (pe_ID ?ev) (qs_db ?s)). ea_action_index a < length (src_Actions demo_source) \<and> actionable demo_noon ?s a"
    by code_simp
  have v: "fst ?r = Some ?vars" by code_simp
  then have run: "?r = (Some ?vars, snd ?r)" by (metis prod.collapse)
  have "\<forall>r \<in> set (db_events (qs_db ?s')). ev_id r = pe_ID ?ev \<longrightarrow> ev_status r = Done"
    "qs_calls ?s' = qs_calls ?s @ concat (map (todo ?ev ?vars (qs_db ?s)) (enumerate 0 (src_Actions demo_source)))"
    using successful_pass_completes_event [OF E now reg ok ev acts run prod.collapse [symmetric]] by blast+
  moreover have "map ev_id (db_events (qs_db ?s')) = [pe_ID ?ev]" by code_simp
  moreover have "map (\<lambda>c. (hc_index c, hc_attempt c))
      (qs_calls ?s @ concat (map (todo ?ev ?vars (qs_db ?s)) (enumerate 0 (src_Actions demo_source)))) = [(0, 1), (1, 1)]" by code_simp
  ultimately show ?thesis by (auto simp: map_eq_Cons_conv)
qed

end
