(* ===== verification/Protect.thy ===== *)
theory Protect
  imports Handler_Errors Float64 Go_Net "HOL-Library.AList"
begin

text \<open>
  The protection layer of the HTTP server: the in-flight budget (\<^verbatim>\<open>server/budget.go\<close>), the
  token-bucket rate limiter and the resolution of the client address (\<^verbatim>\<open>server/protect.go\<close>).
  Every method of the budget and of the limiter holds its mutex, so concurrent requests are a
  sequence of calls. Tokens and rates are \<open>float64\<close>: each operation rounds by \<open>f64\<close>. The order
  in which Go iterates over the bucket map is an argument, \<open>ord\<close>, of the limiter.
\<close>

section \<open>In-flight budget\<close>

record inFlightBudget =
  bg_maxConns :: int
  bg_maxBytes :: int
  bg_conns :: int
  bg_bytes :: int

definition newInFlightBudget :: "int \<Rightarrow> int \<Rightarrow> inFlightBudget" where
  "newInFlightBudget maxConns maxBytes =
     \<lparr>bg_maxConns = (if maxConns \<le> 0 then 16 else maxConns),
      bg_maxBytes = (if maxBytes \<le> 0 then 33554432 else maxBytes), bg_conns = 0, bg_bytes = 0\<rparr>"

definition acquire :: "int \<Rightarrow> inFlightBudget \<Rightarrow> bool \<times> inFlightBudget" where
  "acquire n0 b =
     (let n = (if n0 < 0 then 0 else n0) in
      if bg_conns b \<ge> bg_maxConns b then (False, b)
      else if wrap64 (bg_bytes b + n) > bg_maxBytes b then (False, b)
      else (True, b\<lparr>bg_conns := wrap64 (bg_conns b + 1), bg_bytes := wrap64 (bg_bytes b + n)\<rparr>))"

definition release :: "int \<Rightarrow> inFlightBudget \<Rightarrow> inFlightBudget" where
  "release n0 b =
     (let n = (if n0 < 0 then 0 else n0);
          c = wrap64 (bg_conns b - 1);
          y = wrap64 (bg_bytes b - n)
      in b\<lparr>bg_conns := (if c < 0 then 0 else c), bg_bytes := (if y < 0 then 0 else y)\<rparr>)"

text \<open>The requests that hold a reservation, and the steps the server takes: a request that is
  granted its reservation joins them, one that is refused does not, and each of them releases what
  it reserved (a deferred call) when its handler returns, in any order.\<close>

type_synonym budget_state = "inFlightBudget \<times> int list"

inductive budget_step :: "budget_state \<Rightarrow> budget_state \<Rightarrow> bool" where
  grant: "acquire n b = (True, b') \<Longrightarrow> 0 \<le> n \<Longrightarrow> n \<le> max_int64 - bg_maxBytes b
     \<Longrightarrow> budget_step (b, held) (b', n # held)"
| refuse: "acquire n b = (False, b') \<Longrightarrow> budget_step (b, held) (b', held)"
| finish: "n \<in> set held \<Longrightarrow> budget_step (b, held) (release n b, remove1 n held)"

inductive_cases budget_stepE: "budget_step (b, held) s"

definition budget_ok :: "budget_state \<Rightarrow> bool" where
  "budget_ok s = (case s of (b, held) \<Rightarrow>
     bg_conns b = int (length held) \<and> bg_bytes b = sum_list held \<and>
     bg_conns b \<le> bg_maxConns b \<and> bg_bytes b \<le> bg_maxBytes b \<and>
     list_all (\<lambda>n. 0 \<le> n) held \<and> bg_maxConns b \<le> max_int64 \<and> bg_maxBytes b \<le> max_int64)"

lemma sum_list_nonneg_int: "list_all (\<lambda>n. 0 \<le> n) (ns :: int list) \<Longrightarrow> 0 \<le> sum_list ns"
  by (induction ns) auto

lemma sum_list_remove1_int: "n \<in> set ns \<Longrightarrow> sum_list (remove1 n ns) = sum_list ns - (n :: int)"
  by (induction ns) auto

lemma acquire_granted:
  assumes "budget_ok (b, held)" "0 \<le> n" "n \<le> max_int64 - bg_maxBytes b"
  shows "acquire n b = (if int (length held) < bg_maxConns b \<and> sum_list held + n \<le> bg_maxBytes b
           then (True, b\<lparr>bg_conns := bg_conns b + 1, bg_bytes := bg_bytes b + n\<rparr>) else (False, b))"
proof -
  have "0 \<le> sum_list held" using assms(1) by (simp add: budget_ok_def sum_list_nonneg_int)
  with assms have "wrap64 (bg_bytes b + n) = bg_bytes b + n"
    by (intro wrap64_id) (auto simp: budget_ok_def)
  moreover have "wrap64 (bg_conns b + 1) = bg_conns b + 1" if "bg_conns b < bg_maxConns b"
    using assms(1) that by (intro wrap64_id) (auto simp: budget_ok_def)
  ultimately show ?thesis using assms by (auto simp: acquire_def budget_ok_def)
qed

lemma acquire_refused: "acquire n b = (False, b') \<Longrightarrow> b' = b"
  by (auto simp: acquire_def Let_def split: if_splits)

lemma release_held:
  assumes "budget_ok (b, held)" "n \<in> set held"
  shows "release n b = b\<lparr>bg_conns := bg_conns b - 1, bg_bytes := bg_bytes b - n\<rparr>"
proof -
  have n: "0 \<le> n" "n \<le> sum_list held" "0 < length held"
    using assms sum_list_remove1_int [OF assms(2)] sum_list_nonneg_int [of "remove1 n held"]
    by (auto simp: budget_ok_def list_all_iff dest: in_set_remove1 notin_set_remove1)
  moreover have "wrap64 (bg_bytes b - n) = bg_bytes b - n" "wrap64 (bg_conns b - 1) = bg_conns b - 1"
    using assms(1) n by (auto intro!: wrap64_id simp: budget_ok_def)
  ultimately show ?thesis using assms by (simp add: release_def budget_ok_def)
qed

lemma budget_step_ok: "budget_step s t \<Longrightarrow> budget_ok s \<Longrightarrow> budget_ok t"
proof (induction rule: budget_step.induct)
  case (grant n b b' held)
  with acquire_granted [OF grant.prems grant.hyps(2,3)] show ?case
    by (auto simp: budget_ok_def split: if_splits)
next
  case (refuse n b b' held)
  with acquire_refused show ?case by blast
next
  case (finish n held b)
  from finish.hyps have "int (length held - Suc 0) = int (length held) - 1"
    by (cases held) auto
  with finish release_held [OF finish.prems finish.hyps] sum_list_remove1_int [OF finish.hyps] show ?case
    by (auto simp: budget_ok_def length_remove1 list_all_iff dest: notin_set_remove1)
qed

lemma budget_steps_ok: "budget_step\<^sup>*\<^sup>* s t \<Longrightarrow> budget_ok s \<Longrightarrow> budget_ok t"
  by (induction rule: rtranclp_induct) (auto intro: budget_step_ok)

lemma budget_step_limits: "budget_step (b, held) (b', held') \<Longrightarrow> bg_maxConns b' = bg_maxConns b \<and> bg_maxBytes b' = bg_maxBytes b"
  by (elim budget_stepE) (auto simp: acquire_def release_def Let_def split: if_splits)

lemma budget_steps_limits:
  "budget_step\<^sup>*\<^sup>* s t \<Longrightarrow> bg_maxConns (fst t) = bg_maxConns (fst s) \<and> bg_maxBytes (fst t) = bg_maxBytes (fst s)"
  by (induction rule: rtranclp_induct) (metis budget_step_limits prod.collapse)+

lemma newInFlightBudget_ok:
  "maxConns \<le> max_int64 \<Longrightarrow> maxBytes \<le> max_int64 \<Longrightarrow> budget_ok (newInFlightBudget maxConns maxBytes, [])"
  by (simp add: budget_ok_def newInFlightBudget_def max_int64_def)

section \<open>Rate limiter\<close>

definition maxLimiterBuckets :: nat where "maxLimiterBuckets = 4096"
definition bucketIdleTTL :: duration where "bucketIdleTTL = 30 * Minute"

record bucket =
  bk_tokens :: rat
  bk_last :: gtime

type_synonym buckets = "(string \<times> bucket) list"

record rateLimiter =
  rl_capacity :: rat
  rl_refill :: rat
  rl_buckets :: buckets
  rl_maxKeys :: nat

definition newRateLimiter :: "int \<Rightarrow> rat \<Rightarrow> rateLimiter" where
  "newRateLimiter capacity0 refillPerSecond =
     (let capacity = (if capacity0 \<le> 0 then 30 else capacity0) in
      \<lparr>rl_capacity = f64 (of_int capacity),
       rl_refill = (if refillPerSecond \<le> 0 then f64 (f64 (of_int capacity) / 60) else refillPerSecond),
       rl_buckets = [], rl_maxKeys = maxLimiterBuckets\<rparr>)"

text \<open>\<open>Duration.Seconds\<close>: whole seconds plus the rounded fraction.\<close>

definition Seconds :: "duration \<Rightarrow> rat" where
  "Seconds d = (if d < 0 then - f64 (f64 (of_int ((- d) div Second)) + f64 (of_int ((- d) mod Second) / 1000000000))
     else f64 (f64 (of_int (d div Second)) + f64 (of_int (d mod Second) / 1000000000)))"

definition limiter_purge :: "gtime \<Rightarrow> rateLimiter \<Rightarrow> rateLimiter" where
  "limiter_purge now r =
     r\<lparr>rl_buckets := filter (\<lambda>(k, b). \<not> time_Sub now (bk_last b) > bucketIdleTTL) (rl_buckets r)\<rparr>"

text \<open>The scan for the bucket that was used longest ago, over the map in some order: the key
  found so far (empty at first), its time, and whether none was seen yet.\<close>

fun oldest_scan :: "buckets \<Rightarrow> string \<times> gtime \<times> bool \<Rightarrow> string \<times> gtime \<times> bool" where
  "oldest_scan [] acc = acc"
| "oldest_scan ((k, b) # bs) (oldestKey, oldest, first) =
     (if first \<or> bk_last b < oldest then oldest_scan bs (k, bk_last b, False)
      else oldest_scan bs (oldestKey, oldest, first))"

definition evictOne :: "(buckets \<Rightarrow> buckets) \<Rightarrow> rateLimiter \<Rightarrow> rateLimiter" where
  "evictOne ord r =
     (let (oldestKey, _, _) = oldest_scan (ord (rl_buckets r)) ([], 0, True) in
      if oldestKey \<noteq> [] then r\<lparr>rl_buckets := AList.delete oldestKey (rl_buckets r)\<rparr> else r)"

definition refilled :: "rateLimiter \<Rightarrow> gtime \<Rightarrow> bucket \<Rightarrow> bucket" where
  "refilled r now b =
     (let elapsed = Seconds (time_Sub now (bk_last b)) in
      if elapsed > 0 then
        (let t = f64 (bk_tokens b + f64 (elapsed * rl_refill r))
         in \<lparr>bk_tokens = (if t > rl_capacity r then rl_capacity r else t), bk_last = now\<rparr>)
      else b)"

definition allow :: "(buckets \<Rightarrow> buckets) \<Rightarrow> string \<Rightarrow> gtime \<Rightarrow> rateLimiter \<Rightarrow> bool \<times> rateLimiter" where
  "allow ord key now r0 =
     (let r = limiter_purge now r0 in
      case map_of (rl_buckets r) key of
        None \<Rightarrow>
          (let r1 = (if length (rl_buckets r) \<ge> rl_maxKeys r then evictOne ord r else r)
           in (True, r1\<lparr>rl_buckets := AList.update key
                 \<lparr>bk_tokens = f64 (rl_capacity r - 1), bk_last = now\<rparr> (rl_buckets r1)\<rparr>))
      | Some b0 \<Rightarrow>
          (let b = refilled r now b0 in
           if bk_tokens b < 1 then (False, r\<lparr>rl_buckets := AList.update key b (rl_buckets r)\<rparr>)
           else (True, r\<lparr>rl_buckets := AList.update key (b\<lparr>bk_tokens := f64 (bk_tokens b - 1)\<rparr>) (rl_buckets r)\<rparr>)))"

definition lenBuckets :: "rateLimiter \<Rightarrow> nat" where
  "lenBuckets r = length (rl_buckets r)"

text \<open>A run of the limiter, one call of \<open>allow\<close> after the other.\<close>

type_synonym limiter_call = "string \<times> gtime"

fun allow_run :: "(buckets \<Rightarrow> buckets) \<Rightarrow> limiter_call list \<Rightarrow> rateLimiter \<Rightarrow> bool list \<times> rateLimiter" where
  "allow_run ord [] r = ([], r)"
| "allow_run ord ((key, now) # calls) r =
     (let (ok, r1) = allow ord key now r; (oks, r2) = allow_run ord calls r1 in (ok # oks, r2))"

text \<open>Go's iteration visits every entry of the map once, in an unspecified order.\<close>

definition iteration_order :: "(buckets \<Rightarrow> buckets) \<Rightarrow> bool" where
  "iteration_order ord \<longleftrightarrow> (\<forall>bs. set (ord bs) = set bs)"

section \<open>The limiter's invariant\<close>

definition bucket_ok :: "rat \<Rightarrow> bucket \<Rightarrow> bool" where
  "bucket_ok cap b \<longleftrightarrow> 0 \<le> bk_tokens b \<and> bk_tokens b \<le> cap"

text \<open>A limiter as \<open>newRateLimiter\<close> makes them: the capacity is a whole number.\<close>

definition limits_ok :: "rateLimiter \<Rightarrow> bool" where
  "limits_ok r \<longleftrightarrow> rl_capacity r = of_int \<lfloor>rl_capacity r\<rfloor> \<and> 1 \<le> rl_capacity r \<and> rl_capacity r \<le> 2 ^ 53 \<and>
     0 < rl_refill r \<and> 0 < rl_maxKeys r"

definition limiter_ok :: "rateLimiter \<Rightarrow> bool" where
  "limiter_ok r \<longleftrightarrow> limits_ok r \<and>
     distinct (map fst (rl_buckets r)) \<and> length (rl_buckets r) \<le> rl_maxKeys r \<and>
     list_all (\<lambda>(k, b). k \<noteq> [] \<and> bucket_ok (rl_capacity r) b) (rl_buckets r)"

lemma limits_ok_buckets [simp]: "limits_ok (r\<lparr>rl_buckets := bs\<rparr>) = limits_ok r"
  by (simp add: limits_ok_def)

lemma limits_ge_1: "limits_ok r \<Longrightarrow> 1 \<le> rl_capacity r"
  by (simp add: limits_ok_def)

lemma f64_capacity: "limits_ok r \<Longrightarrow> f64 (rl_capacity r) = rl_capacity r"
proof -
  assume r: "limits_ok r"
  then have "(of_int \<lfloor>rl_capacity r\<rfloor> :: rat) \<le> of_int (2 ^ 53)" by (simp add: limits_ok_def)
  then have "\<lfloor>rl_capacity r\<rfloor> \<le> 2 ^ 53" by (simp only: of_int_le_iff)
  moreover have "0 \<le> \<lfloor>rl_capacity r\<rfloor>" using r by (simp add: limits_ok_def)
  ultimately have "f64 (of_int \<lfloor>rl_capacity r\<rfloor>) = of_int \<lfloor>rl_capacity r\<rfloor>" by (intro f64_int)
  with r show ?thesis by (simp add: limits_ok_def)
qed

lemma f64_minus_one:
  assumes "limits_ok r" "1 \<le> t" "t \<le> rl_capacity r"
  shows "0 \<le> f64 (t - 1)" "f64 (t - 1) \<le> rl_capacity r" "f64 (t - 1) \<le> t - 1 + rl_capacity r * f64_u"
proof -
  show "0 \<le> f64 (t - 1)" using assms by (intro f64.rnd_nonneg) simp
  have "f64 (t - 1) \<le> f64 (rl_capacity r)" using assms by (intro f64_mono) auto
  then show "f64 (t - 1) \<le> rl_capacity r" by (simp add: f64_capacity assms)
  show "f64 (t - 1) \<le> t - 1 + rl_capacity r * f64_u"
    using f64.rnd_sum_upper [of "t - 1" 0 "rl_capacity r"] assms by simp
qed

lemma Seconds_nonneg: "0 \<le> d \<Longrightarrow> 0 \<le> Seconds d"
  by (auto simp: Seconds_def intro!: f64.rnd_nonneg add_nonneg_nonneg divide_nonneg_nonneg pos_imp_zdiv_nonneg_iff [THEN iffD2])

lemma Seconds_pos: "0 < Seconds d \<Longrightarrow> 0 < d"
proof (rule ccontr)
  assume pos: "0 < Seconds d" and "\<not> 0 < d"
  then consider "d = 0" | "d < 0" by linarith
  then show False
  proof cases
    case 2
    then have "Seconds d = - Seconds (- d)" by (simp add: Seconds_def)
    with pos 2 Seconds_nonneg [of "- d"] show False by simp
  qed (use pos in \<open>simp add: Seconds_def\<close>)
qed

lemma Seconds_upper:
  assumes "0 \<le> d"
  shows "Seconds d \<le> of_int d / 1000000000 * (1 + f64_u) ^ 2"
proof -
  have split: "of_int d = (of_int (d div Second) * 1000000000 + of_int (d mod Second) :: rat)"
    by (metis div_mult_mod_eq of_int_add of_int_mult of_int_numeral)
  have "f64 (of_int (d div Second)) \<le> of_int (d div Second) * (1 + f64_u)"
    using assms by (intro f64_upper) (simp add: pos_imp_zdiv_nonneg_iff)
  moreover have "f64 (of_int (d mod Second) / 1000000000) \<le> of_int (d mod Second) / 1000000000 * (1 + f64_u)"
    by (intro f64_upper) simp
  ultimately have "f64 (of_int (d div Second)) + f64 (of_int (d mod Second) / 1000000000)
      \<le> of_int d / 1000000000 * (1 + f64_u)"
    unfolding split by (simp add: field_simps)
  from mult_right_mono [OF this, of "1 + f64_u"] f64.u_nonneg
  have "(f64 (of_int (d div Second)) + f64 (of_int (d mod Second) / 1000000000)) * (1 + f64_u)
      \<le> of_int d / 1000000000 * (1 + f64_u) ^ 2"
    by (simp add: power2_eq_square mult.assoc)
  moreover have "Seconds d \<le> (f64 (of_int (d div Second)) + f64 (of_int (d mod Second) / 1000000000)) * (1 + f64_u)"
    using assms unfolding Seconds_def
    by (auto intro!: f64_upper add_nonneg_nonneg f64.rnd_nonneg simp: pos_imp_zdiv_nonneg_iff)
  ultimately show ?thesis by (rule order_trans [rotated])
qed

lemma refilled_ok: "limits_ok r \<Longrightarrow> bucket_ok (rl_capacity r) b \<Longrightarrow> bucket_ok (rl_capacity r) (refilled r now b)"
  by (auto simp: refilled_def bucket_ok_def Let_def limits_ok_def
      intro!: f64.rnd_nonneg add_nonneg_nonneg mult_nonneg_nonneg)

lemma oldest_scan_key: "(snd (snd acc) \<longrightarrow> bs \<noteq> []) \<Longrightarrow> fst (oldest_scan bs acc) \<in> set (map fst bs) \<union> (if snd (snd acc) then {} else {fst acc})"
proof (induction bs acc rule: oldest_scan.induct)
  case (2 k b bs oldestKey oldest first)
  then show ?case by (auto split: if_splits)
qed auto

lemma evictOne_length:
  assumes "iteration_order ord" "rl_buckets r \<noteq> []" "[] \<notin> set (map fst (rl_buckets r))"
  shows "length (rl_buckets (evictOne ord r)) < length (rl_buckets r)"
proof -
  have set: "set (ord (rl_buckets r)) = set (rl_buckets r)" using assms(1) by (simp add: iteration_order_def)
  with assms(2) have "ord (rl_buckets r) \<noteq> []" by auto
  with oldest_scan_key [of "([], 0, True)" "ord (rl_buckets r)"] set
  have key: "fst (oldest_scan (ord (rl_buckets r)) ([], 0, True)) \<in> set (map fst (rl_buckets r))" by auto
  then have "length (AList.delete (fst (oldest_scan (ord (rl_buckets r)) ([], 0, True))) (rl_buckets r)) < length (rl_buckets r)"
    by (auto simp: AList.delete_eq intro!: length_filter_less)
  with key assms(3) show ?thesis by (auto simp: evictOne_def split: prod.splits)
qed

lemma allow_limits: "rl_capacity (snd (allow ord k t r)) = rl_capacity r \<and> rl_refill (snd (allow ord k t r)) = rl_refill r
    \<and> rl_maxKeys (snd (allow ord k t r)) = rl_maxKeys r"
  by (auto simp: allow_def limiter_purge_def evictOne_def Let_def split: option.splits prod.splits)

lemma keys_update: "map fst (AList.update k v al) = map fst al @ (if k \<in> set (map fst al) then [] else [k])"
  by (induction al) auto

lemma set_update_subset: "set (AList.update k v al) \<subseteq> insert (k, v) (set al)"
  by (induction al) auto

lemma put_bucket_ok:
  assumes "limiter_ok r" "k \<noteq> []" "bucket_ok (rl_capacity r) b" "k \<in> set (map fst (rl_buckets r)) \<or> length (rl_buckets r) < rl_maxKeys r"
  shows "limiter_ok (r\<lparr>rl_buckets := AList.update k b (rl_buckets r)\<rparr>)"
proof -
  have "length (AList.update k b (rl_buckets r)) = length (rl_buckets r) + (if k \<in> set (map fst (rl_buckets r)) then 0 else 1)"
    using arg_cong [OF keys_update [of k b "rl_buckets r"], of length] by simp
  moreover have "list_all (\<lambda>(k, b). k \<noteq> [] \<and> bucket_ok (rl_capacity r) b) (AList.update k b (rl_buckets r))"
    using assms(1,2,3) by (auto simp: limiter_ok_def list_all_iff dest!: subsetD [OF set_update_subset])
  ultimately show ?thesis
    using assms by (auto simp: limiter_ok_def distinct_update)
qed

lemma drop_buckets_ok:
  "limiter_ok r \<Longrightarrow> limiter_ok (r\<lparr>rl_buckets := filter P (rl_buckets r)\<rparr>)"
  by (auto simp: limiter_ok_def list_all_iff distinct_map_filter intro: le_trans [OF length_filter_le])

lemma purge_ok: "limiter_ok r \<Longrightarrow> limiter_ok (limiter_purge now r)"
  by (simp add: limiter_purge_def drop_buckets_ok)

lemma evictOne_ok: "limiter_ok r \<Longrightarrow> limiter_ok (evictOne ord r)"
  by (auto simp: evictOne_def AList.delete_eq drop_buckets_ok split: prod.splits)

lemma bucket_of_ok: "limiter_ok r \<Longrightarrow> map_of (rl_buckets r) k = Some b \<Longrightarrow> bucket_ok (rl_capacity r) b"
  by (auto simp: limiter_ok_def list_all_iff dest!: map_of_SomeD)

lemma full_bucket_ok: "limits_ok r \<Longrightarrow> bucket_ok (rl_capacity r) \<lparr>bk_tokens = f64 (rl_capacity r - 1), bk_last = now\<rparr>"
  using f64_minus_one [of r "rl_capacity r"] by (simp add: bucket_ok_def limits_ok_def)

lemma limiter_ok_limits: "limiter_ok r \<Longrightarrow> limits_ok r"
  by (simp add: limiter_ok_def)

lemma purge_limits [simp]: "rl_capacity (limiter_purge now r) = rl_capacity r" "rl_refill (limiter_purge now r) = rl_refill r"
  "rl_maxKeys (limiter_purge now r) = rl_maxKeys r"
  by (simp_all add: limiter_purge_def)

lemma evictOne_limits [simp]: "rl_capacity (evictOne ord r) = rl_capacity r" "rl_refill (evictOne ord r) = rl_refill r"
  "rl_maxKeys (evictOne ord r) = rl_maxKeys r"
  by (auto simp: evictOne_def split: prod.splits)

lemma room_for_key:
  assumes "iteration_order ord" "limiter_ok r"
  shows "length (rl_buckets (if length (rl_buckets r) \<ge> rl_maxKeys r then evictOne ord r else r)) < rl_maxKeys r"
proof (cases "length (rl_buckets r) \<ge> rl_maxKeys r")
  case True
  with assms have "rl_buckets r \<noteq> []" "[] \<notin> set (map fst (rl_buckets r))" "length (rl_buckets r) \<le> rl_maxKeys r"
    by (auto simp: limiter_ok_def limits_ok_def list_all_iff)
  with evictOne_length [OF assms(1), of r] True show ?thesis by simp
qed simp

lemma allow_ok:
  assumes "iteration_order ord" "limiter_ok r0" "key \<noteq> []"
  shows "limiter_ok (snd (allow ord key now r0))"
proof -
  define r where "r = limiter_purge now r0"
  have r: "limiter_ok r" using assms(2) by (simp add: r_def purge_ok)
  show ?thesis
  proof (cases "map_of (rl_buckets r) key")
    case None
    define r1 where "r1 = (if length (rl_buckets r) \<ge> rl_maxKeys r then evictOne ord r else r)"
    have r1: "limiter_ok r1" "rl_capacity r1 = rl_capacity r" using r by (auto simp: r1_def evictOne_ok)
    have "limiter_ok (r1\<lparr>rl_buckets := AList.update key \<lparr>bk_tokens = f64 (rl_capacity r - 1), bk_last = now\<rparr> (rl_buckets r1)\<rparr>)"
      using r1 assms(3) full_bucket_ok [OF limiter_ok_limits [OF r]] room_for_key [OF assms(1) r]
      by (intro put_bucket_ok) (auto simp: r1_def)
    then show ?thesis using None by (simp add: allow_def Let_def r_def [symmetric] r1_def [symmetric])
  next
    case (Some b0)
    define b where "b = refilled r now b0"
    have b: "bucket_ok (rl_capacity r) b"
      using r Some by (simp add: b_def refilled_ok bucket_of_ok limiter_ok_limits)
    have key: "key \<in> set (map fst (rl_buckets r))" using Some by (metis map_of_eq_None_iff option.distinct(1) set_map)
    have spent: "bucket_ok (rl_capacity r) (b\<lparr>bk_tokens := f64 (bk_tokens b - 1)\<rparr>)" if "\<not> bk_tokens b < 1"
      using f64_minus_one [OF limiter_ok_limits [OF r], of "bk_tokens b"] b that by (simp add: bucket_ok_def)
    show ?thesis
      using Some put_bucket_ok [OF r assms(3)] b key spent
      by (auto simp: allow_def Let_def r_def [symmetric] b_def [symmetric])
  qed
qed

section \<open>How many requests a key is allowed\<close>

text \<open>The calls for one key that were let through, and the tokens that the refill can have added
  between two times, with the rounding error of \<open>c\<close> calls.\<close>

definition admitted :: "string \<Rightarrow> limiter_call list \<Rightarrow> bool list \<Rightarrow> nat" where
  "admitted k calls oks = length (filter (\<lambda>((j, _), ok). j = k \<and> ok) (zip calls oks))"

definition rate_per_ns :: "rateLimiter \<Rightarrow> rat" where
  "rate_per_ns r = rl_refill r * (1 + f64_u) ^ 4 / 1000000000"

definition refill_bound :: "rateLimiter \<Rightarrow> gtime \<Rightarrow> gtime \<Rightarrow> nat \<Rightarrow> rat" where
  "refill_bound r t0 t c = rate_per_ns r * of_int (t - t0) + 2 * of_nat c * rl_capacity r * f64_u"

definition spend_ok :: "rateLimiter \<Rightarrow> string \<Rightarrow> nat \<Rightarrow> nat \<Rightarrow> gtime \<Rightarrow> gtime \<Rightarrow> bool" where
  "spend_ok r k n c t0 t =
     (case map_of (rl_buckets r) k of
        None \<Rightarrow> of_nat n \<le> refill_bound r t0 t c
      | Some b \<Rightarrow> of_nat n + bk_tokens b \<le> rl_capacity r + refill_bound r t0 (bk_last b) c
          \<and> t0 \<le> bk_last b \<and> bk_last b \<le> t)"

lemma refill_bound_cong:
  "rl_capacity r' = rl_capacity r \<Longrightarrow> rl_refill r' = rl_refill r \<Longrightarrow> refill_bound r' = refill_bound r"
  by (simp add: fun_eq_iff refill_bound_def rate_per_ns_def)

lemma refill_bound_buckets [simp]: "refill_bound (r\<lparr>rl_buckets := bs\<rparr>) = refill_bound r"
  by (rule refill_bound_cong) simp_all

lemma f64_u_pos: "0 < f64_u"
  by (simp add: f64_u_def)

lemma rate_per_ns_ge: "0 < rl_refill r \<Longrightarrow> rl_refill r / 1000000000 \<le> rate_per_ns r"
proof -
  assume "0 < rl_refill r"
  moreover have "1 \<le> (1 + f64_u) ^ 4" using f64_u_pos by (intro one_le_power) simp
  ultimately show ?thesis by (simp add: rate_per_ns_def divide_right_mono)
qed

lemma refill_bound_later:
  assumes "0 < rl_refill r" "t \<le> t'" "c \<le> c'" "0 \<le> rl_capacity r"
  shows "refill_bound r t0 t c \<le> refill_bound r t0 t' c'"
proof -
  have "0 \<le> rl_refill r / 1000000000" using assms(1) by simp
  also note rate_per_ns_ge [OF assms(1)]
  finally have "0 \<le> rate_per_ns r" .
  then have "rate_per_ns r * of_int (t - t0) \<le> rate_per_ns r * of_int (t' - t0)"
    using assms(2) by (intro mult_left_mono) auto
  moreover have "2 * of_nat c * rl_capacity r * f64_u \<le> 2 * of_nat c' * rl_capacity r * f64_u"
    using assms(3,4) f64_u_pos by (intro mult_right_mono) auto
  ultimately show ?thesis by (simp add: refill_bound_def)
qed

lemma refill_bound_diff:
  "refill_bound r t0 t' c = refill_bound r t0 t c + rate_per_ns r * of_int (t' - t)"
  by (simp add: refill_bound_def algebra_simps)

lemma refill_bound_call:
  "refill_bound r t0 t (Suc c) = refill_bound r t0 t c + 2 * rl_capacity r * f64_u"
  by (simp add: refill_bound_def algebra_simps)

lemma time_Sub_gt: "time_Sub now prev > d \<Longrightarrow> 0 \<le> d \<Longrightarrow> d < now - prev"
  by (auto simp: time_Sub_def min_def max_def split: if_splits)

lemma time_Sub_le: "0 \<le> now - prev \<Longrightarrow> time_Sub now prev \<le> now - prev"
  by (auto simp: time_Sub_def)

text \<open>A refill adds at most the elapsed time's worth of tokens.\<close>

lemma refilled_tokens:
  assumes "limits_ok r" "bucket_ok (rl_capacity r) b" "bk_last b \<le> now"
  shows "bk_tokens (refilled r now b) \<le> bk_tokens b + rl_capacity r * f64_u
           + rate_per_ns r * of_int (bk_last (refilled r now b) - bk_last b)"
    and "bk_last b \<le> bk_last (refilled r now b)" "bk_last (refilled r now b) \<le> now"
proof -
  define el where "el = Seconds (time_Sub now (bk_last b))"
  show "bk_last b \<le> bk_last (refilled r now b)" "bk_last (refilled r now b) \<le> now"
    using assms(3) by (auto simp: refilled_def Let_def)
  have cap: "0 \<le> rl_capacity r * f64_u" using assms(1) f64_u_pos by (auto simp: limits_ok_def)
  show "bk_tokens (refilled r now b) \<le> bk_tokens b + rl_capacity r * f64_u
      + rate_per_ns r * of_int (bk_last (refilled r now b) - bk_last b)"
  proof (cases "el > 0")
    case False
    with cap show ?thesis by (simp add: refilled_def el_def [symmetric])
  next
    case True
    then have pos: "0 < time_Sub now (bk_last b)" unfolding el_def by (rule Seconds_pos)
    have refill: "0 < rl_refill r" using assms(1) by (simp add: limits_ok_def)
    have "el \<le> of_int (time_Sub now (bk_last b)) / 1000000000 * (1 + f64_u) ^ 2"
      unfolding el_def using pos by (intro Seconds_upper) simp
    also have "\<dots> \<le> of_int (now - bk_last b) / 1000000000 * (1 + f64_u) ^ 2"
      using time_Sub_le [of now "bk_last b"] assms(3) f64_u_pos by (intro mult_right_mono divide_right_mono) auto
    finally have el: "el \<le> of_int (now - bk_last b) / 1000000000 * (1 + f64_u) ^ 2" .
    have "f64 (el * rl_refill r) \<le> el * rl_refill r * (1 + f64_u)"
      using True refill by (intro f64_upper) simp
    also have "\<dots> \<le> of_int (now - bk_last b) / 1000000000 * (1 + f64_u) ^ 2 * rl_refill r * (1 + f64_u)"
      using el refill f64_u_pos by (intro mult_right_mono) auto
    finally have inc: "f64 (el * rl_refill r) * (1 + f64_u)
        \<le> of_int (now - bk_last b) / 1000000000 * (1 + f64_u) ^ 2 * rl_refill r * (1 + f64_u) * (1 + f64_u)"
      using f64_u_pos by (intro mult_right_mono) auto
    have "f64 (bk_tokens b + f64 (el * rl_refill r)) \<le> bk_tokens b + rl_capacity r * f64_u + f64 (el * rl_refill r) * (1 + f64_u)"
      using assms(2) True refill by (intro f64.rnd_sum_upper) (auto simp: bucket_ok_def intro: f64.rnd_nonneg)
    also have "\<dots> \<le> bk_tokens b + rl_capacity r * f64_u + rate_per_ns r * of_int (now - bk_last b)"
      using inc by (simp add: rate_per_ns_def power4_eq_xxxx power2_eq_square mult_ac)
    finally show ?thesis using True by (simp add: refilled_def el_def [symmetric] Let_def)
  qed
qed

lemma map_of_filter:
  "distinct (map fst al) \<Longrightarrow> map_of (filter P al) k = (case map_of al k of None \<Rightarrow> None | Some b \<Rightarrow> if P (k, b) then Some b else None)"
proof (induction al)
  case (Cons e al)
  have "map_of al (fst e) = None" using Cons.prems by (simp add: map_of_eq_None_iff)
  with Cons show ?case by (cases e) (auto split: option.splits)
qed simp

text \<open>A bucket that stays idle for half an hour is dropped; when half an hour refills a bucket
  completely, its holder gains nothing from that.\<close>

definition refills_before_purge :: "rateLimiter \<Rightarrow> bool" where
  "refills_before_purge r \<longleftrightarrow> rl_capacity r \<le> rl_refill r * 1800"

lemma purge_spend:
  assumes "limiter_ok r" "refills_before_purge r" "spend_ok r k n c t0 t" "t \<le> now"
  shows "spend_ok (limiter_purge now r) k n c t0 now"
proof -
  have r: "limits_ok r" and keys: "distinct (map fst (rl_buckets r))" using assms(1) by (auto simp: limiter_ok_def)
  show ?thesis
  proof (cases "map_of (rl_buckets r) k")
    case None
    then have "of_nat n \<le> refill_bound r t0 t c" using assms(3) by (simp add: spend_ok_def)
    also have "\<dots> \<le> refill_bound r t0 now c" using assms(4) r by (intro refill_bound_later) (auto simp: limits_ok_def)
    finally show ?thesis using None keys by (simp add: spend_ok_def limiter_purge_def map_of_filter)
  next
    case (Some b)
    have sp: "of_nat n + bk_tokens b \<le> rl_capacity r + refill_bound r t0 (bk_last b) c" "t0 \<le> bk_last b" "bk_last b \<le> t"
      using assms(3) Some by (auto simp: spend_ok_def)
    show ?thesis
    proof (cases "time_Sub now (bk_last b) > bucketIdleTTL")
      case False
      then show ?thesis using Some sp keys assms(4) by (simp add: spend_ok_def limiter_purge_def map_of_filter)
    next
      case True
      then have idle: "30 * Minute < now - bk_last b"
        using time_Sub_gt [OF True] by (simp add: bucketIdleTTL_def)
      have "rl_capacity r \<le> rl_refill r / 1000000000 * of_int (30 * Minute)"
        using assms(2) by (simp add: refills_before_purge_def)
      also have "\<dots> \<le> rate_per_ns r * of_int (now - bk_last b)"
        using idle r rate_per_ns_ge [of r] by (intro mult_mono) (auto simp: limits_ok_def intro: order_trans [rotated])
      finally have "of_nat n \<le> refill_bound r t0 now c"
        using sp(1) bucket_of_ok [OF assms(1) Some] refill_bound_diff [of r t0 now c "bk_last b"] by (simp add: bucket_ok_def)
      then show ?thesis using Some True keys by (simp add: spend_ok_def limiter_purge_def map_of_filter)
    qed
  qed
qed

lemma spend_ok_later:
  assumes "limits_ok r" "spend_ok r k n c t0 t" "t \<le> t1"
  shows "spend_ok r k n c t0 t1"
proof -
  have "refill_bound r t0 t c \<le> refill_bound r t0 t1 c"
    using assms(1,3) by (intro refill_bound_later) (auto simp: limits_ok_def)
  with assms(2,3) show ?thesis by (auto simp: spend_ok_def split: option.splits)
qed

lemma spend_ok_cong:
  "map_of (rl_buckets r') k = map_of (rl_buckets r) k \<Longrightarrow> rl_capacity r' = rl_capacity r \<Longrightarrow> rl_refill r' = rl_refill r
     \<Longrightarrow> spend_ok r' k n c t0 t = spend_ok r k n c t0 t"
  using refill_bound_cong [of r' r] by (auto simp: spend_ok_def split: option.splits)

definition has_room :: "string \<Rightarrow> rateLimiter \<Rightarrow> bool" where
  "has_room key r \<longleftrightarrow> key \<in> set (map fst (rl_buckets r)) \<or> length (rl_buckets r) < rl_maxKeys r"

lemma allow_new:
  assumes "map_of (rl_buckets (limiter_purge now r)) key = None" "has_room key (limiter_purge now r)"
  shows "allow ord key now r = (True, (limiter_purge now r)\<lparr>rl_buckets := AList.update key
           \<lparr>bk_tokens = f64 (rl_capacity r - 1), bk_last = now\<rparr> (rl_buckets (limiter_purge now r))\<rparr>)"
proof -
  have "length (rl_buckets (limiter_purge now r)) < rl_maxKeys r"
    using assms by (simp add: has_room_def map_of_eq_None_iff)
  with assms(1) show ?thesis by (simp add: allow_def Let_def)
qed

lemma allow_spend:
  assumes "limiter_ok r0" "refills_before_purge r0" "spend_ok r0 k n c t0 t" "t \<le> now" "t0 \<le> now"
    and "has_room key (limiter_purge now r0)" and "allow ord key now r0 = (ok, r')"
  shows "spend_ok r' k (if key = k \<and> ok then Suc n else n) (Suc c) t0 now"
proof -
  define r where "r = limiter_purge now r0"
  have ok: "limiter_ok r" "limits_ok r" and sp: "spend_ok r k n c t0 now"
    using assms(1-4) by (auto simp: r_def purge_ok limiter_ok_limits intro: purge_spend)
  have same: "rl_capacity r = rl_capacity r0" "rl_refill r = rl_refill r0" by (simp_all add: r_def)
  have cu: "0 \<le> 2 * rl_capacity r * f64_u" using ok(2) f64_u_pos by (auto simp: limits_ok_def)
  have later: "refill_bound r t0 x c \<le> refill_bound r t0 x (Suc c)" for x
    using cu by (simp only: refill_bound_call le_add_same_cancel1)
  have more: "spend_ok r k n (Suc c) t0 now"
    using sp by (auto simp: spend_ok_def split: option.splits intro: order_trans [OF _ later] order_trans [OF _ add_left_mono [OF later]])
  have r': "r' = r\<lparr>rl_buckets := rl_buckets r'\<rparr>"
    using assms(7) by (auto simp: allow_def r_def [symmetric] Let_def evictOne_def split: option.splits if_splits prod.splits)
  show ?thesis
  proof (cases "key = k")
    case False
    have "map_of (rl_buckets r') k = map_of (rl_buckets r) k"
      using assms(6,7) False
      by (auto simp: allow_def r_def [symmetric] has_room_def Let_def update_conv' map_of_eq_None_iff split: option.splits if_splits)
    with more False show ?thesis by (subst spend_ok_cong [OF _ _ _]) (auto simp: arg_cong [OF r', of rl_capacity] arg_cong [OF r', of rl_refill])
  next
    case True
    show ?thesis
    proof (cases "map_of (rl_buckets r) k")
      case None
      have "of_nat (Suc n) + f64 (rl_capacity r - 1) \<le> rl_capacity r + refill_bound r t0 now (Suc c)"
      proof -
        have "of_nat n \<le> refill_bound r t0 now c" using sp None by (simp add: spend_ok_def)
        moreover have "f64 (rl_capacity r - 1) \<le> rl_capacity r - 1 + rl_capacity r * f64_u"
          using limits_ge_1 [OF ok(2)] by (intro f64_minus_one [OF ok(2)]) auto
        ultimately have "of_nat n + (1 + f64 (rl_capacity r - 1)) \<le> refill_bound r t0 now c + (rl_capacity r + rl_capacity r * f64_u)"
          by linarith
        then show ?thesis using cu unfolding refill_bound_call of_nat_Suc by linarith
      qed
      with None True assms(5,6,7) show ?thesis
        by (auto simp: allow_new r_def [symmetric] spend_ok_def update_conv' same [symmetric])
    next
      case (Some b0)
      define b where "b = refilled r now b0"
      have b0: "bucket_ok (rl_capacity r) b0" "bk_last b0 \<le> now" "t0 \<le> bk_last b0"
        "of_nat n + bk_tokens b0 \<le> rl_capacity r + refill_bound r t0 (bk_last b0) c"
        using ok Some sp by (auto simp: bucket_of_ok spend_ok_def)
      note rf = refilled_tokens [OF ok(2) b0(1,2), folded b_def]
      have sum: "of_nat n + bk_tokens b \<le> rl_capacity r + refill_bound r t0 (bk_last b) c + rl_capacity r * f64_u"
        using b0(4) rf(1) refill_bound_diff [of r t0 "bk_last b" c "bk_last b0"] by linarith
      have bok: "bucket_ok (rl_capacity r) b" using ok b0(1) by (simp add: b_def refilled_ok)
      have "of_nat (Suc n) + f64 (bk_tokens b - 1) \<le> rl_capacity r + refill_bound r t0 (bk_last b) (Suc c)"
        if "\<not> bk_tokens b < 1"
        using f64_minus_one(3) [OF ok(2), of "bk_tokens b"] bok that sum by (simp add: refill_bound_call bucket_ok_def)
      moreover have "of_nat n + bk_tokens b \<le> rl_capacity r + refill_bound r t0 (bk_last b) (Suc c)"
        using sum cu unfolding refill_bound_call by linarith
      ultimately show ?thesis
        using Some True assms(7) rf(2,3) b0(3)
        by (auto simp: allow_def r_def [symmetric] b_def [symmetric] Let_def spend_ok_def update_conv' split: if_splits)
    qed
  qed
qed

text \<open>With at most \<open>rl_maxKeys\<close> different keys no bucket is ever evicted.\<close>

lemma has_room_keys:
  assumes "limiter_ok r" "fst ` set (rl_buckets r) \<subseteq> K" "key \<in> K" "finite K" "card K \<le> rl_maxKeys r"
  shows "has_room key r"
proof (cases "key \<in> fst ` set (rl_buckets r)")
  case False
  with assms(2,3) have "fst ` set (rl_buckets r) \<subset> K" by blast
  then have "card (fst ` set (rl_buckets r)) < card K" using assms(4) by (rule psubset_card_mono [rotated])
  moreover have "card (fst ` set (rl_buckets r)) = length (rl_buckets r)"
    using assms(1) distinct_card [of "map fst (rl_buckets r)"] by (simp add: limiter_ok_def)
  ultimately show ?thesis using assms(5) by (simp add: has_room_def)
qed (simp add: has_room_def)

lemma update_keys_subset: "fst ` set al \<subseteq> K \<Longrightarrow> k \<in> K \<Longrightarrow> fst ` set (AList.update k v al) \<subseteq> K"
  by (auto dest!: subsetD [OF set_update_subset])

lemma allow_keys:
  assumes "fst ` set (rl_buckets r) \<subseteq> K" "key \<in> K"
  shows "fst ` set (rl_buckets (snd (allow ord key now r))) \<subseteq> K"
proof -
  have p: "fst ` set (rl_buckets (limiter_purge now r)) \<subseteq> K" using assms(1) by (auto simp: limiter_purge_def)
  have e: "fst ` set (rl_buckets (evictOne ord r')) \<subseteq> fst ` set (rl_buckets r')" for r'
    by (auto simp: evictOne_def AList.delete_eq split: prod.splits)
  show ?thesis
    using p order_trans [OF e p] assms(2)
    by (cases "map_of (rl_buckets (limiter_purge now r)) key") (simp_all add: allow_def Let_def update_keys_subset)
qed

lemma admitted_Cons: "admitted k ((j, t) # calls) (ok # oks) = (if j = k \<and> ok then Suc (admitted k calls oks) else admitted k calls oks)"
  by (simp add: admitted_def)

lemma admitted_Nil [simp]: "admitted k [] oks = 0"
  by (simp add: admitted_def)

lemma allow_run_spend:
  assumes "iteration_order ord" "finite K" "card K \<le> rl_maxKeys r" "refills_before_purge r" "[] \<notin> K"
    and "limiter_ok r" "fst ` set (rl_buckets r) \<subseteq> K" "spend_ok r k n c t0 t" "t0 \<le> t" "t \<le> t1"
    and "fst ` set calls \<subseteq> K" "sorted (t # map snd calls)" "\<forall>u \<in> snd ` set calls. u \<le> t1"
    and "allow_run ord calls r = (oks, r')"
  shows "spend_ok r' k (n + admitted k calls oks) (c + length calls) t0 t1"
  using assms(3,4,6-)
proof (induction calls arbitrary: r n c t oks)
  case Nil
  then show ?case by (auto intro: spend_ok_later limiter_ok_limits)
next
  case (Cons call calls)
  obtain key now where call: "call = (key, now)" by (cases call)
  obtain ok r1 where al: "allow ord key now r = (ok, r1)" by (cases "allow ord key now r")
  obtain oks2 r2 where run: "allow_run ord calls r1 = (oks2, r2)" by (cases "allow_run ord calls r1")
  have res: "oks = ok # oks2" "r' = r2" using Cons.prems al run by (auto simp: call)
  have key: "key \<in> K" "key \<noteq> []" and now: "t \<le> now" "now \<le> t1" "t0 \<le> now"
    using Cons.prems assms(5) by (auto simp: call)
  have lim: "rl_capacity r1 = rl_capacity r" "rl_refill r1 = rl_refill r" "rl_maxKeys r1 = rl_maxKeys r"
    using allow_limits [of ord key now r] al by auto
  have purged: "fst ` set (rl_buckets (limiter_purge now r)) \<subseteq> K" using Cons.prems(4) by (auto simp: limiter_purge_def)
  have room: "has_room key (limiter_purge now r)"
    using has_room_keys [OF purge_ok [OF Cons.prems(3)] purged key(1) assms(2)] Cons.prems(1) by simp
  have "spend_ok r1 k (if key = k \<and> ok then Suc n else n) (Suc c) t0 now"
    by (rule allow_spend [OF Cons.prems(3,2,5) now(1,3) room al])
  moreover have "limiter_ok r1" using allow_ok [OF assms(1) Cons.prems(3) key(2), of now] al by simp
  moreover have "fst ` set (rl_buckets r1) \<subseteq> K" using allow_keys [OF Cons.prems(4) key(1), of ord now] al by simp
  ultimately have "spend_ok r' k ((if key = k \<and> ok then Suc n else n) + admitted k calls oks2) (Suc c + length calls) t0 t1"
    using Cons.prems lim now run by (intro Cons.IH [OF _ _ _ _ _ _ _ _ _ _ run [folded res(2)], folded res(2)]) (auto simp: call refills_before_purge_def)
  then show ?case by (cases "key = k \<and> ok") (auto simp: res call admitted_Cons)
qed

lemma spend_ok_le:
  assumes "limiter_ok r" "spend_ok r k n c t0 t" "t0 \<le> t"
  shows "of_nat n \<le> rl_capacity r + refill_bound r t0 t c"
proof (cases "map_of (rl_buckets r) k")
  case None
  then show ?thesis using assms by (auto simp: spend_ok_def limiter_ok_def limits_ok_def)
next
  case (Some b)
  have "refill_bound r t0 (bk_last b) c \<le> refill_bound r t0 t c"
    using assms Some by (intro refill_bound_later) (auto simp: spend_ok_def limiter_ok_def limits_ok_def)
  moreover have "0 \<le> bk_tokens b" using bucket_of_ok [OF assms(1) Some] by (simp add: bucket_ok_def)
  moreover have "of_nat n + bk_tokens b \<le> rl_capacity r + refill_bound r t0 (bk_last b) c"
    using assms(2) Some by (simp add: spend_ok_def)
  ultimately show ?thesis by linarith
qed

lemma allow_run_limits:
  "allow_run ord calls r = (oks, r') \<Longrightarrow> rl_capacity r' = rl_capacity r \<and> rl_refill r' = rl_refill r \<and> rl_maxKeys r' = rl_maxKeys r"
proof (induction calls arbitrary: r oks)
  case (Cons call calls)
  obtain key now where call: "call = (key, now)" by (cases call)
  show ?case
    using Cons.prems Cons.IH allow_limits [of ord key now r]
    by (auto simp: call Let_def split: prod.splits) 
qed simp

lemma allow_run_ok:
  "iteration_order ord \<Longrightarrow> limiter_ok r \<Longrightarrow> [] \<notin> fst ` set calls \<Longrightarrow> limiter_ok (snd (allow_run ord calls r))"
proof (induction calls arbitrary: r)
  case (Cons call calls)
  obtain key now where call: "call = (key, now)" by (cases call)
  have "limiter_ok (snd (allow ord key now r))" using Cons.prems by (auto intro: allow_ok simp: call)
  with Cons.IH Cons.prems have "limiter_ok (snd (allow_run ord calls (snd (allow ord key now r))))" by auto
  then show ?case by (simp add: call Let_def split_beta)
qed simp

lemma newRateLimiter_ok:
  assumes "capacity \<le> 2 ^ 53"
  shows "limiter_ok (newRateLimiter capacity refill)"
proof -
  define n where "n = (if capacity \<le> 0 then 30 else capacity)"
  have n: "0 < n" "n \<le> 2 ^ 53" using assms by (auto simp: n_def)
  then have "(of_int n :: rat) \<le> of_int (2 ^ 53)" by (simp only: of_int_le_iff)
  moreover have "f64 (of_int n) = of_int n" using n by (intro f64_int) auto
  moreover have "0 < f64 (of_int n / 60)" using n by (intro f64_gt_0) simp
  ultimately show ?thesis
    using n by (simp add: newRateLimiter_def n_def [symmetric] Let_def limiter_ok_def limits_ok_def maxLimiterBuckets_def)
qed

section \<open>Client address\<close>

record trustedNets =
  tn_nets :: "IPNet list"
  tn_ips :: "IP list"

fun parse_trusted_loop :: "string list \<Rightarrow> trustedNets \<Rightarrow> trustedNets" where
  "parse_trusted_loop [] t = t"
| "parse_trusted_loop (raw0 # cidrs) t =
     (let raw = TrimSpace raw0 in
      if raw = [] then parse_trusted_loop cidrs t
      else case ParseCIDR raw of
        Some n \<Rightarrow> parse_trusted_loop cidrs (t\<lparr>tn_nets := tn_nets t @ [n]\<rparr>)
      | None \<Rightarrow>
          (case ParseIP raw of
             Some ip \<Rightarrow> parse_trusted_loop cidrs (t\<lparr>tn_ips := tn_ips t @ [ip]\<rparr>)
           | None \<Rightarrow> parse_trusted_loop cidrs t))"

definition parseTrustedProxies :: "string list \<Rightarrow> trustedNets" where
  "parseTrustedProxies cidrs = parse_trusted_loop cidrs \<lparr>tn_nets = [], tn_ips = []\<rparr>"

definition trusted_contains :: "trustedNets \<Rightarrow> IP \<Rightarrow> bool" where
  "trusted_contains t ip \<longleftrightarrow> list_ex (\<lambda>n. net_Contains n ip) (tn_nets t) \<or> list_ex (\<lambda>tip. ip_Equal tip ip) (tn_ips t)"

text \<open>The walk over the hops of \<open>X-Forwarded-For\<close>, here over the reversed list.\<close>

fun rightmost_untrusted :: "trustedNets \<Rightarrow> string list \<Rightarrow> string option" where
  "rightmost_untrusted t [] = None"
| "rightmost_untrusted t (p # ps) =
     (let cand = TrimSpace p in
      case ParseIP cand of
        None \<Rightarrow> rightmost_untrusted t ps
      | Some ip \<Rightarrow> if \<not> trusted_contains t ip then Some cand else rightmost_untrusted t ps)"

definition remote_host :: "http_request \<Rightarrow> string" where
  "remote_host r = (case SplitHostPort (rq_RemoteAddr r) of Some (host, _) \<Rightarrow> host | None \<Rightarrow> rq_RemoteAddr r)"

definition real_ip :: "http_request \<Rightarrow> string" where
  "real_ip r = (let xr = TrimSpace (Get r ''X-Real-IP'') in
     if xr \<noteq> [] \<and> ParseIP xr \<noteq> None then xr else remote_host r)"

definition clientIP :: "http_request \<Rightarrow> trustedNets \<Rightarrow> string" where
  "clientIP r t =
     (let remote = remote_host r in
      case ParseIP remote of
        None \<Rightarrow> remote
      | Some ip \<Rightarrow>
          if \<not> trusted_contains t ip then remote
          else let xff = Get r ''X-Forwarded-For'' in
            if xff \<noteq> [] then
              (case rightmost_untrusted t (rev (Split CHR '','' xff)) of
                 Some cand \<Rightarrow> cand
               | None \<Rightarrow> real_ip r)
            else real_ip r)"

text \<open>The hops that can be the client: addresses that no trusted proxy has.\<close>

definition client_hop :: "trustedNets \<Rightarrow> string \<Rightarrow> bool" where
  "client_hop t hop = (case ParseIP hop of None \<Rightarrow> False | Some ip \<Rightarrow> \<not> trusted_contains t ip)"

lemma rightmost_untrusted_find: "rightmost_untrusted t ps = find (client_hop t) (map TrimSpace ps)"
  by (induction ps) (auto simp: client_hop_def Let_def split: option.splits)

lemma find_append: "find P (xs @ ys) = (case find P xs of None \<Rightarrow> find P ys | Some x \<Rightarrow> Some x)"
  by (induction xs) auto

definition trusts_remote :: "http_request \<Rightarrow> trustedNets \<Rightarrow> bool" where
  "trusts_remote r t = (case ParseIP (remote_host r) of None \<Rightarrow> False | Some ip \<Rightarrow> trusted_contains t ip)"

lemma clientIP_untrusted: "\<not> trusts_remote r t \<Longrightarrow> clientIP r t = remote_host r"
  by (auto simp: clientIP_def trusts_remote_def Let_def split: option.splits)

lemma clientIP_forwarded:
  assumes "trusts_remote r t" "Get r ''X-Forwarded-For'' \<noteq> []"
  shows "clientIP r t = (case find (client_hop t) (rev (map TrimSpace (Split CHR '','' (Get r ''X-Forwarded-For'')))) of
           Some hop \<Rightarrow> hop | None \<Rightarrow> real_ip r)"
  using assms by (auto simp: clientIP_def trusts_remote_def rightmost_untrusted_find rev_map Let_def split: option.splits)

text \<open>Headers are looked at in full only on their first line: a proxy that adds a second
  \<open>X-Forwarded-For\<close> line leaves the client in control of the first.\<close>

definition two_line_request :: http_request where
  "two_line_request = \<lparr>rq_RemoteAddr = ''10.0.0.1:4711'',
     rq_Header = [(''X-Forwarded-For'', [''198.51.100.7'', ''203.0.113.9''])], rq_ContentLength = 0, rq_Body = None,
     rq_Query = (\<lambda>_. []), rq_PathValue = (\<lambda>_. [])\<rparr>"

definition demo_trusted :: trustedNets where
  "demo_trusted = parseTrustedProxies [''10.0.0.0/8'']"

lemma forwarded_first_line_only: "clientIP two_line_request demo_trusted = ''198.51.100.7''"
  by code_simp

definition forwarded :: "http_request \<Rightarrow> string \<Rightarrow> http_request" where
  "forwarded r v = r\<lparr>rq_Header := header_Set (rq_Header r) ''X-Forwarded-For'' v\<rparr>"

lemma forwarded_simps [simp]:
  "remote_host (forwarded r v) = remote_host r" "trusts_remote (forwarded r v) t = trusts_remote r t"
  "Get (forwarded r v) ''X-Forwarded-For'' = v"
proof -
  show host: "remote_host (forwarded r v) = remote_host r" for r
    by (cases "SplitHostPort (rq_RemoteAddr r)") (simp_all add: forwarded_def remote_host_def)
  show "trusts_remote (forwarded r v) t = trusts_remote r t" by (simp add: trusts_remote_def host)
qed (simp add: forwarded_def Get_def)

lemma find_rev_last: "list_ex P xs \<Longrightarrow> find P (rev xs) = Some (last (filter P xs))"
  by (induction xs rule: rev_induct) auto

section \<open>Properties\<close>



text \<open>Whatever keys and times come in, the limiter holds at most 4096 buckets, one for each key it
  knows, and the tokens of each lie between zero and the burst.\<close>

theorem limiter_well_formed:
  assumes "iteration_order ord" "1 \<le> burst" "burst \<le> 100000" "[] \<notin> fst ` set calls"
    and "allow_run ord calls (newRateLimiter burst rate) = (oks, r)"
  shows "lenBuckets r \<le> 4096 \<and> distinct (map fst (rl_buckets r)) \<and>
     (\<lambda>(k, b). bk_tokens b) ` set (rl_buckets r) \<subseteq> {0 .. of_int burst}"
proof (intro conjI)
  have ok: "limiter_ok r"
    using allow_run_ok [OF assms(1) newRateLimiter_ok assms(4), of burst rate] assms(3,5) by simp
  have "f64 (of_int burst) = of_int burst" using assms(2,3) by (intro f64_int) auto
  then have lim: "rl_capacity r = of_int burst" "rl_maxKeys r = 4096"
    using allow_run_limits [OF assms(5)] assms(2) by (auto simp: newRateLimiter_def maxLimiterBuckets_def)
  show "lenBuckets r \<le> 4096" "distinct (map fst (rl_buckets r))"
    using ok lim by (simp_all add: limiter_ok_def lenBuckets_def)
  show "(\<lambda>(k, b). bk_tokens b) ` set (rl_buckets r) \<subseteq> {0 .. of_int burst}"
    using ok lim by (auto simp: limiter_ok_def list_all_iff bucket_ok_def)
qed

theorem limiter_well_formed_witness:
  "lenBuckets (snd (allow_run rev [(''a'', 7), (''b'', 3)] (newRateLimiter 2 1))) \<le> 4096"
proof -
  obtain oks r where run: "allow_run rev [(''a'', 7), (''b'', 3)] (newRateLimiter 2 1) = (oks, r)"
    by (rule prod.exhaust)
  have "iteration_order rev" by (simp add: iteration_order_def)
  from limiter_well_formed [OF this _ _ _ run] show ?thesis by (simp add: run del: allow_run.simps)
qed

text \<open>C17: Whatever way concurrent requests interleave, the requests in flight never exceed the configured
  number, the bytes they reserved never exceed the configured size, the two counters are exactly
  their number and their sum, and once all of them have returned the budget is as it was at the
  start.\<close>

theorem budget_never_exceeded:
  assumes "1 \<le> maxConns" "maxConns \<le> max_int64" "1 \<le> maxBytes" "maxBytes \<le> max_int64"
    and "budget_step\<^sup>*\<^sup>* (newInFlightBudget maxConns maxBytes, []) (b, held)"
  shows "int (length held) \<le> maxConns \<and> sum_list held \<le> maxBytes \<and> bg_conns b = int (length held) \<and>
     bg_bytes b = sum_list held \<and> (held = [] \<longrightarrow> b = newInFlightBudget maxConns maxBytes)"
proof -
  have "budget_ok (b, held)" using assms by (intro budget_steps_ok [OF assms(5)] newInFlightBudget_ok) auto
  moreover have "bg_maxConns b = maxConns" "bg_maxBytes b = maxBytes"
    using budget_steps_limits [OF assms(5)] assms(1,3) by (auto simp: newInFlightBudget_def)
  ultimately show ?thesis using assms(1,3) by (auto simp: budget_ok_def newInFlightBudget_def)
qed

theorem budget_never_exceeded_witness:
  "bg_conns (snd (acquire 100 (newInFlightBudget 2 150))) = 1 \<and> \<not> fst (acquire 51 (snd (acquire 100 (newInFlightBudget 2 150))))"
proof -
  have "acquire 100 (newInFlightBudget 2 150) = (True, snd (acquire 100 (newInFlightBudget 2 150)))" by code_simp
  then have "budget_step (newInFlightBudget 2 150, []) (snd (acquire 100 (newInFlightBudget 2 150)), [100])"
    by (rule budget_step.grant) (simp_all add: newInFlightBudget_def max_int64_def)
  then have "budget_step\<^sup>*\<^sup>* (newInFlightBudget 2 150, []) (snd (acquire 100 (newInFlightBudget 2 150)), [100])" by (rule r_into_rtranclp)
  from budget_never_exceeded [OF _ _ _ _ this] have "bg_conns (snd (acquire 100 (newInFlightBudget 2 150))) = 1"
    by (simp add: max_int64_def)
  moreover have "\<not> fst (acquire 51 (snd (acquire 100 (newInFlightBudget 2 150))))" by code_simp
  ultimately show ?thesis by simp
qed



end
