(* ===== verification/Heartbeat.thy ===== *)
theory Heartbeat
  imports Heartbeat_Logs Http_Action Protect Policy
begin

text \<open>
  The deadman heartbeat (\<^verbatim>\<open>internal/heartbeat/heartbeat.go\<close>): sampling the gateway's health, building
  and pushing the signal of one target, the metrics and the record of a failed push. A tick of a
  target is a function of the monitor, the store's connection and an environment \<open>tick_env\<close> with
  what the tick cannot determine: clocks, expired contexts, the callbacks, the answer of the remote
  monitor and the faults of the database. The log lines a tick writes are part of its result.
\<close>

section \<open>Data\<close>

datatype Status = StatusPass | StatusFail

fun Status_text :: "Status \<Rightarrow> string" where
  "Status_text StatusPass = ''pass''"
| "Status_text StatusFail = ''fail''"

definition maxResponseBytes :: nat where "maxResponseBytes = 4096"

record Payload =
  py_Host :: string
  py_Status :: Status
  py_ExitCode :: int
  py_Timestamp :: gtime
  py_UptimeSeconds :: int
  py_Revision :: string
  py_Stats :: "queue_stats option"
  py_DropSummary :: string

record TargetMetrics =
  tm_Name :: string
  tm_Mode :: string
  tm_Attempts :: int
  tm_Failures :: int
  tm_LogFailures :: int
  tm_LastAttempt :: int
  tm_LastSuccess :: int
  tm_LastFailure :: int
  tm_LastDurationMS :: int
  tm_LastHTTPStatus :: int
  tm_LastHealth :: "Status option"

record Monitor =
  mo_cfg :: HeartbeatConfig
  mo_has_store :: bool
  mo_has_drops :: bool
  mo_startedAt :: gtime
  mo_revision :: string
  mo_lastSuccess :: int
  mo_metrics :: "TargetMetrics list"
  mo_started :: bool
  mo_canceled :: bool

text \<open>A transport error, as the kinds of error that \<^verbatim>\<open>errors.Is\<close> and \<^verbatim>\<open>errors.As\<close> find in its chain; its text
  may hold credentials and is never looked at.\<close>

record transport_err =
  xe_deadline :: bool
  xe_canceled :: bool
  xe_net_timeout :: bool
  xe_dns :: bool
  xe_tls :: bool
  xe_refused :: bool
  xe_text :: string

text \<open>A response: after its body bytes the read ends, or fails with an error.\<close>

record push_response =
  pr_Status :: int
  pr_Body :: string
  pr_read_err :: "transport_err option"

record tick_env =
  te_now :: gtime
  te_ready_dl :: dl_env
  te_stats_fails :: bool
  te_sample_expired :: bool
  te_ready :: bool
  te_drops :: string
  te_canceled :: bool
  te_attempted :: gtime
  te_marshal :: "Payload \<Rightarrow> string option"
  te_exchange :: "client_request \<Rightarrow> transport_err + push_response"
  te_duration :: duration
  te_completed :: gtime
  te_canceled_after :: bool
  te_canceled_log :: bool
  te_others :: "int list"
  te_log_dl :: dl_env
  te_log_err :: transport_err

datatype hb_line =
  Pushed string string Status
| PushFailed string string string Status int string
| PersistFailed string string string

section \<open>Lifecycle\<close>

definition target_mode :: "HeartbeatTarget \<Rightarrow> HeartbeatTarget" where
  "target_mode t = (if ht_Mode t = [] then t\<lparr>ht_Mode := ''kuma''\<rparr> else t)"

definition new_metrics :: "HeartbeatTarget \<Rightarrow> TargetMetrics" where
  "new_metrics t = \<lparr>tm_Name = ht_Name t, tm_Mode = ht_Mode t, tm_Attempts = 0, tm_Failures = 0, tm_LogFailures = 0,
     tm_LastAttempt = 0, tm_LastSuccess = 0, tm_LastFailure = 0, tm_LastDurationMS = 0, tm_LastHTTPStatus = 0,
     tm_LastHealth = None\<rparr>"

definition NewMonitor :: "HeartbeatConfig \<Rightarrow> bool \<Rightarrow> bool \<Rightarrow> gtime \<Rightarrow> string \<Rightarrow> Monitor" where
  "NewMonitor cfg hasStore hasDrops now revision =
     (let cfg1 = cfg\<lparr>hc_Interval := (if hc_Interval cfg \<le> 0 then Minute else hc_Interval cfg),
                     hc_Timeout := (if hc_Timeout cfg \<le> 0 then 10 * Second else hc_Timeout cfg),
                     hc_Targets := map target_mode (hc_Targets cfg)\<rparr>
      in \<lparr>mo_cfg = cfg1, mo_has_store = hasStore, mo_has_drops = hasDrops, mo_startedAt = now, mo_revision = revision,
          mo_lastSuccess = 0, mo_metrics = map new_metrics (hc_Targets cfg1), mo_started = False, mo_canceled = False\<rparr>)"

definition hb_Start :: "gtime \<Rightarrow> Monitor \<Rightarrow> Monitor" where
  "hb_Start now m = (if mo_started m then m else m\<lparr>mo_started := True, mo_startedAt := now\<rparr>)"

text \<open>\<open>Stop\<close> cancels the target loops of a started monitor and waits for them.\<close>

definition hb_Stop :: "Monitor \<Rightarrow> Monitor" where
  "hb_Stop m = (if mo_started m then m\<lparr>mo_canceled := True\<rparr> else m)"

definition LastSuccess :: "Monitor \<Rightarrow> int" where "LastSuccess m = mo_lastSuccess m"

definition MetricsSnapshot :: "Monitor \<Rightarrow> TargetMetrics list" where "MetricsSnapshot m = mo_metrics m"

section \<open>Sampling\<close>

definition Unix :: "gtime \<Rightarrow> int" where "Unix t = t div Second"

definition trunc_rat :: "rat \<Rightarrow> int" where
  "trunc_rat q = (if q < 0 then - \<lfloor>- q\<rfloor> else \<lfloor>q\<rfloor>)"

definition sample :: "Monitor \<Rightarrow> tick_env \<Rightarrow> conn \<Rightarrow> Payload \<times> conn" where
  "sample m T c =
     (let probe = (if mo_has_store m then withDeadlineWriter (te_ready_dl T) ReadyCheck c else (Inl ErrDB, c));
          c1 = snd probe;
          stats = (if mo_has_store m \<and> \<not> te_stats_fails T then Some (Stats (te_now T) (snd c1)) else None);
          pass = (mo_has_store m \<and> fst probe = Inr () \<and> stats \<noteq> None \<and> \<not> te_sample_expired T \<and> te_ready T)
      in (\<lparr>py_Host = hc_Host (mo_cfg m), py_Status = (if pass then StatusPass else StatusFail),
           py_ExitCode = (if pass then 0 else 1), py_Timestamp = te_now T,
           py_UptimeSeconds = max (trunc_rat (Seconds (time_Sub (te_now T) (mo_startedAt m)))) 0,
           py_Revision = mo_revision m, py_Stats = stats,
           py_DropSummary = (if mo_has_drops m then te_drops T else [])\<rparr>, c1))"

section \<open>Endpoints\<close>

definition TrimRight_slash :: "string \<Rightarrow> string" where
  "TrimRight_slash s = rev (dropWhile (\<lambda>c. c = CHR ''/'') (rev s))"

definition targetEndpoint :: "HeartbeatTarget \<Rightarrow> Status \<Rightarrow> string + string" where
  "targetEndpoint target status =
     (case url_Parse (ht_URL target) of
        None \<Rightarrow> Inl ''invalid heartbeat target URL''
      | Some u0 \<Rightarrow>
          if Hostname u0 = [] \<or> u_HasUser u0 \<or> u_Fragment u0 \<noteq> [] \<or> u_Opaque u0 \<noteq> [] then Inl ''invalid heartbeat target URL''
          else let u = u0\<lparr>u_Scheme := ToLower (u_Scheme u0)\<rparr>; mode = ht_Mode target in
            if u_Scheme u \<noteq> ''https'' \<and> u_Scheme u \<noteq> ''http'' then Inl ''invalid heartbeat target URL scheme''
            else if mode = [] \<or> mode = ''kuma'' then
              (case ParseQuery (u_RawQuery u) of (q, ok) \<Rightarrow>
                 if \<not> ok then Inl ''invalid heartbeat target query''
                 else let q1 = (if status = StatusPass
                                then values_Set (values_Set q ''status'' ''up'') ''msg'' ''OK''
                                else values_Set (values_Set q ''status'' ''down'') ''msg'' ''not ready'')
                      in Inr (url_String (u\<lparr>u_RawQuery := Encode q1\<rparr>)))
            else if mode = ''push'' \<or> mode = ''healthchecks'' then
              (if status = StatusPass then Inr (url_String u)
               else let raw = TrimRight_slash (EscapedPath u) @ ''/fail'' in
                 (case PathUnescape raw of
                    None \<Rightarrow> Inl ''invalid heartbeat target path''
                  | Some p \<Rightarrow> Inr (url_String (u\<lparr>u_RawPath := raw, u_Path := p\<rparr>))))
            else if mode = ''json'' then Inr (url_String u)
            else Inl ''invalid heartbeat target mode'')"

definition safeErrorClass :: "transport_err \<Rightarrow> string" where
  "safeErrorClass e =
     (if xe_deadline e then ''timeout''
      else if xe_canceled e then ''canceled''
      else if xe_net_timeout e then ''timeout''
      else if xe_dns e then ''DNS lookup failed''
      else if xe_tls e then ''TLS verification failed''
      else if xe_refused e then ''connection refused''
      else ''operation failed'')"

definition hb_auditURLTarget :: "string \<Rightarrow> string" where
  "hb_auditURLTarget raw =
     (case url_Parse raw of
        None \<Rightarrow> ''invalid-url''
      | Some u \<Rightarrow>
          if Hostname u = [] \<or> u_Opaque u \<noteq> [] then ''invalid-url''
          else let scheme = ToLower (u_Scheme u) in
            if scheme \<noteq> ''http'' \<and> scheme \<noteq> ''https'' then ''invalid-url'' else scheme @ ''://'' @ u_Host u)"

section \<open>Pushing\<close>

text \<open>The answer to a push: the status code and the error, if the push was not accepted. A Kuma
  monitor answers with a JSON object, of which at most 4 KiB are read.\<close>

definition unmarshalOK :: "string \<Rightarrow> bool option" where
  "unmarshalOK = Unmarshal (decode_struct [''ok''] (\<lambda>f v ok. decode_bool ok v)) False"

definition push_verdict :: "string \<Rightarrow> push_response \<Rightarrow> int \<times> string option" where
  "push_verdict mode resp =
     (let code = pr_Status resp; readErr = map_option safeErrorClass (pr_read_err resp) in
      if code < 200 \<or> code \<ge> 300 then (code, Some (''unexpected HTTP status '' @ Itoa code))
      else if mode = ''kuma'' \<or> mode = [] then
        (if readErr \<noteq> None \<and> length (pr_Body resp) \<le> maxResponseBytes then (code, readErr)
         else if length (pr_Body resp) > maxResponseBytes then (code, Some ''Kuma response exceeds size limit'')
         else (case unmarshalOK (pr_Body resp) of
                 None \<Rightarrow> (code, Some ''invalid Kuma response'')
               | Some False \<Rightarrow> (code, Some ''Kuma rejected heartbeat'')
               | Some True \<Rightarrow> (code, None)))
      else if readErr \<noteq> None \<and> length (pr_Body resp) < maxResponseBytes then (code, readErr)
      else (code, None))"

definition push_request :: "HeartbeatTarget \<Rightarrow> string \<Rightarrow> url \<Rightarrow> string \<Rightarrow> client_request" where
  "push_request target endpoint u body =
     (let h = header_Set [] ''Content-Type'' ''application/json''
      in \<lparr>cr_Method = ''POST'', cr_URL = endpoint, cr_parsed = u,
          cr_Header = (if ht_Token target \<noteq> [] then header_Set h ''X-Heartbeat-Token'' (ht_Token target) else h),
          cr_Body = body\<rparr>)"

definition pushTarget :: "tick_env \<Rightarrow> HeartbeatTarget \<Rightarrow> Payload \<Rightarrow> (int \<times> string option) \<times> client_request option" where
  "pushTarget T target payload =
     (case targetEndpoint target (py_Status payload) of
        Inl e \<Rightarrow> ((0, Some e), None)
      | Inr endpoint \<Rightarrow>
          (case te_marshal T payload of
             None \<Rightarrow> ((0, Some ''invalid heartbeat payload''), None)
           | Some body \<Rightarrow>
               (case url_Parse endpoint of
                  None \<Rightarrow> ((0, Some ''invalid heartbeat request''), None)
                | Some u \<Rightarrow>
                    (let req = push_request target endpoint u body
                     in case te_exchange T req of
                          Inl e \<Rightarrow> ((0, Some (safeErrorClass e)), Some req)
                        | Inr resp \<Rightarrow> (push_verdict (ht_Mode target) resp, Some req)))))"

text \<open>The compare-and-swap loop on the aggregate time of success. \<open>others\<close> are the values that the
  workers of other targets store between a read and the swap that follows it.\<close>

fun advance :: "int \<Rightarrow> int list \<Rightarrow> int \<Rightarrow> int" where
  "advance completed [] current = (if completed > current then completed else current)"
| "advance completed (v # others) current =
     (if completed > current
      then if max current v = current then completed else advance completed others (max current v)
      else current)"

definition update_metrics :: "nat \<Rightarrow> (TargetMetrics \<Rightarrow> TargetMetrics) \<Rightarrow> Monitor \<Rightarrow> Monitor" where
  "update_metrics i f m = m\<lparr>mo_metrics := (mo_metrics m)[i := f (mo_metrics m ! i)]\<rparr>"

definition failed_entry :: "HeartbeatTarget \<Rightarrow> Payload \<Rightarrow> string \<Rightarrow> int \<Rightarrow> int \<Rightarrow> gtime \<Rightarrow> HeartbeatLog" where
  "failed_entry target payload err httpStatus durationMS completed =
     \<lparr>hl_ID = 0, hl_Target = ht_Name target, hl_Origin = hb_auditURLTarget (ht_URL target), hl_Mode = ht_Mode target,
      hl_Health = Status_text (py_Status payload), hl_Error = err, hl_HTTPStatus = httpStatus, hl_DurationMS = durationMS,
      hl_CreatedAt = Some completed\<rparr>"

definition started_attempt :: "tick_env \<Rightarrow> Payload \<Rightarrow> TargetMetrics \<Rightarrow> TargetMetrics" where
  "started_attempt T payload t =
     t\<lparr>tm_Attempts := wrap_u64 (tm_Attempts t + 1), tm_LastAttempt := Unix (te_attempted T), tm_LastHealth := Some (py_Status payload)\<rparr>"

definition finished_attempt :: "tick_env \<Rightarrow> int \<Rightarrow> string option \<Rightarrow> TargetMetrics \<Rightarrow> TargetMetrics" where
  "finished_attempt T httpStatus err t =
     (let t1 = t\<lparr>tm_LastDurationMS := Milliseconds (te_duration T), tm_LastHTTPStatus := httpStatus\<rparr> in
      if err = None then t1\<lparr>tm_LastSuccess := Unix (te_completed T)\<rparr>
      else if \<not> te_canceled_after T
      then t1\<lparr>tm_Failures := wrap_u64 (tm_Failures t1 + 1), tm_LastFailure := Unix (te_completed T)\<rparr>
      else t1)"

definition deliver ::
  "tick_env \<Rightarrow> nat \<Rightarrow> Payload \<Rightarrow> Monitor \<times> conn \<Rightarrow> (client_request option \<times> hb_line list) \<times> (Monitor \<times> conn)" where
  "deliver T i payload s =
     (let (m, c) = s in
      if te_canceled T then ((None, []), s)
      else let target = hc_Targets (mo_cfg m) ! i;
               ((httpStatus, err), req) = pushTarget T target payload;
               m1 = update_metrics i (finished_attempt T httpStatus err \<circ> started_attempt T payload) m
        in case err of
             None \<Rightarrow>
               ((req, [Pushed (ht_Name target) (ht_Mode target) (py_Status payload)]),
                (m1\<lparr>mo_lastSuccess := advance (Unix (te_completed T)) (te_others T) (mo_lastSuccess m1)\<rparr>, c))
           | Some e \<Rightarrow>
               if te_canceled_after T \<or> te_canceled_log T then ((req, []), (m1, c))
               else
                 (let origin = hb_auditURLTarget (ht_URL target);
                      line = PushFailed (ht_Name target) origin (ht_Mode target) (py_Status payload) httpStatus e;
                      entry = failed_entry target payload e httpStatus (Milliseconds (te_duration T)) (te_completed T);
                      saved = (if mo_has_store m then SaveHeartbeatError (te_log_dl T) (te_completed T) entry c else (Inl ErrDB, c))
                  in case fst saved of
                       Inr _ \<Rightarrow> ((req, [line]), (m1, snd saved))
                     | Inl _ \<Rightarrow>
                         ((req, [line, PersistFailed (ht_Name target) origin
                                   (if mo_has_store m then safeErrorClass (te_log_err T) else ''operation failed'')]),
                          (update_metrics i (\<lambda>t. t\<lparr>tm_LogFailures := wrap_u64 (tm_LogFailures t + 1)\<rparr>) m1, snd saved))))"

definition tickTarget ::
  "tick_env \<Rightarrow> nat \<Rightarrow> Monitor \<times> conn \<Rightarrow> (client_request option \<times> hb_line list) \<times> (Monitor \<times> conn)" where
  "tickTarget T i s =
     (let (payload, c1) = sample (fst s) T (snd s) in deliver T i payload (fst s, c1))"

text \<open>What the loop of a target receives: a tick of its ticker or the end of its context.\<close>

fun targetLoop ::
  "nat \<Rightarrow> tick_env option list \<Rightarrow> Monitor \<times> conn \<Rightarrow> (client_request option \<times> hb_line list) list \<times> (Monitor \<times> conn)" where
  "targetLoop i [] s = ([], s)"
| "targetLoop i (None # _) s = ([], s)"
| "targetLoop i (Some T # rest) s =
     (let (out, s1) = tickTarget T i s; (outs, s2) = targetLoop i rest s1 in (out # outs, s2))"

section \<open>Properties\<close>

definition push_errors :: "string list" where
  "push_errors = [''invalid heartbeat target URL'', ''invalid heartbeat target URL scheme'', ''invalid heartbeat target query'',
     ''invalid heartbeat target path'', ''invalid heartbeat target mode'', ''invalid heartbeat payload'', ''invalid heartbeat request'',
     ''timeout'', ''canceled'', ''DNS lookup failed'', ''TLS verification failed'', ''connection refused'', ''operation failed'',
     ''Kuma response exceeds size limit'', ''invalid Kuma response'', ''Kuma rejected heartbeat'']"

definition classified :: "string \<Rightarrow> bool" where
  "classified e \<longleftrightarrow> e \<in> set push_errors \<or> (\<exists>n. e = ''unexpected HTTP status '' @ Itoa n)"

lemma classified_fixed: "e \<in> set push_errors \<Longrightarrow> classified e"
  by (simp add: classified_def)

lemma safeErrorClass_classified: "classified (safeErrorClass e)"
  by (rule classified_fixed) (simp add: safeErrorClass_def push_errors_def)

lemma targetEndpoint_classified: "targetEndpoint target status = Inl e \<Longrightarrow> classified e"
  by (rule classified_fixed)
     (auto simp: targetEndpoint_def push_errors_def Let_def split: option.splits if_splits prod.splits)

lemma push_verdict_classified: "push_verdict mode resp = (code, Some e) \<Longrightarrow> classified e"
proof -
  assume v: "push_verdict mode resp = (code, Some e)"
  have "e = ''unexpected HTTP status '' @ Itoa code \<or> (\<exists>x. e = safeErrorClass x) \<or> e \<in> set push_errors"
    using v by (auto simp: push_verdict_def push_errors_def Let_def split: if_splits option.splits bool.splits)
  then show ?thesis using safeErrorClass_classified by (auto simp: classified_def)
qed

lemma pushTarget_classified: "pushTarget T target payload = ((code, Some e), req) \<Longrightarrow> classified e"
  using targetEndpoint_classified push_verdict_classified safeErrorClass_classified
    classified_fixed [of "''invalid heartbeat payload''"] classified_fixed [of "''invalid heartbeat request''"]
  by (auto simp: pushTarget_def push_errors_def Let_def split: sum.splits option.splits)

lemma advance_ge: "current \<le> advance completed others current \<and> completed \<le> advance completed others current"
  by (induction completed others current rule: advance.induct) (auto simp: max_def split: if_splits)

text \<open>The tables that hold events are not touched by a tick.\<close>

lemma withDeadlineWriter_db:
  assumes "withDeadlineWriter E w (busy, d) = (r, busy', d')"
  shows "d' = d \<or> d' = snd (w d)" and "r = Inr x \<Longrightarrow> d' = snd (w d)"
  using assms by (auto simp: withDeadlineWriter_def with_fault_def Let_def split: if_splits option.splits fault.splits)

lemma SaveHeartbeatError_events:
  "SaveHeartbeatError E now entry (busy, d) = (r, busy', d') \<Longrightarrow> db_events d' = db_events d \<and> db_event_actions d' = db_event_actions d"
  using withDeadlineWriter_db(1) [of E "insert_heartbeat (heartbeat_entry now entry)" busy d r busy' d']
  by (auto simp: SaveHeartbeatError_def insert_heartbeat_def)

lemma double_not_one: "2 * (n :: int) \<noteq> 1"
  by presburger

lemma sample_effect:
  assumes "sample m T (busy, d) = (payload, busy', d')"
  shows "db_events d' = db_events d \<and> db_event_actions d' = db_event_actions d"
    and "py_Status payload = StatusPass \<Longrightarrow> db_ready_check d' \<noteq> db_ready_check d \<and> te_ready T \<and> py_Stats payload = Some (Stats (te_now T) d')"
proof -
  obtain r b1 d1 where w: "withDeadlineWriter (te_ready_dl T) ReadyCheck (busy, d) = (r, b1, d1)" by (metis prod.exhaust)
  have d': "d' = (if mo_has_store m then d1 else d)" using assms w by (auto simp: sample_def Let_def)
  then show "db_events d' = db_events d \<and> db_event_actions d' = db_event_actions d"
    using withDeadlineWriter_db(1) [OF w] by (auto simp: ReadyCheck_def)
  assume "py_Status payload = StatusPass"
  then have "mo_has_store m" "r = Inr ()" "\<not> te_stats_fails T" "te_ready T"
    using assms w by (auto simp: sample_def Let_def split: if_splits)
  with withDeadlineWriter_db(2) [OF w] d' assms w
  show "db_ready_check d' \<noteq> db_ready_check d \<and> te_ready T \<and> py_Stats payload = Some (Stats (te_now T) d')"
    by (auto simp: sample_def Let_def ReadyCheck_def double_not_one split: option.splits)
qed

fun line_ok :: "HeartbeatTarget \<Rightarrow> hb_line \<Rightarrow> bool" where
  "line_ok t (Pushed n md st) = (n = ht_Name t \<and> md = ht_Mode t)"
| "line_ok t (PushFailed n origin md st code e) =
     (n = ht_Name t \<and> md = ht_Mode t \<and> origin = hb_auditURLTarget (ht_URL t) \<and> classified e)"
| "line_ok t (PersistFailed n origin e) = (n = ht_Name t \<and> origin = hb_auditURLTarget (ht_URL t) \<and> classified e)"

lemma update_metrics_simps [simp]:
  "mo_cfg (update_metrics i f m) = mo_cfg m" "mo_lastSuccess (update_metrics i f m) = mo_lastSuccess m"
  "mo_has_store (update_metrics i f m) = mo_has_store m"
  "mo_metrics (update_metrics i f m) = (mo_metrics m)[i := f (mo_metrics m ! i)]"
  by (simp_all add: update_metrics_def)

lemma deliver_effect:
  assumes "deliver T i payload (m, busy, d) = ((req, lines), (m', busy', d'))"
  shows "list_all (line_ok (hc_Targets (mo_cfg m) ! i)) lines"
    and "mo_lastSuccess m \<le> mo_lastSuccess m'" "mo_cfg m' = mo_cfg m" "length (mo_metrics m') = length (mo_metrics m)"
    and "j \<noteq> i \<Longrightarrow> mo_metrics m' ! j = mo_metrics m ! j"
    and "db_events d' = db_events d \<and> db_event_actions d' = db_event_actions d"
    and "req = Some r \<Longrightarrow> targetEndpoint (hc_Targets (mo_cfg m) ! i) (py_Status payload) = Inr (cr_URL r)"
proof -
  define target where "target = hc_Targets (mo_cfg m) ! i"
  obtain code err rq where p: "pushTarget T target payload = ((code, err), rq)" by (metis prod.exhaust)
  have req: "rq = Some r \<Longrightarrow> targetEndpoint target (py_Status payload) = Inr (cr_URL r)"
    using p by (auto simp: pushTarget_def push_request_def Let_def split: sum.splits option.splits)
  have cl: "classified e" if "err = Some e" for e using pushTarget_classified p that by blast
  have opf: "classified ''operation failed''" by (rule classified_fixed) (simp add: push_errors_def)
  note defs = deliver_def p [unfolded target_def] Let_def
  obtain sr sb sd where sv: "SaveHeartbeatError (te_log_dl T) (te_completed T)
      (failed_entry target payload (case err of Some e \<Rightarrow> e | None \<Rightarrow> []) code (Milliseconds (te_duration T)) (te_completed T))
      (busy, d) = (sr, sb, sd)" by (metis prod.exhaust)
  note ev = SaveHeartbeatError_events [OF sv]
  show "list_all (line_ok (hc_Targets (mo_cfg m) ! i)) lines"
    using assms cl opf safeErrorClass_classified by (auto simp: defs split: if_splits option.splits sum.splits)
  show "mo_lastSuccess m \<le> mo_lastSuccess m'"
    using assms advance_ge by (auto simp: defs split: if_splits option.splits sum.splits)
  show "mo_cfg m' = mo_cfg m" "length (mo_metrics m') = length (mo_metrics m)"
    using assms by (auto simp: defs split: if_splits option.splits sum.splits)
  show "j \<noteq> i \<Longrightarrow> mo_metrics m' ! j = mo_metrics m ! j"
    using assms by (auto simp: defs split: if_splits option.splits sum.splits)
  show "db_events d' = db_events d \<and> db_event_actions d' = db_event_actions d"
    using assms ev sv by (auto simp: defs target_def split: if_splits option.splits sum.splits)
  show "req = Some r \<Longrightarrow> targetEndpoint (hc_Targets (mo_cfg m) ! i) (py_Status payload) = Inr (cr_URL r)"
    using assms req by (auto simp: defs target_def split: if_splits option.splits sum.splits)
qed


definition demo_target :: HeartbeatTarget where
  "demo_target = \<lparr>ht_Name = ''kuma'', ht_URL = ''https://example.com/hook'', ht_Token = [], ht_Mode = [], ht_AllowHTTP = False\<rparr>"

definition demo_hb_cfg :: HeartbeatConfig where
  "demo_hb_cfg = \<lparr>hc_Interval = 0, hc_Timeout = 0, hc_Host = ''host'', hc_Targets = [demo_target]\<rparr>"

definition demo_monitor :: Monitor where
  "demo_monitor = hb_Start 0 (NewMonitor demo_hb_cfg True True 0 [])"

definition demo_probe :: dl_env where
  "demo_probe = \<lparr>dl_conn_fails = False, dl_remaining = Some (10 * Second), dl_pragma_fails = False, dl_restore_fails = False, dl_fault = Fine\<rparr>"

definition demo_refused :: transport_err where
  "demo_refused = \<lparr>xe_deadline = False, xe_canceled = False, xe_net_timeout = False, xe_dns = False, xe_tls = False,
     xe_refused = True, xe_text = ''Post https://example.com/hook?token=x: connection refused''\<rparr>"

definition demo_tick :: tick_env where
  "demo_tick = \<lparr>te_now = 60 * Second, te_ready_dl = demo_probe, te_stats_fails = False, te_sample_expired = False, te_ready = True,
     te_drops = [], te_canceled = False, te_attempted = 60 * Second, te_marshal = (\<lambda>_. Some ''{}''),
     te_exchange = (\<lambda>_. Inl demo_refused), te_duration = Millisecond, te_completed = 60 * Second, te_canceled_after = False,
     te_canceled_log = False, te_others = [], te_log_dl = demo_probe, te_log_err = demo_refused\<rparr>"


end
