(* ===== verification/Auth.thy ===== *)
theory Auth
  imports Config Go_Net
begin

text \<open>
  Authentication of incoming requests (\<^verbatim>\<open>internal/auth\<close>): HMAC signatures, static tokens and the
  dispatch on the configured type. The hexadecimal HMAC-SHA256 of a payload under a secret is the
  argument \<open>mac\<close>. \<open>hmac.Equal\<close> and \<open>subtle.ConstantTimeCompare\<close> decide equality of byte strings.
\<close>

datatype auth_err = ErrUnauthorized | ErrUnsupported

definition deliveryIDFromRequest :: "http_request \<Rightarrow> string" where
  "deliveryIDFromRequest r =
     (let d = TrimSpace (Get r ''X-GitHub-Delivery'') in
      if d = [] then TrimSpace (Get r ''X-Delivery-Id'') else d)"

definition signed_part :: "http_request \<Rightarrow> string \<Rightarrow> string \<Rightarrow> string list" where
  "signed_part r body h =
     (let f = ToLower (TrimSpace h) in
      if f = ''timestamp'' then [TrimSpace (Get r ''X-Webhook-Timestamp'')]
      else if f = ''delivery_id'' then [deliveryIDFromRequest r]
      else if f = ''body'' then [body] else [])"

definition buildHMACPayload :: "string list \<Rightarrow> http_request \<Rightarrow> string \<Rightarrow> string" where
  "buildHMACPayload hs r body =
     (if hs = [] then body else Join [CHR 0x0A] (concat (map (signed_part r body) hs)))"

definition signature_header :: "AuthConfig \<Rightarrow> http_request \<Rightarrow> string" where
  "signature_header ac r =
     TrimPrefix (Get r (if au_Header ac = [] then ''X-Hub-Signature-256'' else au_Header ac)) ''sha256=''"

definition SignHMACHex :: "(string \<Rightarrow> string \<Rightarrow> string) \<Rightarrow> string \<Rightarrow> string \<Rightarrow> string" where
  "SignHMACHex mac secret payload = mac secret payload"

definition verifyHMAC :: "(string \<Rightarrow> string \<Rightarrow> string) \<Rightarrow> AuthConfig \<Rightarrow> http_request \<Rightarrow> string \<Rightarrow> auth_err option" where
  "verifyHMAC mac ac r body =
     (if au_Secret ac = [] then Some ErrUnauthorized
      else let got = signature_header ac r in
        if got = [] then Some ErrUnauthorized
        else let payload = buildHMACPayload (au_SignedHeaders ac) r body; want = mac (au_Secret ac) payload in
          if got \<noteq> want then Some ErrUnauthorized else None)"

definition verifyToken :: "AuthConfig \<Rightarrow> http_request \<Rightarrow> auth_err option" where
  "verifyToken ac r =
     (if au_Secret ac = [] then Some ErrUnauthorized
      else if Get r (if au_Header ac = [] then ''X-Webhook-Token'' else au_Header ac) \<noteq> au_Secret ac
      then Some ErrUnauthorized else None)"

definition Verify :: "(string \<Rightarrow> string \<Rightarrow> string) \<Rightarrow> AuthConfig \<Rightarrow> http_request \<Rightarrow> string \<Rightarrow> auth_err option" where
  "Verify mac ac r body =
     (if au_Type ac = ''none'' then None
      else if au_Type ac = ''hmac'' then verifyHMAC mac ac r body
      else if au_Type ac = ''token'' then verifyToken ac r
      else Some ErrUnsupported)"

section \<open>What a signature covers\<close>

text \<open>A source with bound headers signs the timestamp, the delivery id and the body, in this order.\<close>

definition bound_payload :: "http_request \<Rightarrow> string \<Rightarrow> string" where
  "bound_payload r body =
     TrimSpace (Get r ''X-Webhook-Timestamp'') @ [CHR 0x0A] @ deliveryIDFromRequest r @ [CHR 0x0A] @ body"

lemma buildHMACPayload_bound:
  assumes "map normal_header hs = signed_fields"
  shows "buildHMACPayload hs r body = bound_payload r body"
proof -
  obtain a b c where s: "hs = [a, b, c]"
    using assms by (auto simp: signed_fields_def map_eq_Cons_conv)
  with assms have "normal_header a = ''timestamp''" "normal_header b = ''delivery_id''" "normal_header c = ''body''"
    by (auto simp: signed_fields_def)
  then show ?thesis
    by (simp add: buildHMACPayload_def bound_payload_def signed_part_def s normal_header_def)
qed

lemma split_at_sep:
  "x @ c # y = x' @ c # y' \<Longrightarrow> c \<notin> set x \<Longrightarrow> c \<notin> set x' \<Longrightarrow> x = x' \<and> y = y'"
proof (induction x arbitrary: x')
  case Nil
  then show ?case by (cases x') auto
next
  case (Cons a x)
  then show ?case by (cases x') auto
qed

text \<open>A header value as net/http delivers it: no line feed.\<close>

definition one_line :: "http_request \<Rightarrow> bool" where
  "one_line r \<longleftrightarrow> list_all (\<lambda>(k, vs). list_all (\<lambda>v. CHR 0x0A \<notin> set v) vs) (rq_Header r)"

lemma set_trim_left: "set (trim_left_with encs s) \<subseteq> set s"
proof (induction encs s rule: trim_left_with.induct)
  case (1 encs s)
  show ?case
  proof (cases "find (\<lambda>e. e \<noteq> [] \<and> HasPrefix s e) encs")
    case (Some e)
    with 1 have "s \<noteq> [] \<Longrightarrow> set (trim_left_with encs (drop (length e) s)) \<subseteq> set (drop (length e) s)" by blast
    with Some show ?thesis by (subst trim_left_with.simps) (auto dest: in_set_dropD)
  qed (subst trim_left_with.simps, simp)
qed

lemma set_TrimSpace: "set (TrimSpace s) \<subseteq> set s"
  unfolding TrimSpace_def set_rev by (rule order_trans [OF set_trim_left]) (simp add: set_trim_left)

lemma Get_one_line: "one_line r \<Longrightarrow> CHR 0x0A \<notin> set (Get r k)"
proof -
  assume r: "one_line r"
  show ?thesis
  proof (cases "map_of (rq_Header r) (CanonicalHeaderKey k)")
    case (Some vs)
    then have "\<forall>v \<in> set vs. CHR 0x0A \<notin> set v"
      using r by (auto simp: one_line_def list_all_iff dest!: map_of_SomeD bspec)
    with Some show ?thesis by (cases vs) (auto simp: Get_def header_Get_def)
  qed (simp add: Get_def header_Get_def)
qed

lemma trimmed_one_line: "one_line r \<Longrightarrow> CHR 0x0A \<notin> set (TrimSpace (Get r k))"
  using Get_one_line set_TrimSpace by blast

lemma delivery_one_line: "one_line r \<Longrightarrow> CHR 0x0A \<notin> set (deliveryIDFromRequest r)"
  by (simp add: deliveryIDFromRequest_def Let_def trimmed_one_line)

lemma bound_payload_inj:
  assumes "one_line r" "one_line r'" "bound_payload r body = bound_payload r' body'"
  shows "TrimSpace (Get r ''X-Webhook-Timestamp'') = TrimSpace (Get r' ''X-Webhook-Timestamp'')"
    and "deliveryIDFromRequest r = deliveryIDFromRequest r'" and "body = body'"
proof -
  note ts = split_at_sep [OF assms(3) [unfolded bound_payload_def append_Cons append_Nil]
      trimmed_one_line [OF assms(1)] trimmed_one_line [OF assms(2)]]
  note rest = split_at_sep [OF conjunct2 [OF ts] delivery_one_line [OF assms(1)] delivery_one_line [OF assms(2)]]
  from ts rest show "TrimSpace (Get r ''X-Webhook-Timestamp'') = TrimSpace (Get r' ''X-Webhook-Timestamp'')"
    "deliveryIDFromRequest r = deliveryIDFromRequest r'" "body = body'" by auto
qed

lemma Verify_hmac:
  "au_Type ac = ''hmac'' \<Longrightarrow> Verify mac ac r body = None \<longleftrightarrow>
     au_Secret ac \<noteq> [] \<and> signature_header ac r \<noteq> [] \<and>
     signature_header ac r = mac (au_Secret ac) (buildHMACPayload (au_SignedHeaders ac) r body)"
  by (auto simp: Verify_def verifyHMAC_def Let_def)

lemma Verify_token:
  "au_Type ac = ''token'' \<Longrightarrow> Verify mac ac r body = None \<longleftrightarrow> au_Secret ac \<noteq> [] \<and>
     Get r (if au_Header ac = [] then ''X-Webhook-Token'' else au_Header ac) = au_Secret ac"
  by (auto simp: Verify_def verifyToken_def)

section \<open>Property\<close>

text \<open>C9: A source that signs bound headers accepts a request only with a non-empty secret and the keyed
  digest of its timestamp, delivery id and body; and a signature that was accepted for one request
  is accepted for another only when timestamp, delivery id and body are all the same, or when the
  two payloads are different strings with the same digest under the secret. So a captured signature
  cannot be moved to a fresh timestamp or to another delivery.\<close>

theorem bound_signature_not_transferable:
  assumes "au_Type ac = ''hmac''" "map normal_header (au_SignedHeaders ac) = signed_fields"
    and "one_line r" "one_line r'"
    and "Verify mac ac r body = None" "Verify mac ac r' body' = None"
    and "signature_header ac r' = signature_header ac r"
  shows "au_Secret ac \<noteq> [] \<and> signature_header ac r = mac (au_Secret ac) (bound_payload r body) \<and>
    ((TrimSpace (Get r' ''X-Webhook-Timestamp'') = TrimSpace (Get r ''X-Webhook-Timestamp'') \<and>
      deliveryIDFromRequest r' = deliveryIDFromRequest r \<and> body' = body) \<or>
     (bound_payload r' body' \<noteq> bound_payload r body \<and>
      mac (au_Secret ac) (bound_payload r' body') = mac (au_Secret ac) (bound_payload r body)))"
  using assms bound_payload_inj [of r' r body' body]
  by (auto simp: Verify_hmac buildHMACPayload_bound)

definition demo_hmac_auth :: AuthConfig where
  "demo_hmac_auth = \<lparr>au_Type = ''hmac'', au_Header = [], au_Secret = ''0123456789abcdef'',
     au_SignedHeaders = [''Timestamp'', ''delivery_id'', ''body'']\<rparr>"

abbreviation demo_mac :: "string \<Rightarrow> string \<Rightarrow> string" where
  "demo_mac \<equiv> hmacHex demo_lib"

definition demo_signed :: "string \<Rightarrow> string \<Rightarrow> string \<Rightarrow> http_request" where
  "demo_signed ts delivery body = \<lparr>rq_RemoteAddr = ''192.0.2.1:5000'',
     rq_Header = [(''Content-Type'', [''application/json'']), (''X-Webhook-Timestamp'', [ts]), (''X-Delivery-Id'', [delivery]),
       (''X-Hub-Signature-256'', [''sha256='' @ demo_mac ''0123456789abcdef'' (ts @ [CHR 0x0A] @ delivery @ [CHR 0x0A] @ body)])],
     rq_ContentLength = int (length body), rq_Body = Some (Some body), rq_Query = (\<lambda>_. []), rq_PathValue = (\<lambda>_. ''github'')\<rparr>"

theorem bound_signature_not_transferable_witness:
  "signature_header demo_hmac_auth (demo_signed ''1700000000'' ''d1'' ''{}'')
     = demo_mac ''0123456789abcdef'' (bound_payload (demo_signed ''1700000000'' ''d1'' ''{}'') ''{}'')"
proof -
  have ok: "Verify demo_mac demo_hmac_auth (demo_signed ''1700000000'' ''d1'' ''{}'') ''{}'' = None" by code_simp
  have "map normal_header (au_SignedHeaders demo_hmac_auth) = signed_fields" "au_Type demo_hmac_auth = ''hmac''"
    "au_Secret demo_hmac_auth = ''0123456789abcdef''" by code_simp+
  moreover have "one_line (demo_signed ''1700000000'' ''d1'' ''{}'')"
    by code_simp
  ultimately show ?thesis using bound_signature_not_transferable [OF _ _ _ _ ok ok refl] by simp
qed

end
