(* ===== verification/Go_Format.thy ===== *)
theory Go_Format
  imports Go_Time Go_Json
begin

text \<open>
  Formatting: the civil date of a time in UTC, as package \<^verbatim>\<open>time\<close> computes it, the layout
  \<^verbatim>\<open>20060102T150405.000\<close> of the event ids, and \<^verbatim>\<open>hex.EncodeToString\<close>. \<open>civil_date\<close> is inverse to the
  \<open>Date\<close> of the time parser, and a hexadecimal string determines its bytes.
\<close>

section \<open>Civil dates\<close>

text \<open>The year and the day of the year (from 0) of a day counted from 1970-01-01.\<close>

definition civil_year :: "int \<Rightarrow> int \<times> int" where
  "civil_year days =
     (let d = days + 719162;
          n400 = d div 146097; d1 = d mod 146097;
          n100 = min 3 (d1 div 36524); d2 = d1 - 36524 * n100;
          n4 = d2 div 1461; d3 = d2 mod 1461;
          n = min 3 (d3 div 365)
      in (400 * n400 + 100 * n100 + 4 * n4 + n + 1, d3 - 365 * n))"

fun split_month :: "int list \<Rightarrow> int \<Rightarrow> int \<times> int" where
  "split_month [] d = (1, d + 1)"
| "split_month (n # ns) d = (if d < n \<or> ns = [] then (1, d + 1) else (case split_month ns (d - n) of (m, k) \<Rightarrow> (m + 1, k)))"

definition civil_date :: "int \<Rightarrow> int \<times> int \<times> int" where
  "civil_date days = (let (y, yday) = civil_year days; (m, d) = split_month (month_days y) yday in (y, m, d))"

lemma civil_year_days:
  assumes "civil_year days = (y, k)"
  shows "year_days y + k = days"
proof -
  define d where "d = days + 719162"
  define a where "a = d div 146097"
  define d1 where "d1 = d mod 146097"
  define b where "b = min 3 (d1 div 36524)"
  define d2 where "d2 = d1 - 36524 * b"
  define c where "c = d2 div 1461"
  define d3 where "d3 = d2 mod 1461"
  define e where "e = min 3 (d3 div 365)"
  have "civil_year days = (400 * a + 100 * b + 4 * c + e + 1, d3 - 365 * e)"
    by (simp only: civil_year_def Let_def d_def a_def d1_def b_def d2_def c_def d3_def e_def)
  with assms have y: "y - 1 = 400 * a + (100 * b + (4 * c + e))" and k: "k = d3 - 365 * e" by simp_all
  have d1: "0 \<le> d1" "d1 < 146097" "d = 146097 * a + d1" by (simp_all add: d1_def a_def)
  have b: "0 \<le> b" "b \<le> 3" using d1 by (simp_all add: b_def)
  have d2: "0 \<le> d2" "d2 \<le> 36524" using d1 unfolding d2_def b_def by linarith+
  have c: "0 \<le> c" "c \<le> 24" using d2 unfolding c_def by linarith+
  have d3: "0 \<le> d3" "d3 < 1461" "d2 = 1461 * c + d3" by (simp_all add: d3_def c_def)
  have e: "0 \<le> e" "e \<le> 3" using d3 by (simp_all add: e_def)
  have "(y - 1) div 400 = a" by (rule int_div_pos_eq [where r = "100 * b + (4 * c + e)"]) (use y b c e in linarith)+
  moreover have "(y - 1) div 100 = 4 * a + b" by (rule int_div_pos_eq [where r = "4 * c + e"]) (use y c e in \<open>simp_all add: algebra_simps\<close>)
  moreover have "(y - 1) div 4 = 100 * a + 25 * b + c" by (rule int_div_pos_eq [where r = e]) (use y e in \<open>simp_all add: algebra_simps\<close>)
  ultimately have "year_days y = 365 * (400 * a + 100 * b + 4 * c + e) + (100 * a + 25 * b + c) - (4 * a + b) + a - 719162"
    using y by (simp add: year_days_def Let_def)
  then show ?thesis using k d3(3) d1(3) by (simp add: d2_def d_def)
qed

lemma split_month_sum:
  assumes "split_month ns k = (m, d)" "0 \<le> k"
  shows "1 \<le> m \<and> sum_list (take (nat (m - 1)) ns) + (d - 1) = k \<and> 1 \<le> d"
  using assms
proof (induction ns k arbitrary: m d rule: split_month.induct)
  case (2 n ns k)
  show ?case
  proof (cases "k < n \<or> ns = []")
    case False
    then obtain m' where m': "split_month ns (k - n) = (m', d)" "m = m' + 1" using 2(2) by (auto split: prod.splits)
    with 2(1) [OF False] False have "1 \<le> m' \<and> sum_list (take (nat (m' - 1)) ns) + (d - 1) = k - n \<and> 1 \<le> d" by simp
    moreover from this have "nat m' = Suc (nat (m' - 1))" by linarith
    ultimately show ?thesis using m'(2) by simp
  qed (use 2 in auto)
qed auto

lemma civil_year_nonneg: "0 \<le> snd (civil_year days)"
proof -
  have key: "0 \<le> k - 365 * min 3 (k div 365)" for k :: int
  proof -
    have "365 * min 3 (k div 365) \<le> 365 * (k div 365)" by (rule mult_left_mono) simp_all
    then show ?thesis using mult_div_mod_eq [of 365 k] pos_mod_sign [of 365 k] by linarith
  qed
  show ?thesis by (simp only: civil_year_def Let_def snd_conv key)
qed

lemma civil_date_days: "civil_date days = (y, m, d) \<Longrightarrow> unix_days y m d = days"
  using civil_year_days [of days] civil_year_nonneg [of days]
  by (cases "civil_year days")
     (auto simp: civil_date_def unix_days_def Let_def simp del: split_month.simps split: prod.splits dest!: split_month_sum)

section \<open>The layout of event ids\<close>

definition pad :: "nat \<Rightarrow> int \<Rightarrow> string" where
  "pad width n = (let s = Itoa n in replicate (width - length s) CHR ''0'' @ s)"

text \<open>\<^verbatim>\<open>t.UTC().Format("20060102T150405.000")\<close>, for years that print without a sign; milliseconds are cut
  off, not rounded.\<close>

definition format_id_time :: "gtime \<Rightarrow> string" where
  "format_id_time t =
     (let secs = t div Second; (y, m, d) = civil_date (secs div 86400); s = secs mod 86400
      in pad 4 y @ pad 2 m @ pad 2 d @ ''T'' @ pad 2 (s div 3600) @ pad 2 (s div 60 mod 60) @ pad 2 (s mod 60) @ ''.'' @
         pad 3 (t mod Second div Millisecond))"

lemma format_id_time_examples:
  "map format_id_time [0, 1700000060 * Second + 123999999, -1, 951782400 * Second] =
     [''19700101T000000.000'', ''20231114T221420.123'', ''19691231T235959.999'', ''20000229T000000.000'']"
  by code_simp

section \<open>Hexadecimal strings\<close>

definition hex_EncodeToString :: "string \<Rightarrow> string" where
  "hex_EncodeToString bs = concat (map (\<lambda>c. let n = of_char c :: int in [lower_hex (n div 16), lower_hex (n mod 16)]) bs)"

lemma length_hex: "length (hex_EncodeToString bs) = 2 * length bs"
  by (induction bs) (simp_all add: hex_EncodeToString_def Let_def)

lemma hex_EncodeToString_inj: "hex_EncodeToString a = hex_EncodeToString b \<Longrightarrow> a = b"
proof (induction a arbitrary: b)
  case Nil
  then show ?case using length_hex [of b] length_hex [of "[]"] by simp
next
  case (Cons c cs)
  then obtain c' b' where b: "b = c' # b'" using length_hex [of "c # cs"] length_hex [of b] by (cases b) auto
  have val: "hex_val (lower_hex (of_char x div 16)) = of_char x div 16" "hex_val (lower_hex (of_char x mod 16)) = of_char x mod 16" for x
    using lower_hex_digit of_char_bounds [of x] by auto
  have eq: "lower_hex (of_char c div 16) = lower_hex (of_char c' div 16)" "lower_hex (of_char c mod 16) = lower_hex (of_char c' mod 16)"
    "hex_EncodeToString cs = hex_EncodeToString b'"
    using Cons.prems by (simp_all only: b hex_EncodeToString_def Let_def list.map concat.simps append_Cons append_Nil list.inject)
  have "of_char c div 16 = (of_char c' div 16 :: int)" "of_char c mod 16 = (of_char c' mod 16 :: int)"
    by (subst val(1) [symmetric], subst eq(1), rule val(1)) (subst val(2) [symmetric], subst eq(2), rule val(2))
  then have "16 * (of_char c div 16 :: int) + of_char c mod 16 = 16 * (of_char c' div 16) + of_char c' mod 16" by (simp only:)
  then have "(of_char c :: int) = of_char c'" by (simp only: mult_div_mod_eq)
  moreover have "cs = b'" using eq(3) by (rule Cons.IH)
  ultimately show ?case by (simp add: b)
qed

end
