(* ===== verification/Server.thy ===== *)
theory Server
  imports Auth Protect Heartbeat Queue Logger Go_Format
begin

text \<open>
  The HTTP interface (\<^verbatim>\<open>internal/server/server.go\<close> and \<^verbatim>\<open>observability.go\<close>): the intake of webhooks, the
  health and readiness probes and the management endpoints behind the admin token. A handler is a
  function of the server's configuration, the request, an environment and the state that requests
  share: the four rate limiters, the in-flight budget, the rejection counters, the queue's state with
  the database, and the heartbeat monitor. A reply is a status, headers and a body; a JSON body
  is given as the value that is encoded.
\<close>

section \<open>State\<close>

record Server =
  sr_cfg :: "Config option"
  sr_q :: "Queue option"
  sr_trusted :: trustedNets

record sstate =
  ss_limiter :: rateLimiter
  ss_global :: rateLimiter
  ss_preAuth :: rateLimiter
  ss_ops :: rateLimiter
  ss_budget :: inFlightBudget
  ss_rateRejected :: "int list"
  ss_stopping :: bool
  ss_hb :: "Monitor option"
  ss_busy :: int
  ss_queue :: qstate
  ss_liveWorkers :: int

text \<open>What a request meets: the clock, the iteration order of Go maps, the random bytes and the time of
  the event id, the faults of the store's calls, and the steps of other goroutines while the body is read.\<close>

record req_env =
  rv_lib :: golib
  rv_now :: gtime
  rv_order :: "buckets \<Rightarrow> buckets"
  rv_random :: "string option"
  rv_clock :: gtime
  rv_between :: "sstate \<Rightarrow> sstate"
  rv_fault :: fault
  rv_read_fails :: "nat \<Rightarrow> bool"
  rv_probe :: dl_env
  rv_fmtG9 :: "rat \<Rightarrow> string"

text \<open>The id of an event: the time and eight random bytes, or an error of the random source. Different
  bytes give different ids, whatever the clock says.\<close>

definition newID :: "string option \<Rightarrow> gtime \<Rightarrow> string option" where
  "newID random t =
     (case random of
        None \<Rightarrow> None
      | Some bytes \<Rightarrow> Some (format_id_time t @ ''-'' @ hex_EncodeToString (take 8 bytes)))"

definition rv_newID :: "req_env \<Rightarrow> string option" where
  "rv_newID E = newID (rv_random E) (rv_clock E)"

lemma newID_determines_bytes:
  assumes "newID (Some a) t = newID (Some b) t'" "length a = 8" "length b = 8"
  shows "a = b"
proof -
  have tail: "drop (length (the (newID (Some x) t)) - 16) (the (newID (Some x) t)) = hex_EncodeToString x" if "length x = 8" for x t
    using that by (simp add: newID_def length_hex)
  have "hex_EncodeToString a = hex_EncodeToString b" using tail [OF assms(2), of t] tail [OF assms(3), of t'] assms(1) by simp
  then show ?thesis by (rule hex_EncodeToString_inj)
qed

datatype reply =
  TextReply string
| AcceptedReply string
| EventReply event_meta "action_state list" "action_log_row list"
| RetryReply string int
| StatsReply queue_stats
| HeartbeatReply "HeartbeatLog list"

record response =
  rp_Status :: int
  rp_Header :: header
  rp_Body :: reply

definition http_Error :: "string \<Rightarrow> int \<Rightarrow> response" where
  "http_Error msg code =
     \<lparr>rp_Status = code,
      rp_Header = [(''Content-Type'', [''text/plain; charset=utf-8'']), (''X-Content-Type-Options'', [''nosniff''])],
      rp_Body = TextReply (msg @ [CHR 0x0A])\<rparr>"

definition json_reply :: "int \<Rightarrow> reply \<Rightarrow> response" where
  "json_reply code body = \<lparr>rp_Status = code, rp_Header = [(''Content-Type'', [''application/json''])], rp_Body = body\<rparr>"

definition text_reply :: "string \<Rightarrow> string \<Rightarrow> response" where
  "text_reply ctype body = \<lparr>rp_Status = 200, rp_Header = [(''Content-Type'', [ctype])], rp_Body = TextReply body\<rparr>"

definition ss_db :: "sstate \<Rightarrow> db" where "ss_db s = qs_db (ss_queue s)"

definition set_db :: "db \<Rightarrow> sstate \<Rightarrow> sstate" where
  "set_db d s = s\<lparr>ss_queue := (ss_queue s)\<lparr>qs_db := d\<rparr>\<rparr>"

section \<open>Construction\<close>

text \<open>A validated configuration has finite rates only.\<close>

fun finite_rate :: "float64 \<Rightarrow> rat" where
  "finite_rate (Finite q) = q"
| "finite_rate _ = 0"

definition limiter_of :: "RateLimitConfig \<Rightarrow> rateLimiter" where
  "limiter_of f = newRateLimiter (rl_Burst f) (finite_rate (rl_PerSecond f))"

definition zero_limits :: RateLimitsConfig where
  "zero_limits = (let z = \<lparr>rl_Burst = 0, rl_PerSecond = Finite 0\<rparr>
     in \<lparr>rls_PreAuthPerIP = z, rls_Global = z, rls_SourcePerIP = z, rls_AdminPerIP = z\<rparr>)"

definition NewServer :: "Config option \<Rightarrow> Queue option \<Rightarrow> Server" where
  "NewServer cfg q =
     \<lparr>sr_cfg = map_option (\<lambda>c. if ad_Header (cf_Admin c) = []
                then c\<lparr>cf_Admin := (cf_Admin c)\<lparr>ad_Header := ''Authorization''\<rparr>\<rparr> else c) cfg,
      sr_q = q,
      sr_trusted = parseTrustedProxies (case cfg of None \<Rightarrow> [] | Some c \<Rightarrow> sv_TrustedProxies (cf_Server c))\<rparr>"

definition new_sstate :: "Config option \<Rightarrow> qstate \<Rightarrow> sstate" where
  "new_sstate cfg qst =
     (let rates = WithDefaults (case cfg of None \<Rightarrow> zero_limits | Some c \<Rightarrow> sv_RateLimit (cf_Server c));
          maxInFlight = (case cfg of Some c \<Rightarrow> if sv_MaxInFlight (cf_Server c) > 0 then sv_MaxInFlight (cf_Server c) else 16 | None \<Rightarrow> 16);
          maxBytes = (case cfg of Some c \<Rightarrow> if sv_MaxInFlightBytes (cf_Server c) > 0 then sv_MaxInFlightBytes (cf_Server c) else 33554432
                      | None \<Rightarrow> 33554432)
      in \<lparr>ss_limiter = limiter_of (rls_SourcePerIP rates), ss_global = limiter_of (rls_Global rates),
          ss_preAuth = limiter_of (rls_PreAuthPerIP rates), ss_ops = limiter_of (rls_AdminPerIP rates),
          ss_budget = newInFlightBudget maxInFlight maxBytes, ss_rateRejected = [0, 0, 0, 0], ss_stopping = False,
          ss_hb = None, ss_busy = sqliteBusyTimeoutMS, ss_queue = qst, ss_liveWorkers = 0\<rparr>)"

definition SetStopping :: "sstate \<Rightarrow> sstate" where "SetStopping s = s\<lparr>ss_stopping := True\<rparr>"
definition Stopping :: "sstate \<Rightarrow> bool" where "Stopping s = ss_stopping s"
definition SetHeartbeat :: "Monitor \<Rightarrow> sstate \<Rightarrow> sstate" where "SetHeartbeat m s = s\<lparr>ss_hb := Some m\<rparr>"

text \<open>The queue's worker count and wake-up as the server sees them.\<close>

definition queue_Wake :: "Queue \<Rightarrow> sstate \<Rightarrow> sstate" where
  "queue_Wake q s = s\<lparr>ss_queue := snd (run_state (Wake q) (ss_queue s))\<rparr>"

definition queue_Start :: "Queue \<Rightarrow> sstate \<Rightarrow> sstate" where
  "queue_Start q s = queue_Wake q (s\<lparr>ss_liveWorkers := ss_liveWorkers s + q_workers q\<rparr>)"

definition worker_exit :: "sstate \<Rightarrow> sstate" where
  "worker_exit s = s\<lparr>ss_liveWorkers := ss_liveWorkers s - 1\<rparr>"

definition Ready :: "sstate \<Rightarrow> bool" where
  "Ready s \<longleftrightarrow> \<not> qs_stopped (ss_queue s) \<and> ss_liveWorkers s > 0"

definition rejectRate :: "nat \<Rightarrow> sstate \<Rightarrow> response \<times> sstate" where
  "rejectRate layer s =
     (http_Error ''rate limit exceeded'' 429,
      s\<lparr>ss_rateRejected := (ss_rateRejected s)[layer := wrap_u64 (ss_rateRejected s ! layer + 1)]\<rparr>)"

section \<open>Probes\<close>

definition health :: response where "health = text_reply ''text/plain; charset=utf-8'' ''ok''"

definition ready :: "req_env \<Rightarrow> Server \<Rightarrow> sstate \<Rightarrow> response \<times> sstate" where
  "ready E S s =
     (if ss_stopping s then (http_Error ''stopping'' 503, s)
      else if sr_q S = None \<or> \<not> Ready s then (http_Error ''workers not ready'' 503, s)
      else case withDeadlineWriter (rv_probe E) ReadyCheck (ss_busy s, ss_db s) of
        (r, busy, d) \<Rightarrow>
          (let s1 = set_db d (s\<lparr>ss_busy := busy\<rparr>) in
           case r of Inl _ \<Rightarrow> (http_Error ''store not ready'' 503, s1) | Inr _ \<Rightarrow> (health, s1)))"

section \<open>Intake\<close>

definition maxBodyBytes :: nat where "maxBodyBytes = 1048576"
definition defaultReplaySkew :: duration where "defaultReplaySkew = 5 * Minute"
definition defaultReplayTTL :: duration where "defaultReplayTTL = 10 * Minute"
definition maxDeliveryIDLength :: nat where "maxDeliveryIDLength = 128"

definition isJSONContentType :: "string \<Rightarrow> bool" where
  "isJSONContentType value0 =
     (let value = ToLower (TrimSpace value0); media = TrimSpace (hd (Split CHR '';'' value)) in
      value \<noteq> [] \<and> (media = ''application/json'' \<or> HasSuffix media ''+json''))"

definition delivery_char :: "char \<Rightarrow> bool" where
  "delivery_char c \<longleftrightarrow> ident_char c \<or> c = CHR ''.'' \<or> c = CHR '':'' \<or> c = CHR ''-''"

definition validateDeliveryID :: "string \<Rightarrow> bool" where
  "validateDeliveryID i \<longleftrightarrow> length i \<le> maxDeliveryIDLength \<and> i \<noteq> [] \<and> list_all delivery_char i"

datatype replay_err = errInvalidTimestamp | errStaleTimestamp

definition validateReplayHeaders :: "http_request \<Rightarrow> gtime \<Rightarrow> duration \<Rightarrow> replay_err option" where
  "validateReplayHeaders r t skew =
     (let raw = TrimSpace (Get r ''X-Webhook-Timestamp'') in
      if raw = [] then Some errInvalidTimestamp
      else case ParseInt raw of
        None \<Rightarrow> Some errInvalidTimestamp
      | Some seconds \<Rightarrow>
          (let stamp = seconds * Second
           in if stamp < t - skew \<or> stamp > t + skew then Some errStaleTimestamp else None))"

text \<open>Up to the budget: source, media type, per-address limit and declared size. The result is the
  source, the client address and the reserved bytes.\<close>

definition reserve_of :: "http_request \<Rightarrow> int" where
  "reserve_of r = (if rq_ContentLength r > 0 then rq_ContentLength r else int maxBodyBytes)"

definition admit :: "req_env \<Rightarrow> Server \<Rightarrow> http_request \<Rightarrow> sstate \<Rightarrow> (response + (Source \<times> string)) \<times> sstate" where
  "admit E S r s =
     (case Option.bind (sr_cfg S) (\<lambda>c. SourceByName c (rq_PathValue r ''source'')) of
        None \<Rightarrow> (Inl (http_Error ''unknown source'' 404), s)
      | Some src \<Rightarrow>
          if \<not> isJSONContentType (Get r ''Content-Type'') then (Inl (http_Error ''unsupported media type'' 415), s)
          else
            (let ip = clientIP r (sr_trusted S);
                 (ok, lim) = allow (rv_order E) ip (rv_now E) (ss_preAuth s);
                 s1 = s\<lparr>ss_preAuth := lim\<rparr>
             in if \<not> ok then (let (resp, s2) = rejectRate 0 s1 in (Inl resp, s2))
                else if rq_ContentLength r > int maxBodyBytes then (Inl (http_Error ''request body too large'' 413), s1)
                else (case acquire (reserve_of r) (ss_budget s1) of
                        (False, b) \<Rightarrow> (Inl (http_Error ''server busy'' 503), s1\<lparr>ss_budget := b\<rparr>)
                      | (True, b) \<Rightarrow> (Inr (src, ip), s1\<lparr>ss_budget := b\<rparr>))))"

text \<open>The checks of an authenticated request that need no state; the result is the delivery id.\<close>

definition check_request :: "gtime \<Rightarrow> Source \<Rightarrow> http_request \<Rightarrow> string \<Rightarrow> response + string" where
  "check_request t src r body =
     (let deliveryID = deliveryIDFromRequest r; tsHeader = TrimSpace (Get r ''X-Webhook-Timestamp'') in
      if \<not> jsonValid body then Inl (http_Error ''invalid json'' 400)
      else if deliveryID \<noteq> [] \<and> \<not> validateDeliveryID deliveryID then Inl (http_Error ''invalid delivery id'' 400)
      else if au_Type (src_Auth src) = ''hmac'' \<and> (deliveryID = [] \<or> tsHeader = [])
      then Inl (http_Error ''missing delivery id or timestamp'' 401)
      else if tsHeader \<noteq> [] \<and> validateReplayHeaders r t defaultReplaySkew \<noteq> None
      then Inl (http_Error ''replay rejected'' 401)
      else Inr deliveryID)"

definition save_event ::
  "golib \<Rightarrow> gtime \<Rightarrow> Config option \<Rightarrow> Source \<Rightarrow> string \<Rightarrow> string \<Rightarrow> string \<Rightarrow> string \<Rightarrow> string \<Rightarrow> unit op" where
  "save_event L t cfg src eid ip body deliveryID actionsJSON =
     (let bodyHash = sha256hex L body; configHash = ConfigHash L cfg in
      if au_Type (src_Auth src) = ''hmac''
      then SavePendingEventGuarded eid (src_Name src) ip body t deliveryID bodyHash configHash actionsJSON (t + defaultReplayTTL)
      else SavePendingEvent eid (src_Name src) ip body t deliveryID bodyHash configHash actionsJSON)"

definition save_error :: "store_err \<Rightarrow> response" where
  "save_error e =
     (if e = ErrDuplicateBody then http_Error ''duplicate body'' 409
      else if e = ErrDuplicateEvent then http_Error ''duplicate delivery'' 409
      else http_Error ''save event'' 500)"

definition persist ::
  "req_env \<Rightarrow> Server \<Rightarrow> Source \<Rightarrow> string \<Rightarrow> string \<Rightarrow> string \<Rightarrow> string \<Rightarrow> sstate \<Rightarrow> response \<times> sstate" where
  "persist E S src eid ip body deliveryID s =
     (case SnapshotSource (Some src) of
        Inl _ \<Rightarrow> (http_Error ''save event'' 500, s)
      | Inr actionsJSON \<Rightarrow>
          (case with_fault (rv_fault E) (save_event (rv_lib E) (rv_now E) (sr_cfg S) src eid ip body deliveryID actionsJSON) (ss_db s) of
             (Inl e, d) \<Rightarrow> (save_error e, set_db d s)
           | (Inr _, d) \<Rightarrow>
               (json_reply 202 (AcceptedReply eid),
                (case sr_q S of Some q \<Rightarrow> queue_Wake q (set_db d s) | None \<Rightarrow> set_db d s))))"

text \<open>From the body to the reply, with the budget held.\<close>

definition receive :: "req_env \<Rightarrow> Server \<Rightarrow> http_request \<Rightarrow> Source \<Rightarrow> string \<Rightarrow> sstate \<Rightarrow> response \<times> sstate" where
  "receive E S r src ip s =
     (case ReadLimited r (maxBodyBytes + 1) of
        None \<Rightarrow> (http_Error ''read body'' 400, s)
      | Some body \<Rightarrow>
          if length body > maxBodyBytes then (http_Error ''request body too large'' 413, s)
          else (case rv_newID E of
             None \<Rightarrow> (http_Error ''internal error'' 500, s)
           | Some eid \<Rightarrow>
               if Verify (hmacHex (rv_lib E)) (src_Auth src) r body \<noteq> None then (http_Error ''unauthorized'' 401, s)
               else
                 (let (ok1, lim) = allow (rv_order E) (rq_PathValue r ''source'' @ ''|'' @ ip) (rv_now E) (ss_limiter s);
                      s1 = s\<lparr>ss_limiter := lim\<rparr>
                  in if \<not> ok1 then rejectRate 2 s1
                     else
                       (let (ok2, glob) = allow (rv_order E) ''global'' (rv_now E) (ss_global s1);
                            s2 = s1\<lparr>ss_global := glob\<rparr>
                        in if \<not> ok2 then rejectRate 1 s2
                           else (case check_request (rv_now E) src r body of
                                   Inl resp \<Rightarrow> (resp, s2)
                                 | Inr deliveryID \<Rightarrow> persist E S src eid ip body deliveryID s2)))))"

definition release_budget :: "int \<Rightarrow> sstate \<Rightarrow> sstate" where
  "release_budget n s = s\<lparr>ss_budget := release n (ss_budget s)\<rparr>"

definition webhook :: "req_env \<Rightarrow> Server \<Rightarrow> http_request \<Rightarrow> sstate \<Rightarrow> response \<times> sstate" where
  "webhook E S r s =
     (case admit E S r s of
        (Inl resp, s1) \<Rightarrow> (resp, s1)
      | (Inr (src, ip), s1) \<Rightarrow>
          (case receive E S r src ip (rv_between E s1) of
             (resp, s2) \<Rightarrow> (resp, release_budget (reserve_of r) s2)))"

section \<open>Management\<close>

text \<open>\<open>strings.Fields\<close>.\<close>

fun word_prefix :: "string \<Rightarrow> string" where
  "word_prefix [] = []"
| "word_prefix (c # cs) = (if list_ex (HasPrefix (c # cs)) space_encodings then [] else c # word_prefix cs)"

function Fields :: "string \<Rightarrow> string list" where
  "Fields s =
     (let t = trim_left_with space_encodings s; w = word_prefix t
      in if t = [] \<or> w = [] then [] else w # Fields (drop (length w) t))"
  by pat_completeness auto
termination
proof (relation "measure length")
  fix s t w assume "t = trim_left_with space_encodings s" "w = word_prefix t" "\<not> (t = [] \<or> w = [])"
  moreover have "length t \<le> length s" using \<open>t = _\<close> length_trim_left_with by simp
  ultimately have "0 < length t" "0 < length w" "length t \<le> length s" by simp_all
  then show "(drop (length w) t, s) \<in> measure length" by (simp only: in_measure length_drop)
qed simp

declare Fields.simps [simp del]

definition admin_credential :: "AdminConfig \<Rightarrow> http_request \<Rightarrow> string" where
  "admin_credential a r =
     (let got = TrimSpace (Get r (ad_Header a)) in
      if EqualFold (ad_Header a) ''Authorization''
      then (case Fields got of [scheme, token] \<Rightarrow> if EqualFold scheme ''Bearer'' then token else [] | _ \<Rightarrow> [])
      else got)"

definition requireAdmin ::
  "req_env \<Rightarrow> Server \<Rightarrow> AdminConfig \<Rightarrow> (http_request \<Rightarrow> sstate \<Rightarrow> response \<times> sstate) \<Rightarrow> http_request \<Rightarrow> sstate \<Rightarrow> response \<times> sstate" where
  "requireAdmin E S a nxt r s =
     (let (ok, lim) = allow (rv_order E) (clientIP r (sr_trusted S)) (rv_now E) (ss_ops s); s1 = s\<lparr>ss_ops := lim\<rparr> in
      if \<not> ok then rejectRate 3 s1
      else if admin_credential a r \<noteq> ad_Token a
      then (let e = http_Error ''unauthorized'' 401 in e\<lparr>rp_Header := (''Www-Authenticate'', [''Bearer'']) # rp_Header e\<rparr>, s1)
      else nxt r s1)"

definition getEvent :: "req_env \<Rightarrow> http_request \<Rightarrow> sstate \<Rightarrow> response \<times> sstate" where
  "getEvent E r s =
     (let eid = rq_PathValue r ''id'' in
      if rv_read_fails E 0 then (http_Error ''store error'' 500, s)
      else case GetEvent eid (ss_db s) of
        None \<Rightarrow> (http_Error ''not found'' 404, s)
      | Some ev \<Rightarrow>
          if rv_read_fails E 1 \<or> rv_read_fails E 2 then (http_Error ''store error'' 500, s)
          else (json_reply 200 (EventReply ev (ListActionStates eid (ss_db s)) (ListActionLogs eid 20 (ss_db s))), s))"

datatype reason_err = TooLarge | BadJSON | TooLong

definition unmarshalReason :: "string \<Rightarrow> string option" where
  "unmarshalReason = Unmarshal (decode_struct [''reason''] (\<lambda>f v reason. decode_string reason v)) []"

definition readReplayReason :: "http_request \<Rightarrow> reason_err + string" where
  "readReplayReason r =
     (if rq_Body r = None \<or> rq_ContentLength r = 0 then Inr ''manual replay''
      else case ReadLimited r 1025 of
        None \<Rightarrow> Inl TooLarge
      | Some body \<Rightarrow>
          if length body > 1024 then Inl TooLarge
          else if length (TrimSpace body) = 0 then Inr ''manual replay''
          else (case unmarshalReason body of
             None \<Rightarrow> Inl BadJSON
           | Some raw \<Rightarrow>
               (let reason = (if TrimSpace raw = [] then ''manual replay'' else TrimSpace raw)
                in if length reason > 256 then Inl TooLong else Inr reason)))"

definition retryEvent :: "req_env \<Rightarrow> Server \<Rightarrow> http_request \<Rightarrow> sstate \<Rightarrow> response \<times> sstate" where
  "retryEvent E S r s =
     (let eid = rq_PathValue r ''id'' in
      case readReplayReason r of
        Inl _ \<Rightarrow> (http_Error ''invalid replay request'' 400, s)
      | Inr reason \<Rightarrow>
          (case with_fault (rv_fault E) (ReplayDeadEvent eid (RedactSensitive reason) (rv_now E)) (ss_db s) of
             (Inl e, d) \<Rightarrow>
               (http_Error (if e = ErrReplayUnavailable then ''event replay input unavailable'' else ''event not retryable'') 409, set_db d s)
           | (Inr generation, d) \<Rightarrow>
               (json_reply 200 (RetryReply eid generation),
                (case sr_q S of Some q \<Rightarrow> queue_Wake q (set_db d s) | None \<Rightarrow> set_db d s))))"

definition queueStats :: "req_env \<Rightarrow> sstate \<Rightarrow> response \<times> sstate" where
  "queueStats E s =
     (if rv_read_fails E 0 then (http_Error ''store error'' 500, s)
      else (json_reply 200 (StatsReply (Stats (rv_now E) (ss_db s))), s))"

definition heartbeatLogs :: "req_env \<Rightarrow> http_request \<Rightarrow> sstate \<Rightarrow> response \<times> sstate" where
  "heartbeatLogs E r s =
     (let raw = rq_Query r ''limit'';
          limit = (if raw = [] then Some 20
                   else case ParseInt raw of Some n \<Rightarrow> if n < 1 \<or> n > 100 then None else Some n | None \<Rightarrow> None)
      in case limit of
           None \<Rightarrow> (http_Error ''limit must be 1..100'' 400, s)
         | Some n \<Rightarrow>
             if rv_read_fails E 0 then (http_Error ''store error'' 503, s)
             else (json_reply 200 (HeartbeatReply (ListHeartbeatErrors n (ss_db s))), s))"

end
