(* ===== verification/Endpoints.thy ===== *)
theory Endpoints
  imports Server
begin

text \<open>
  The metrics endpoint (\<^verbatim>\<open>metrics\<close> in \<^verbatim>\<open>server.go\<close>, \<^verbatim>\<open>prometheusQuote\<close> and \<^verbatim>\<open>heartbeatMetrics\<close> in
  \<^verbatim>\<open>observability.go\<close>) and the routes of \<^verbatim>\<open>Server.Handler\<close>.
\<close>

section \<open>Metrics\<close>

definition newline :: string where "newline = [CHR 0x0A]"
definition dquote :: string where "dquote = [CHR 0x22]"

definition prometheus_rune :: "rune \<Rightarrow> string" where
  "prometheus_rune r =
     (let b = rune_bytes r in
      if b = [CHR 0x5C] then [CHR 0x5C, CHR 0x5C]
      else if b = [CHR 0x22] then [CHR 0x5C, CHR 0x22]
      else if b = [CHR 0x0A] then [CHR 0x5C, CHR ''n'']
      else if length b = 1 \<and> ((of_char (hd b) :: int) < 32 \<or> of_char (hd b) = (127 :: int)) then RuneError
      else b)"

definition prometheusQuote :: "string \<Rightarrow> string" where
  "prometheusQuote value = dquote @ concat (map prometheus_rune (runes value)) @ dquote"

definition metric_header :: "string \<Rightarrow> string \<Rightarrow> string \<Rightarrow> string" where
  "metric_header name help typ = ''# HELP '' @ name @ '' '' @ help @ newline @ ''# TYPE '' @ name @ '' '' @ typ @ newline"

definition sample_line :: "string \<Rightarrow> (string \<times> string) list \<Rightarrow> string \<Rightarrow> string" where
  "sample_line name labels value =
     name @ (if labels = [] then [] else ''{'' @ Join '','' (map (\<lambda>(k, v). k @ ''='' @ v) labels) @ ''}'') @ '' '' @ value @ newline"

definition quoted_label :: "string \<Rightarrow> string \<Rightarrow> string \<times> string" where
  "quoted_label k v = (k, dquote @ v @ dquote)"

definition stats_metrics :: "(rat \<Rightarrow> string) \<Rightarrow> queue_stats \<Rightarrow> string" where
  "stats_metrics fmt st =
     (let ev = (\<lambda>status n. sample_line ''general_webhook_events'' [quoted_label ''status'' status] (Itoa (int n)));
          ac = (\<lambda>status n. sample_line ''general_webhook_actions'' [quoted_label ''status'' status] (Itoa (int n)));
          att = (\<lambda>w res n. sample_line ''general_webhook_action_attempts'' [quoted_label ''window'' w, quoted_label ''result'' res] (Itoa (int n)));
          ratio = (\<lambda>w q. sample_line ''general_webhook_action_failure_ratio'' [quoted_label ''window'' w] (fmt q))
      in metric_header ''general_webhook_events'' ''Current events by durable state.'' ''gauge'' @
         ev ''pending'' (qs_Pending st) @ ev ''processing'' (qs_Processing st) @ ev ''retrying'' (qs_Retrying st) @
         ev ''dead'' (qs_Dead st) @ ev ''partial'' (qs_Partial st) @ ev ''error'' (qs_Error st) @ ev ''done'' (qs_Done st) @
         ev ''skipped'' (qs_Skipped st) @
         metric_header ''general_webhook_actions'' ''Current actions by durable retry state.'' ''gauge'' @
         ac ''retrying'' (qs_ActionsRetrying st) @ ac ''dead'' (qs_ActionsDead st) @
         metric_header ''general_webhook_action_attempts'' ''Action attempts in a rolling window.'' ''gauge'' @
         att ''5m'' ''all'' (qs_ActionAttempts5M st) @ att ''5m'' ''failure'' (qs_ActionFailures5M st) @
         att ''1h'' ''all'' (qs_ActionAttempts1H st) @ att ''1h'' ''failure'' (qs_ActionFailures1H st) @
         metric_header ''general_webhook_action_failure_ratio'' ''Failed attempts divided by all attempts in a rolling window.'' ''gauge'' @
         ratio ''5m'' (qs_ActionFailureRate5M st) @ ratio ''1h'' (qs_ActionFailureRate1H st) @
         metric_header ''general_webhook_oldest_pending_age_milliseconds'' ''Age of the oldest unfinished event.'' ''gauge'' @
         sample_line ''general_webhook_oldest_pending_age_milliseconds'' [] (Itoa (qs_OldestPendingAgeMS st)))"

text \<open>The rejection counters by source, in the order of the sorted names.\<close>

definition drop_metrics :: "Counters \<Rightarrow> string" where
  "drop_metrics c =
     (let snap = Snapshot c in
      metric_header ''general_webhook_policy_drops_total'' ''Allowlist rejections by configured source and bounded reason.'' ''counter'' @
      concat (map (\<lambda>src. concat (map (\<lambda>(reason, n).
          sample_line ''general_webhook_policy_drops_total'' [(''source'', prometheusQuote src), (''reason'', prometheusQuote reason)] (Itoa n))
          (case map_of snap src of Some reasons \<Rightarrow> reasons | None \<Rightarrow> [])))
        (sort (map fst snap))))"

definition rate_metrics :: "int list \<Rightarrow> string" where
  "rate_metrics counts =
     metric_header ''general_webhook_rate_limit_rejections_total'' ''Requests rejected by rate limit layer.'' ''counter'' @
     concat (map (\<lambda>(i, reason). sample_line ''general_webhook_rate_limit_rejections_total'' [(''layer'', prometheusQuote reason)] (Itoa (counts ! i)))
       (enumerate 0 [''pre_auth_ip'', ''authenticated_global'', ''source_ip'', ''admin_ip'']))"

definition target_metrics :: "TargetMetrics \<Rightarrow> string" where
  "target_metrics t =
     (let line = (\<lambda>name n. sample_line (''general_webhook_heartbeat_target_'' @ name)
            [(''target'', prometheusQuote (tm_Name t)), (''mode'', prometheusQuote (tm_Mode t))] (Itoa n))
      in line ''attempts_total'' (tm_Attempts t) @ line ''failures_total'' (tm_Failures t) @
         line ''log_failures_total'' (tm_LogFailures t) @ line ''last_success_timestamp'' (tm_LastSuccess t) @
         line ''last_duration_milliseconds'' (tm_LastDurationMS t))"

definition heartbeatMetrics :: "Monitor \<Rightarrow> string" where
  "heartbeatMetrics m =
     (let h = (\<lambda>name. metric_header (''general_webhook_heartbeat_target_'' @ name))
      in h ''attempts_total'' ''Push attempts per configured target.'' ''counter'' @
         h ''failures_total'' ''Failed pushes per configured target.'' ''counter'' @
         h ''log_failures_total'' ''Heartbeat errors that could not be persisted.'' ''counter'' @
         h ''last_success_timestamp'' ''Last accepted push per target, including down signals.'' ''gauge'' @
         h ''last_duration_milliseconds'' ''Duration of the last target attempt.'' ''gauge'' @
         concat (map target_metrics (MetricsSnapshot m)))"

definition metrics :: "req_env \<Rightarrow> Server \<Rightarrow> sstate \<Rightarrow> response \<times> sstate" where
  "metrics E S s =
     (if rv_read_fails E 0 then (http_Error ''store error'' 500, s)
      else (text_reply ''text/plain; version=0.0.4; charset=utf-8''
        (stats_metrics (rv_fmtG9 E) (Stats (rv_now E) (ss_db s)) @
         (if sr_q S \<noteq> None then drop_metrics (qs_drops (ss_queue s)) else []) @
         rate_metrics (ss_rateRejected s) @
         (case ss_hb s of
            None \<Rightarrow> []
          | Some m \<Rightarrow>
              metric_header ''general_webhook_heartbeat_last_success_timestamp''
                ''Unix seconds of the last deadman heartbeat push accepted by any target (0 = never).'' ''gauge'' @
              sample_line ''general_webhook_heartbeat_last_success_timestamp'' [] (Itoa (LastSuccess m)) @
              heartbeatMetrics m)), s))"

section \<open>Routes\<close>

text \<open>A request to the multiplexer: its method and the segments of its cleaned path. A GET pattern also
  serves HEAD. The management routes exist only when an admin token is configured.\<close>

datatype route = RHealth | RReady | RWebhook string | RGetEvent string | RRetry string | RStats | RMetrics | RHeartbeatLogs

definition probe_route :: "bool \<Rightarrow> string list \<Rightarrow> route option" where
  "probe_route get segs =
     (if get \<and> segs \<in> {[''healthz''], [''webhook'', ''healthz'']} then Some RHealth
      else if get \<and> segs \<in> {[''readyz''], [''webhook'', ''readyz'']} then Some RReady
      else None)"

definition admin_route :: "bool \<Rightarrow> bool \<Rightarrow> string list \<Rightarrow> route option" where
  "admin_route get post segs =
     (case segs of
        [a, b] \<Rightarrow> if \<not> get then None
                  else if a = ''events'' then Some (RGetEvent b)
                  else if a = ''queue'' \<and> b = ''stats'' then Some RStats
                  else if a = ''heartbeat'' \<and> b = ''logs'' then Some RHeartbeatLogs
                  else None
      | [a] \<Rightarrow> if get \<and> a = ''metrics'' then Some RMetrics else None
      | [a, b, c] \<Rightarrow> if post \<and> a = ''events'' \<and> c = ''retry'' then Some (RRetry b) else None
      | _ \<Rightarrow> None)"

definition webhook_route :: "bool \<Rightarrow> string list \<Rightarrow> route option" where
  "webhook_route post segs =
     (case segs of [a, b] \<Rightarrow> if post \<and> a = ''webhook'' \<and> b \<noteq> [] then Some (RWebhook b) else None | _ \<Rightarrow> None)"

definition admin_of :: "Server \<Rightarrow> AdminConfig option" where
  "admin_of S = (case sr_cfg S of
     Some c \<Rightarrow> if ad_Token (cf_Admin c) \<noteq> [] then Some (cf_Admin c) else None
   | None \<Rightarrow> None)"

definition Handler :: "Server \<Rightarrow> string \<Rightarrow> string list \<Rightarrow> route option" where
  "Handler S httpMethod segs =
     (let get = (httpMethod = ''GET'' \<or> httpMethod = ''HEAD''); post = (httpMethod = ''POST'') in
      case probe_route get segs of
        Some rt \<Rightarrow> Some rt
      | None \<Rightarrow>
          (case webhook_route post segs of
             Some rt \<Rightarrow> Some rt
           | None \<Rightarrow> if admin_of S \<noteq> None then admin_route get post segs else None))"

definition with_path :: "string \<Rightarrow> string \<Rightarrow> http_request \<Rightarrow> http_request" where
  "with_path k v r = r\<lparr>rq_PathValue := (\<lambda>x. if x = k then v else [])\<rparr>"

text \<open>A request without a route: its path is unknown, or known with another method.\<close>

definition not_routed :: "Server \<Rightarrow> string list \<Rightarrow> response" where
  "not_routed S segs =
     (let allowed = (if Handler S ''GET'' segs \<noteq> None then [''GET, HEAD''] else []) @ (if Handler S ''POST'' segs \<noteq> None then [''POST''] else [])
      in if allowed = [] then http_Error ''404 page not found'' 404
         else let e = http_Error ''Method Not Allowed'' 405 in e\<lparr>rp_Header := (''Allow'', [Join '', '' allowed]) # rp_Header e\<rparr>)"

definition guarded ::
  "req_env \<Rightarrow> Server \<Rightarrow> (http_request \<Rightarrow> sstate \<Rightarrow> response \<times> sstate) \<Rightarrow> http_request \<Rightarrow> sstate \<Rightarrow> response \<times> sstate" where
  "guarded E S h r s =
     (case admin_of S of None \<Rightarrow> (http_Error ''404 page not found'' 404, s) | Some a \<Rightarrow> requireAdmin E S a h r s)"

definition serve :: "req_env \<Rightarrow> Server \<Rightarrow> string \<Rightarrow> string list \<Rightarrow> http_request \<Rightarrow> sstate \<Rightarrow> response \<times> sstate" where
  "serve E S httpMethod segs r s =
     (case Handler S httpMethod segs of
        None \<Rightarrow> (not_routed S segs, s)
      | Some RHealth \<Rightarrow> (health, s)
      | Some RReady \<Rightarrow> ready E S s
      | Some (RWebhook name) \<Rightarrow> webhook E S (with_path ''source'' name r) s
      | Some (RGetEvent i) \<Rightarrow> guarded E S (getEvent E) (with_path ''id'' i r) s
      | Some (RRetry i) \<Rightarrow> guarded E S (retryEvent E S) (with_path ''id'' i r) s
      | Some RStats \<Rightarrow> guarded E S (\<lambda>_. queueStats E) r s
      | Some RMetrics \<Rightarrow> guarded E S (\<lambda>_. metrics E S) r s
      | Some RHeartbeatLogs \<Rightarrow> guarded E S (heartbeatLogs E) r s)"

end
