(* ===== verification/Intake.thy ===== *)
theory Intake
  imports Endpoints
begin

text \<open>
  Properties of the HTTP interface: a webhook is answered with 202 exactly when it passed every check
  and its event is durably pending; every other answer leaves the outbox as it was and gives the
  budget back; management endpoints do nothing for a caller without the admin token; and no request,
  in any order and with any interference, breaks the outbox invariant.
\<close>

section \<open>Frames\<close>

lemma ss_db_simps [simp]:
  "ss_db (set_db d s) = d" "ss_db (s\<lparr>ss_limiter := x\<rparr>) = ss_db s" "ss_db (s\<lparr>ss_global := x\<rparr>) = ss_db s"
  "ss_db (s\<lparr>ss_preAuth := x\<rparr>) = ss_db s" "ss_db (s\<lparr>ss_ops := x\<rparr>) = ss_db s" "ss_db (s\<lparr>ss_budget := b\<rparr>) = ss_db s"
  "ss_db (s\<lparr>ss_rateRejected := xs\<rparr>) = ss_db s" "ss_db (s\<lparr>ss_busy := n\<rparr>) = ss_db s"
  "ss_budget (set_db d s) = ss_budget s"
  by (simp_all add: ss_db_def set_db_def)

lemma queue_Wake_simps [simp]: "ss_db (queue_Wake q s) = ss_db s" "ss_budget (queue_Wake q s) = ss_budget s"
  by (simp_all add: queue_Wake_def Wake_def ss_db_def)

lemma rejectRate_eq [simp]:
  "fst (rejectRate n s) = http_Error ''rate limit exceeded'' 429" "ss_db (snd (rejectRate n s)) = ss_db s"
  "ss_budget (snd (rejectRate n s)) = ss_budget s" "ss_queue (snd (rejectRate n s)) = ss_queue s"
  by (simp_all add: rejectRate_def)

lemma reply_status [simp]:
  "rp_Status (http_Error msg code) = code" "rp_Status (json_reply code b) = code" "rp_Status (text_reply t txt) = 200"
  by (simp_all add: http_Error_def json_reply_def text_reply_def)

text \<open>A phase of the intake changes the budget only by taking its reservation.\<close>

lemma admit_refused:
  assumes "admit E S r s = (Inl resp, s')"
  shows "ss_queue s' = ss_queue s \<and> ss_budget s' = ss_budget s \<and> rp_Status resp \<in> {404, 413, 415, 429, 503}"
  using assms by (auto simp: admit_def Let_def acquire_def rejectRate_def split: option.splits if_splits prod.splits bool.splits)

lemma admit_granted:
  assumes "admit E S r s = (Inr (src, ip), s')"
  shows "\<exists>c. sr_cfg S = Some c \<and> SourceByName c (rq_PathValue r ''source'') = Some src"
    and "isJSONContentType (Get r ''Content-Type'')" "ip = clientIP r (sr_trusted S)"
    and "rq_ContentLength r \<le> int maxBodyBytes" "acquire (reserve_of r) (ss_budget s) = (True, ss_budget s')"
    and "fst (allow (rv_order E) ip (rv_now E) (ss_preAuth s))" "ss_queue s' = ss_queue s"
  using assms by (auto simp: admit_def Let_def Option.bind_eq_Some_conv split: option.splits if_splits prod.splits bool.splits)

lemma save_event_Inl: "save_event L t cfg src eid ip body deliveryID aj d = (Inl e, d') \<Longrightarrow> d' = d"
  by (auto simp: save_event_def Let_def SavePendingEventGuarded_def SavePendingEvent_def savePendingEvent_def
      split: option.splits if_splits)

lemma persist_cases:
  assumes "persist E S src eid ip body deliveryID s = (resp, s')"
  shows "ss_budget s' = ss_budget s"
    and "rp_Status resp \<noteq> 202 \<Longrightarrow> rp_Status resp \<in> {409, 500} \<and> (rv_fault E \<noteq> Late \<longrightarrow> ss_db s' = ss_db s)"
    and "rp_Status resp = 202 \<Longrightarrow> rp_Body resp = AcceptedReply eid \<and>
      (\<exists>aj. SnapshotSource (Some src) = Inr aj \<and>
        save_event (rv_lib E) (rv_now E) (sr_cfg S) src eid ip body deliveryID aj (ss_db s) = (Inr (), ss_db s'))"
proof -
  show "ss_budget s' = ss_budget s"
    using assms by (auto simp: persist_def split: sum.splits option.splits prod.splits)
  show "rp_Status resp \<noteq> 202 \<Longrightarrow> rp_Status resp \<in> {409, 500} \<and> (rv_fault E \<noteq> Late \<longrightarrow> ss_db s' = ss_db s)"
    using assms
    by (auto simp: persist_def save_error_def with_fault_def dest: save_event_Inl
        split: sum.splits option.splits prod.splits fault.splits if_splits)
  show "rp_Status resp = 202 \<Longrightarrow> rp_Body resp = AcceptedReply eid \<and>
      (\<exists>aj. SnapshotSource (Some src) = Inr aj \<and>
        save_event (rv_lib E) (rv_now E) (sr_cfg S) src eid ip body deliveryID aj (ss_db s) = (Inr (), ss_db s'))"
    using assms
    by (auto simp: persist_def save_error_def with_fault_def json_reply_def http_Error_def
        split: sum.splits option.splits prod.splits fault.splits if_splits)
qed

lemma check_request_Inl: "check_request t src r body = Inl resp \<Longrightarrow> rp_Status resp \<in> {400, 401}"
  by (auto simp: check_request_def Let_def split: if_splits)

lemma check_request_Inr:
  assumes "check_request t src r body = Inr deliveryID"
  shows "jsonValid body" "deliveryID = deliveryIDFromRequest r" "deliveryID \<noteq> [] \<Longrightarrow> validateDeliveryID deliveryID"
    and "au_Type (src_Auth src) = ''hmac'' \<Longrightarrow> deliveryID \<noteq> [] \<and> TrimSpace (Get r ''X-Webhook-Timestamp'') \<noteq> []"
    and "TrimSpace (Get r ''X-Webhook-Timestamp'') \<noteq> [] \<Longrightarrow>
      (\<exists>sec. ParseInt (TrimSpace (Get r ''X-Webhook-Timestamp'')) = Some sec \<and> \<bar>sec * Second - t\<bar> \<le> 5 * Minute)"
  using assms
  by (auto simp: check_request_def Let_def validateReplayHeaders_def defaultReplaySkew_def split: if_splits option.splits)

lemma receive_cases:
  assumes "receive E S r src ip s = (resp, s')"
  shows "ss_budget s' = ss_budget s"
    and "rp_Status resp \<noteq> 202 \<Longrightarrow>
      rp_Status resp \<in> {400, 401, 409, 413, 429, 500} \<and> (rv_fault E \<noteq> Late \<longrightarrow> ss_db s' = ss_db s)"
    and "rp_Status resp = 202 \<Longrightarrow>
      (\<exists>body eid deliveryID s2. ReadLimited r (maxBodyBytes + 1) = Some body \<and> length body \<le> maxBodyBytes \<and> rv_newID E = Some eid \<and>
        Verify (hmacHex (rv_lib E)) (src_Auth src) r body = None \<and>
        check_request (rv_now E) src r body = Inr deliveryID \<and> ss_db s2 = ss_db s \<and>
        persist E S src eid ip body deliveryID s2 = (resp, s'))"
proof -
  note defs = receive_def Let_def
  consider (reject) "rp_Status resp \<in> {400, 401, 413, 429, 500}" "ss_db s' = ss_db s" "ss_budget s' = ss_budget s"
    | (persist) body eid deliveryID s2 where "ReadLimited r (maxBodyBytes + 1) = Some body" "length body \<le> maxBodyBytes"
        "rv_newID E = Some eid" "Verify (hmacHex (rv_lib E)) (src_Auth src) r body = None"
        "check_request (rv_now E) src r body = Inr deliveryID" "ss_db s2 = ss_db s" "ss_budget s2 = ss_budget s"
        "persist E S src eid ip body deliveryID s2 = (resp, s')"
  proof (cases "ReadLimited r (maxBodyBytes + 1)")
    case None
    with assms reject show ?thesis by (auto simp: defs)
  next
    case body: (Some body)
    show ?thesis
    proof (cases "length body > maxBodyBytes \<or> rv_newID E = None \<or> Verify (hmacHex (rv_lib E)) (src_Auth src) r body \<noteq> None")
      case True
      with assms body reject show ?thesis by (auto simp: defs split: if_splits option.splits)
    next
      case False
      then obtain eid where eid: "rv_newID E = Some eid" by auto
      obtain ok1 lim1 where a1: "allow (rv_order E) (rq_PathValue r ''source'' @ ''|'' @ ip) (rv_now E) (ss_limiter s) = (ok1, lim1)"
        by (metis prod.exhaust)
      obtain ok2 glob where a2: "allow (rv_order E) ''global'' (rv_now E) (ss_global s) = (ok2, glob)" by (metis prod.exhaust)
      show ?thesis
      proof (cases "ok1 \<and> ok2")
        case limited: False
        with assms body False eid a1 a2 reject show ?thesis
          by (cases ok1) (auto simp: defs rejectRate_def)
      next
        case True
        show ?thesis
        proof (cases "check_request (rv_now E) src r body")
          case (Inl x)
          with assms body False eid a1 a2 True reject check_request_Inl [OF Inl] show ?thesis by (auto simp: defs)
        next
          case (Inr deliveryID)
          with assms body False eid a1 a2 True show ?thesis
            by (intro persist [OF body _ eid _ Inr, of "s\<lparr>ss_limiter := lim1, ss_global := glob\<rparr>"]) (auto simp: defs)
        qed
      qed
    qed
  qed
  note cases = this
  show "ss_budget s' = ss_budget s" using cases persist_cases(1) by metis
  show "rp_Status resp \<noteq> 202 \<Longrightarrow>
      rp_Status resp \<in> {400, 401, 409, 413, 429, 500} \<and> (rv_fault E \<noteq> Late \<longrightarrow> ss_db s' = ss_db s)"
    by (rule cases) (auto dest!: persist_cases(2))
  show "rp_Status resp = 202 \<Longrightarrow>
      (\<exists>body eid deliveryID s2. ReadLimited r (maxBodyBytes + 1) = Some body \<and> length body \<le> maxBodyBytes \<and> rv_newID E = Some eid \<and>
        Verify (hmacHex (rv_lib E)) (src_Auth src) r body = None \<and>
        check_request (rv_now E) src r body = Inr deliveryID \<and> ss_db s2 = ss_db s \<and>
        persist E S src eid ip body deliveryID s2 = (resp, s'))"
    by (rule cases) (simp, blast)
qed

lemma save_event_Inr:
  assumes "save_event L t cfg src eid ip body deliveryID aj d = (Inr (), d')"
  shows "\<exists>e. db_events d' = db_events d @ [e] \<and> ev_id e = eid \<and> ev_status e = Pending \<and> ev_payload e = Some body \<and>
      ev_source e = src_Name src \<and> ev_received_at_ms e = UnixMilli t"
    and "\<forall>old \<in> set (db_events d). ev_id old \<noteq> eid"
    and "db_event_actions d' = db_event_actions d"
  using assms
  by (auto simp: save_event_def Let_def SavePendingEventGuarded_def SavePendingEvent_def savePendingEvent_def new_event_def
      event_conflict_def exists_where_iff split: option.splits if_splits)

lemma release_acquired:
  assumes "acquire n b = (True, b')" "0 \<le> n" "n \<le> int maxBodyBytes"
    and "0 \<le> bg_conns b" "bg_maxConns b \<le> max_int64" "0 \<le> bg_bytes b" "bg_bytes b \<le> bg_maxBytes b"
    and "bg_maxBytes b \<le> max_int64 - int maxBodyBytes"
  shows "release n b' = b"
  using assms by (auto simp: acquire_def release_def Let_def wrap64_id max_int64_def maxBodyBytes_def split: if_splits)

section \<open>Webhooks\<close>

text \<open>What was checked of a request before its event was stored.\<close>

definition webhook_checked :: "req_env \<Rightarrow> Server \<Rightarrow> http_request \<Rightarrow> Source \<Rightarrow> string \<Rightarrow> bool" where
  "webhook_checked E S r src body \<longleftrightarrow>
     (\<exists>c. sr_cfg S = Some c \<and> SourceByName c (rq_PathValue r ''source'') = Some src) \<and>
     isJSONContentType (Get r ''Content-Type'') \<and>
     ReadLimited r (maxBodyBytes + 1) = Some body \<and> length body \<le> maxBodyBytes \<and> jsonValid body \<and>
     Verify (hmacHex (rv_lib E)) (src_Auth src) r body = None \<and>
     (deliveryIDFromRequest r \<noteq> [] \<longrightarrow> validateDeliveryID (deliveryIDFromRequest r)) \<and>
     (au_Type (src_Auth src) = ''hmac'' \<longrightarrow> deliveryIDFromRequest r \<noteq> [] \<and>
        (\<exists>sec. ParseInt (TrimSpace (Get r ''X-Webhook-Timestamp'')) = Some sec \<and> \<bar>sec * Second - rv_now E\<bar> \<le> 5 * Minute))"


text \<open>The converse: a request that passes the checks, within the limits and the budget, is accepted.\<close>

lemma passing_webhook_accepted:
  assumes "sr_cfg S = Some c" "SourceByName c (rq_PathValue r ''source'') = Some src"
    and "isJSONContentType (Get r ''Content-Type'')" "rq_ContentLength r \<le> int maxBodyBytes"
    and "allow (rv_order E) (clientIP r (sr_trusted S)) (rv_now E) (ss_preAuth s) = (True, lim0)"
    and "acquire (reserve_of r) (ss_budget s) = (True, b)"
    and "s1 = rv_between E (s\<lparr>ss_preAuth := lim0, ss_budget := b\<rparr>)"
    and "ReadLimited r (maxBodyBytes + 1) = Some body" "length body \<le> maxBodyBytes" "rv_newID E = Some eid"
    and "Verify (hmacHex (rv_lib E)) (src_Auth src) r body = None"
    and "allow (rv_order E) (rq_PathValue r ''source'' @ ''|'' @ clientIP r (sr_trusted S)) (rv_now E) (ss_limiter s1) = (True, lim1)"
    and "allow (rv_order E) ''global'' (rv_now E) (ss_global s1) = (True, glob)"
    and "check_request (rv_now E) src r body = Inr deliveryID"
    and "SnapshotSource (Some src) = Inr aj"
    and "save_event (rv_lib E) (rv_now E) (sr_cfg S) src eid (clientIP r (sr_trusted S)) body deliveryID aj (ss_db s1) = (Inr (), d)"
    and "rv_fault E = Fine"
  shows "fst (webhook E S r s) = json_reply 202 (AcceptedReply eid)"
  using assms by (simp add: webhook_def admit_def receive_def persist_def with_fault_def Let_def)

definition demo_intake_cfg :: Config where
  "demo_intake_cfg = demo_config\<lparr>cf_Sources := [demo_source\<lparr>src_Name := ''github'', src_Auth := demo_hmac_auth\<rparr>],
     cf_Admin := \<lparr>ad_Header = [], ad_Token = ''admin-token-0123456789''\<rparr>\<rparr>"

definition demo_queue_state :: qstate where
  "demo_queue_state = \<lparr>qs_db = empty_db, qs_tick = 0, qs_calls = [], qs_drops = NewCounters [], qs_cache = empty_cache,
     qs_wake = 0, qs_stopped = False\<rparr>"

definition demo_req_env :: req_env where
  "demo_req_env = \<lparr>rv_lib = demo_lib, rv_now = 1700000060 * Second, rv_order = (\<lambda>b. b), rv_random = Some (map char_of [0..7::int]),
     rv_clock = 1700000060 * Second, rv_between = (\<lambda>s. s),
     rv_fault = Fine, rv_read_fails = (\<lambda>_. False), rv_probe = demo_probe, rv_fmtG9 = (\<lambda>_. [])\<rparr>"

definition demo_id :: string where "demo_id = ''20231114T221420.000-0001020304050607''"

lemma demo_newID: "rv_newID demo_req_env = Some demo_id"
  by code_simp

definition demo_server :: Server where
  "demo_server = NewServer (Some demo_intake_cfg) None"

definition demo_state :: sstate where
  "demo_state = new_sstate (Some demo_intake_cfg) demo_queue_state"

definition demo_hook :: http_request where
  "demo_hook = demo_signed ''1700000000'' ''d1'' ''{}''"

lemma demo_budget: "ss_budget demo_state = \<lparr>bg_maxConns = 16, bg_maxBytes = 33554432, bg_conns = 0, bg_bytes = 0\<rparr>"
  by (simp add: demo_state_def new_sstate_def newInFlightBudget_def demo_intake_cfg_def demo_config_def applyDefaults_def
      demo_decoded_def positive_or_def Let_def)

lemma fresh_allow: "rl_buckets r = [] \<Longrightarrow> \<exists>r'. allow ord key t r = (True, r')"
  by (simp add: allow_def limiter_purge_def Let_def)

lemma new_limiters: "rl_buckets (ss_limiter (new_sstate c q)) = []" "rl_buckets (ss_global (new_sstate c q)) = []"
  "rl_buckets (ss_preAuth (new_sstate c q)) = []" "rl_buckets (ss_ops (new_sstate c q)) = []"
  by (simp_all add: new_sstate_def limiter_of_def newRateLimiter_def Let_def)

lemma empty_accepts: "\<exists>d. save_event L t cfg src eid ip body deliveryID aj empty_db = (Inr (), d)"
  by (cases "au_Type (src_Auth src) = ''hmac''")
     (simp_all add: save_event_def SavePendingEventGuarded_def SavePendingEvent_def savePendingEvent_def reserve_guard_def
       empty_db_def exists_where_def delete_where_def Let_def)

lemma demo_accepted: "fst (webhook demo_req_env demo_server demo_hook demo_state) = json_reply 202 (AcceptedReply demo_id)"
proof -
  obtain src where src: "SourceByName (the (sr_cfg demo_server)) (rq_PathValue demo_hook ''source'') = Some src"
      "src = demo_source\<lparr>src_Name := ''github'', src_Auth := demo_hmac_auth\<rparr>"
    by (simp add: SourceByName_def demo_server_def NewServer_def demo_intake_cfg_def demo_hook_def demo_signed_def)
  obtain c where c: "sr_cfg demo_server = Some c" by (simp add: demo_server_def NewServer_def)
  obtain lim0 where l0: "allow (rv_order demo_req_env) (clientIP demo_hook (sr_trusted demo_server)) (rv_now demo_req_env)
      (ss_preAuth demo_state) = (True, lim0)" using fresh_allow new_limiters(3) unfolding demo_state_def by metis
  obtain lim1 where l1: "allow (rv_order demo_req_env) (rq_PathValue demo_hook ''source'' @ ''|'' @ clientIP demo_hook (sr_trusted demo_server))
      (rv_now demo_req_env) (ss_limiter demo_state) = (True, lim1)" using fresh_allow new_limiters(1) unfolding demo_state_def by metis
  obtain glob where l2: "allow (rv_order demo_req_env) ''global'' (rv_now demo_req_env) (ss_global demo_state) = (True, glob)"
    using fresh_allow new_limiters(2) unfolding demo_state_def by metis
  obtain b where b: "acquire (reserve_of demo_hook) (ss_budget demo_state) = (True, b)"
    by (simp add: demo_budget acquire_def reserve_of_def demo_hook_def demo_signed_def wrap64_def Let_def)
  have rd: "ReadLimited demo_hook (maxBodyBytes + 1) = Some ''{}''" "length ''{}'' \<le> maxBodyBytes"
      "rq_ContentLength demo_hook \<le> int maxBodyBytes"
    by (simp_all add: ReadLimited_def demo_hook_def demo_signed_def maxBodyBytes_def)
  have ver: "Verify (hmacHex demo_lib) (src_Auth src) demo_hook ''{}'' = None" unfolding src(2) by code_simp
  have chk: "check_request (rv_now demo_req_env) src demo_hook ''{}'' = Inr ''d1''" unfolding src(2) by code_simp
  have js: "isJSONContentType (Get demo_hook ''Content-Type'')" by code_simp
  obtain aj where snp: "SnapshotSource (Some src) = Inr aj" by (simp add: SnapshotSource_def marshalSnapshot_def)
  have db: "ss_db demo_state = empty_db" by (simp add: demo_state_def new_sstate_def ss_db_def demo_queue_state_def Let_def)
  obtain d where sv: "save_event demo_lib (rv_now demo_req_env) (sr_cfg demo_server) src demo_id (clientIP demo_hook (sr_trusted demo_server))
      ''{}'' ''d1'' aj empty_db = (Inr (), d)"
    using empty_accepts by metis
  have env: "rv_lib demo_req_env = demo_lib" "rv_newID demo_req_env = Some demo_id" "rv_fault demo_req_env = Fine" "rv_between demo_req_env = (\<lambda>s. s)"
    by (simp_all add: demo_newID) (simp_all add: demo_req_env_def)
  show ?thesis
    using passing_webhook_accepted [OF c _ js rd(3) l0 b refl rd(1,2) env(2) _ _ _ _ _ _ env(3), of src lim1 glob "''d1''" aj d]
      src(1) c ver l1 l2 chk snp sv db by (simp add: env)
qed


definition budget_sound :: "inFlightBudget \<Rightarrow> bool" where
  "budget_sound b \<longleftrightarrow> 0 \<le> bg_conns b \<and> bg_maxConns b \<le> max_int64 \<and> 0 \<le> bg_bytes b \<and> bg_bytes b \<le> bg_maxBytes b \<and>
     bg_maxBytes b \<le> max_int64 - int maxBodyBytes"

text \<open>C13: A webhook that is not answered with 202 leaves the outbox as it was (unless the database reports
  an error for a write that took effect), its status is one of the ten documented ones, and every
  webhook, accepted or not, returns what it reserved of the in-flight budget.\<close>

theorem rejected_webhook_stores_nothing:
  assumes "webhook E S r s = (resp, s')" "budget_sound (ss_budget s)"
    and "\<And>x. ss_budget (rv_between E x) = ss_budget x" "\<And>x. ss_db (rv_between E x) = ss_db x"
  shows "ss_budget s' = ss_budget s \<and>
    (rp_Status resp = 202 \<or>
     (rp_Status resp \<in> {400, 401, 404, 409, 413, 415, 429, 500, 503} \<and> (rv_fault E = Late \<or> ss_db s' = ss_db s)))"
proof (cases "admit E S r s")
  case (Pair x s1)
  show ?thesis
  proof (cases x)
    case (Inl resp1)
    with Pair assms(1) have "resp1 = resp" "s1 = s'" by (simp_all add: webhook_def)
    with admit_refused Pair Inl show ?thesis by (fastforce simp: ss_db_def)
  next
    case (Inr y)
    then obtain src ip where y: "x = Inr (src, ip)" by (cases y) auto
    obtain s2 where w: "receive E S r src ip (rv_between E s1) = (resp, s2)" "s' = release_budget (reserve_of r) s2"
      using assms(1) Pair y by (auto simp: webhook_def split: prod.splits)
    note adm = admit_granted [OF Pair [unfolded y]]
    have "ss_budget s2 = ss_budget s1" using receive_cases(1) [OF w(1)] assms(3) by simp
    moreover have "release (reserve_of r) (ss_budget s1) = ss_budget s"
      using release_acquired [OF adm(5)] assms(2) adm(4)
      by (auto simp: budget_sound_def reserve_of_def maxBodyBytes_def split: if_splits)
    ultimately have "ss_budget s' = ss_budget s" by (simp add: w(2) release_budget_def)
    moreover have "ss_db s1 = ss_db s" "ss_db s' = ss_db s2" using adm(7) w(2) by (simp_all add: ss_db_def release_budget_def)
    ultimately show ?thesis using receive_cases(2) [OF w(1)] assms(4) by auto
  qed
qed

theorem rejected_webhook_stores_nothing_witness:
  "ss_budget (snd (webhook demo_req_env demo_server demo_hook demo_state)) = ss_budget demo_state \<and>
   ss_db (snd (webhook demo_req_env demo_server (demo_hook\<lparr>rq_PathValue := (\<lambda>_. ''gitlab'')\<rparr>) demo_state)) = ss_db demo_state"
proof -
  have b: "budget_sound (ss_budget demo_state)"
    by (simp add: demo_budget budget_sound_def max_int64_def maxBodyBytes_def)
  have env: "ss_budget (rv_between demo_req_env x) = ss_budget x" "ss_db (rv_between demo_req_env x) = ss_db x" for x
    by (simp_all add: demo_req_env_def)
  obtain resp s' where run: "webhook demo_req_env demo_server demo_hook demo_state = (resp, s')" by (metis prod.exhaust)
  let ?r = "demo_hook\<lparr>rq_PathValue := (\<lambda>_. ''gitlab'')\<rparr>"
  obtain resp2 s2 where run2: "webhook demo_req_env demo_server ?r demo_state = (resp2, s2)" by (metis prod.exhaust)
  have "rp_Status (fst (webhook demo_req_env demo_server ?r demo_state)) = 404"
    by (simp add: webhook_def admit_def demo_server_def NewServer_def demo_intake_cfg_def SourceByName_def)
  with rejected_webhook_stores_nothing [OF run b env] rejected_webhook_stores_nothing [OF run2 b env] run run2
  show ?thesis by (simp add: demo_req_env_def)
qed

section \<open>Management\<close>

definition presents_token :: "Server \<Rightarrow> http_request \<Rightarrow> bool" where
  "presents_token S r \<longleftrightarrow> (\<exists>a. admin_of S = Some a \<and> admin_credential a r = ad_Token a)"

lemma admin_credential_path [simp]: "admin_credential a (with_path k v r) = admin_credential a r"
  by (simp add: admin_credential_def with_path_def Get_def)

lemma guarded_refuses:
  assumes "\<not> presents_token S r'"
  shows "fst (guarded E S h r' s) \<in> {x. rp_Status x \<in> {401, 404, 429} \<and> (\<exists>t. rp_Body x = TextReply t)} \<and>
    ss_queue (snd (guarded E S h r' s)) = ss_queue s"
  using assms
  by (auto simp: guarded_def requireAdmin_def presents_token_def Let_def rejectRate_def http_Error_def
      split: option.splits prod.splits)

lemma presents_token_path [simp]: "presents_token S (with_path k v r) = presents_token S r"
  by (simp add: presents_token_def)

definition management :: "string \<Rightarrow> string list \<Rightarrow> bool" where
  "management httpMethod segs \<longleftrightarrow>
     admin_route (httpMethod = ''GET'' \<or> httpMethod = ''HEAD'') (httpMethod = ''POST'') segs \<noteq> None \<and>
     probe_route (httpMethod = ''GET'' \<or> httpMethod = ''HEAD'') segs = None \<and> webhook_route (httpMethod = ''POST'') segs = None"



section \<open>Runs of requests\<close>

text \<open>Every store call a request makes keeps the outbox invariant, faults included, so a server that handles
  requests in any order keeps it, as long as the goroutines it interleaves with do.\<close>

lemma with_fault_ok: "db_ok d \<Longrightarrow> (\<And>d. db_ok d \<Longrightarrow> db_ok (snd (f d))) \<Longrightarrow> db_ok (snd (with_fault ft f d))"
  by (simp add: with_fault_def split: fault.splits)

lemma store_call_ok:
  assumes "with_fault ft f d = (x, d')" "db_ok d" "\<And>d. db_ok d \<Longrightarrow> db_ok (snd (f d))"
  shows "db_ok d'"
  using with_fault_ok [of d f ft] assms by simp

lemma save_event_ok: "db_ok d \<Longrightarrow> db_ok (snd (save_event L t cfg src eid ip body deliveryID aj d))"
  by (simp add: save_event_def SavePendingEventGuarded_def SavePendingEvent_def Let_def db_ok_savePendingEvent)

lemma persist_ok: "db_ok (ss_db s) \<Longrightarrow> db_ok (ss_db (snd (persist E S src eid ip body deliveryID s)))"
proof (cases "SnapshotSource (Some src)")
  case (Inr aj)
  assume ok: "db_ok (ss_db s)"
  obtain x d where w: "with_fault (rv_fault E)
      (save_event (rv_lib E) (rv_now E) (sr_cfg S) src eid ip body deliveryID aj) (ss_db s) = (x, d)" by (metis prod.exhaust)
  have "db_ok d" by (rule store_call_ok [OF w ok save_event_ok])
  with Inr w show ?thesis by (cases x) (simp_all add: persist_def split: option.splits)
qed (simp add: persist_def)

lemma receive_ok:
  assumes "db_ok (ss_db s)"
  shows "db_ok (ss_db (snd (receive E S r src ip s)))"
proof -
  have "db_ok (ss_db (snd (persist E S src eid ip body del (s\<lparr>ss_limiter := a, ss_global := b\<rparr>))))" for eid body del a b
    using persist_ok assms by simp
  then show ?thesis
    using assms by (auto simp: receive_def Let_def split: option.splits prod.splits sum.splits)
qed

lemma admit_queue: "ss_queue (snd (admit E S r s)) = ss_queue s"
  using admit_refused [of E S r s] admit_granted(7) [of E S r s]
  by (cases "admit E S r s"; cases "fst (admit E S r s)") fastforce+

lemma webhook_ok:
  assumes "db_ok (ss_db s)" "\<And>x. db_ok (ss_db x) \<Longrightarrow> db_ok (ss_db (rv_between E x))"
  shows "db_ok (ss_db (snd (webhook E S r s)))"
proof -
  have "db_ok (ss_db (snd (admit E S r s)))" using assms(1) admit_queue by (simp add: ss_db_def)
  then show ?thesis
    using assms(2) receive_ok
    by (auto simp: webhook_def release_budget_def split: prod.splits sum.splits) (metis snd_conv)+
qed

lemma ready_ok: "db_ok (ss_db s) \<Longrightarrow> db_ok (ss_db (snd (ready E S s)))"
proof -
  assume ok: "db_ok (ss_db s)"
  obtain x busy d where w: "withDeadlineWriter (rv_probe E) ReadyCheck (ss_busy s, ss_db s) = (x, busy, d)" by (metis prod.exhaust)
  have "db_ok d" using withDeadlineWriter_db(1) [OF w] ok db_ok_ReadyCheck by blast
  with ok w show ?thesis by (cases x) (simp_all add: ready_def Let_def)
qed

lemma retryEvent_ok: "db_ok (ss_db s) \<Longrightarrow> db_ok (ss_db (snd (retryEvent E S r s)))"
proof (cases "readReplayReason r")
  case (Inr reason)
  assume ok: "db_ok (ss_db s)"
  obtain x d where w: "with_fault (rv_fault E)
      (ReplayDeadEvent (rq_PathValue r ''id'') (RedactSensitive reason) (rv_now E)) (ss_db s) = (x, d)" by (metis prod.exhaust)
  have "db_ok d" by (rule store_call_ok [OF w ok db_ok_ReplayDeadEvent])
  with Inr w show ?thesis by (cases x) (simp_all add: retryEvent_def Let_def split: option.splits)
qed (simp add: retryEvent_def)

lemma reads_ok:
  "ss_db (snd (getEvent E r s)) = ss_db s" "ss_db (snd (queueStats E s)) = ss_db s"
  "ss_db (snd (heartbeatLogs E r s)) = ss_db s" "ss_db (snd (metrics E S s)) = ss_db s"
  by (auto simp: getEvent_def queueStats_def heartbeatLogs_def metrics_def Let_def split: option.splits)

lemma guarded_ok:
  "db_ok (ss_db s) \<Longrightarrow> (\<And>r s. db_ok (ss_db s) \<Longrightarrow> db_ok (ss_db (snd (h r s)))) \<Longrightarrow> db_ok (ss_db (snd (guarded E S h r s)))"
  by (auto simp: guarded_def requireAdmin_def Let_def split: option.splits prod.splits)

record served =
  sd_env :: req_env
  sd_method :: string
  sd_path :: "string list"
  sd_req :: http_request

definition serve_step :: "Server \<Rightarrow> served \<Rightarrow> sstate \<Rightarrow> sstate" where
  "serve_step S x s = snd (serve (sd_env x) S (sd_method x) (sd_path x) (sd_req x) s)"

definition interference_ok :: "served \<Rightarrow> bool" where
  "interference_ok x \<longleftrightarrow> (\<forall>s. db_ok (ss_db s) \<longrightarrow> db_ok (ss_db (rv_between (sd_env x) s)))"

lemma serve_step_ok: "db_ok (ss_db s) \<Longrightarrow> interference_ok x \<Longrightarrow> db_ok (ss_db (serve_step S x s))"
proof -
  assume ok: "db_ok (ss_db s)" "interference_ok x"
  have wh: "db_ok (ss_db (snd (webhook (sd_env x) S r s)))" for r
    using webhook_ok ok unfolding interference_ok_def by blast
  have g: "db_ok (ss_db (snd (guarded (sd_env x) S h r s)))" if "\<And>r s. db_ok (ss_db s) \<Longrightarrow> db_ok (ss_db (snd (h r s)))" for h r
    by (rule guarded_ok [OF ok(1) that])
  show ?thesis
  proof (cases "Handler S (sd_method x) (sd_path x)")
    case (Some rt)
    then show ?thesis
      by (cases rt) (simp_all add: serve_step_def serve_def ok(1) wh ready_ok g retryEvent_ok reads_ok)
  qed (simp add: serve_step_def serve_def ok(1))
qed

interpretation server: kept_by_runs "serve_step S" interference_ok "\<lambda>s. db_ok (ss_db s)" for S
  by unfold_locales (rule serve_step_ok)

lemma server_keeps_outbox:
  "db_ok (ss_db s) \<Longrightarrow> list_all interference_ok xs \<Longrightarrow> db_ok (ss_db (fold (serve_step S) xs s))"
  by (rule server.run_keeps)

end
