(* ===== verification/Stored_Vars.thy ===== *)
theory Stored_Vars
  imports Worker
begin

text \<open>
  The variables of an event across passes: the first pass stores them as JSON when it prepares the
  event, every later pass reads them back instead of extracting them again.
\<close>

section \<open>What a later pass reads\<close>

definition decoded_vars :: "gomap \<Rightarrow> gomap" where
  "decoded_vars vars = map (\<lambda>(k, v). (k, utf8_text v)) (sort_key fst vars)"

definition utf8_keys :: "gomap \<Rightarrow> bool" where
  "utf8_keys vars \<longleftrightarrow> distinct (map fst vars) \<and> list_all (\<lambda>(k, v). valid_utf8 k) vars"

lemma utf8_text_is_valid: "valid_utf8 (utf8_text s)"
proof (induction s rule: rune_induct)
  case (Rune s n)
  then show ?case by (simp add: runes_width [OF Rune(1)] utf8_text_def valid_append rune_valid)
next
  case (Invalid c cs)
  moreover have "valid_utf8 RuneError" by code_simp
  ultimately show ?case by (simp add: runes_invalid [OF Invalid(1)] utf8_text_def valid_append)
qed (simp add: utf8_text_def valid_simps)

lemma map_fst_decoded: "map fst (decoded_vars vars) = map fst (sort_key fst vars)"
  by (simp add: decoded_vars_def comp_def case_prod_beta)

lemma decoded_vars_idem: "decoded_vars (decoded_vars vars) = decoded_vars vars"
proof -
  have "sort_key fst (decoded_vars vars) = decoded_vars vars"
    using sorted_sort_key [of fst vars] map_fst_decoded [of vars] by (intro sort_key_id_if_sorted) simp
  then show ?thesis
    by (simp add: decoded_vars_def [of "decoded_vars vars"])
       (simp add: decoded_vars_def utf8_text_valid [OF utf8_text_is_valid] comp_def case_prod_beta)
qed

lemma utf8_keys_decoded: "utf8_keys vars \<Longrightarrow> utf8_keys (decoded_vars vars)"
  by (auto simp: utf8_keys_def map_fst_decoded distinct_map list_all_iff) (auto simp: decoded_vars_def)

lemma marshal_decoded: "utf8_keys vars \<Longrightarrow> marshalVars vars = Some js \<Longrightarrow> unmarshalVars js = Some (Some (decoded_vars vars))"
  using vars_roundtrip [of vars] by (auto simp: utf8_keys_def decoded_vars_def)

lemma marshal_nonempty: "marshalVars vars = Some js \<Longrightarrow> js \<noteq> []"
  by (auto simp: marshalVars_def)

section \<open>What the store keeps\<close>

text \<open>The event is in the table and its row stores variables that decode to \<open>vars\<close>.\<close>

definition encodes :: "gomap \<Rightarrow> string option \<Rightarrow> bool" where
  "encodes vars col \<longleftrightarrow> (\<exists>js. col = Some js \<and> js \<noteq> [] \<and> unmarshalVars js = Some (Some vars))"

definition rows_store :: "string \<Rightarrow> gomap \<Rightarrow> event_row list \<Rightarrow> bool" where
  "rows_store eid vars rows \<longleftrightarrow>
     eid \<in> ev_id ` set rows \<and> (\<forall>e \<in> set rows. ev_id e = eid \<longrightarrow> encodes vars (ev_vars_json e))"

definition stores_vars :: "string \<Rightarrow> gomap \<Rightarrow> db \<Rightarrow> bool" where
  "stores_vars eid vars d \<longleftrightarrow> rows_store eid vars (db_events d) \<and> encodes vars (marshalVars vars)"

text \<open>Calls that keep them: all but a purge and the preparation of the event with other variables.\<close>

fun same_vars :: "string \<Rightarrow> gomap \<Rightarrow> call \<Rightarrow> bool" where
  "same_vars eid vars (CPrepare e js n clear t) \<longleftrightarrow> (e = eid \<longrightarrow> marshalVars vars = Some js)"
| "same_vars eid vars (CPurge cutoff wall) \<longleftrightarrow> False"
| "same_vars eid vars c \<longleftrightarrow> True"

lemma rows_store_update:
  assumes "rows_store eid vars rows" "\<And>e. ev_id (f e) = ev_id e"
    "\<And>e. P e \<Longrightarrow> ev_id e = eid \<Longrightarrow> ev_vars_json (f e) = ev_vars_json e \<or> encodes vars (ev_vars_json (f e))"
  shows "rows_store eid vars (update_where P f rows)"
proof -
  have "ev_id ` set (update_where P f rows) = ev_id ` set rows"
    using assms(2) by (metis list.set_map map_update_where)
  moreover have "encodes vars (ev_vars_json e')" if e': "e' \<in> set (update_where P f rows)" "ev_id e' = eid" for e'
  proof -
    obtain e where e: "e \<in> set rows" "e' = (if P e then f e else e)" using e'(1) by (auto simp: set_update_where)
    with assms(2) e'(2) have "ev_id e = eid" by (simp split: if_splits)
    with e assms(1) assms(3) [of e] show ?thesis by (auto simp: rows_store_def split: if_splits)
  qed
  ultimately show ?thesis using assms(1) by (simp add: rows_store_def)
qed

lemma rows_store_plain:
  "rows_store eid vars rows \<Longrightarrow> (\<And>e. ev_id (f e) = ev_id e \<and> ev_vars_json (f e) = ev_vars_json e) \<Longrightarrow>
     rows_store eid vars (update_where P f rows)"
  by (rule rows_store_update) auto

lemma rows_store_new:
  "rows_store eid vars rows \<Longrightarrow> \<not> exists_where (event_conflict new) rows \<Longrightarrow> rows_store eid vars (rows @ [new])"
  by (auto simp: rows_store_def event_conflict_def exists_where_iff)

lemma rows_store_prepare:
  assumes "rows_store eid vars (db_events d)" "i = eid \<Longrightarrow> encodes vars (Some js)"
  shows "rows_store eid vars (db_events (snd (PrepareEvent i js n clear t d)))"
proof -
  have "rows_store eid vars (update_where (\<lambda>e. ev_id e = i \<and> ev_status e = Processing)
      (\<lambda>e. e\<lparr>ev_vars_json := Some js\<rparr>) (db_events d))"
    using assms by (intro rows_store_update) auto
  then show ?thesis using assms(1) by (auto simp: PrepareEvent_def Let_def intro!: rows_store_plain)
qed

lemma stores_vars_exec_call:
  assumes "stores_vars eid vars d" "same_vars eid vars c"
  shows "stores_vars eid vars (exec_call c d)"
proof (cases "\<exists>i js n clear t. c = CPrepare i js n clear t")
  case True
  then show ?thesis using assms by (auto simp: stores_vars_def intro!: rows_store_prepare)
next
  case False
  then show ?thesis
    using assms
    by (cases c)
       (auto simp: stores_vars_def store_defs RequeueExpiredLeases_def RequeueAllProcessing_def CompleteAction_def
         ScheduleActionRetry_def DeadAction_def Let_def row_assignments refreshed_def split: option.splits
         intro!: rows_store_plain rows_store_new)
qed

section \<open>Every worker uses them\<close>

text \<open>The handler calls for the event since \<open>base\<close> carry the variables and the numbers of the call.\<close>

definition call_vars :: "gomap \<Rightarrow> handler_call \<Rightarrow> gomap" where
  "call_vars vars c = AList.update ''action_index'' (Itoa (int (hc_index c))) (AList.update ''attempt'' (Itoa (hc_attempt c)) vars)"

definition carries :: "handler_call list \<Rightarrow> string \<Rightarrow> gomap \<Rightarrow> handler_call list \<Rightarrow> bool" where
  "carries base eid vars cs \<longleftrightarrow>
     (\<exists>new. cs = base @ new \<and> list_all (\<lambda>c. hc_event c = eid \<longrightarrow> hc_vars c = call_vars vars c) new)"

interpretation replay: store_client "same_vars eid vars" "stores_vars eid vars" "carries base eid vars" for eid vars base
proof unfold_locales
  fix c
  show "stores_vars eid vars (exec_call c d)" if "stores_vars eid vars d" "same_vars eid vars c" for d
    using that by (rule stores_vars_exec_call)
  show "same_vars eid vars c" if "plain_call c" using that by (cases c) auto
qed

fun no_prepare :: "call \<Rightarrow> bool" where
  "no_prepare (CPrepare _ _ _ _ _) \<longleftrightarrow> False"
| "no_prepare c \<longleftrightarrow> True"

lemma same_vars_worker: "worker_call c \<Longrightarrow> no_prepare c \<Longrightarrow> same_vars eid vars c"
  by (cases c) auto

abbreviation (input) replays :: "string \<Rightarrow> gomap \<Rightarrow> handler_call list \<Rightarrow> qstate \<Rightarrow> bool" where
  "replays eid vars base \<equiv> on_db (stores_vars eid vars) (carries base eid vars)"

lemma replay_worker_call:
  assumes "quiet (same_vars eid vars) E" "\<And>d. snd (f d) = exec_call c d" "worker_call c" "no_prepare c"
  shows "keeps (replays eid vars base) (store E f)"
  using assms by (intro replay.keeps_store_call [where c = c] same_vars_worker)

text \<open>The variables a pass may use for the event \<open>i\<close>.\<close>

definition uses :: "string \<Rightarrow> gomap \<Rightarrow> string \<Rightarrow> gomap \<Rightarrow> bool" where
  "uses eid vars i v \<longleftrightarrow> (i = eid \<longrightarrow> v = vars)"

lemma replay_dead_letter:
  "quiet (same_vars eid vars) E \<Longrightarrow> keeps (replays eid vars base) (dead_letter E ev i det)"
  unfolding dead_letter_def
  by (intro keeps_intros replay.keeps_proceed replay_worker_call [where c = "CDead _ _ _ _"]) auto

lemma replay_after_failure:
  "quiet (same_vars eid vars) E \<Longrightarrow> keeps (replays eid vars base) (after_failure E q ev i att err)"
  unfolding after_failure_def Let_def
  by (intro keeps_intros replay.keeps_proceed replay.keeps_requeue replay_dead_letter
      replay_worker_call [where c = "CSchedule _ _ _ _ _"]) auto

lemma replay_handle:
  "uses eid vars (pe_ID ev) v \<Longrightarrow> keeps (replays eid vars base) (handle E (attempt_call ev i att ac v))"
  using trace_snoc [of _ base "\<lambda>c. hc_event c = eid \<longrightarrow> hc_vars c = call_vars vars c" "attempt_call ev i att ac v"]
  by (auto simp: triple_def handle_def on_db_def carries_def uses_def attempt_call_def call_vars_def copyVars_def)

lemma replay_dispatch:
  assumes "quiet (same_vars eid vars) E" "uses eid vars (pe_ID ev) v"
  shows "keeps (replays eid vars base) (dispatch E q ev v i ac att)"
  unfolding dispatch_def Let_def using assms
  by (intro keeps_intros replay_handle replay.keeps_proceed replay.keeps_logAction replay_dead_letter replay_after_failure
      replay_worker_call [where c = "CComplete _ _ _"]) auto

lemma replay_process_action:
  assumes "quiet (same_vars eid vars) E" "uses eid vars (pe_ID ev) v"
  shows "keeps (replays eid vars base) (process_action E q ev v sts i ac)"
  unfolding process_action_def using assms
  by (intro keeps_intros replay.keeps_proceed replay.keeps_requeue replay_dispatch
      replay_worker_call [where f = "ExpireAction _ _ _" and c = "CExpire _ _ _"]
      replay_worker_call [where f = "StartAction _ _ _" and c = "CStart _ _ _"]) auto

lemma replay_process_actions:
  assumes "quiet (same_vars eid vars) E" "uses eid vars (pe_ID ev) v"
  shows "keeps (replays eid vars base) (process_actions E q ev v sts i acs)"
  by (induction acs arbitrary: i) (auto intro!: keeps_intros replay_process_action assms)

lemma replay_run_plan:
  assumes "quiet (same_vars eid vars) E" "uses eid vars (pe_ID ev) v"
  shows "keeps (replays eid vars base) (run_plan E q ev src v)"
  unfolding run_plan_def using assms
  by (intro keeps_intros replay.keeps_requeue replay_process_actions replay.keeps_refresh replay.keeps_store_read)
     (auto simp: list_states_def)

text \<open>A claimed event that stores variables is executed with them.\<close>

definition claimed :: "string \<Rightarrow> gomap \<Rightarrow> pending_event \<Rightarrow> bool" where
  "claimed eid vars ev \<longleftrightarrow>
     (pe_ID ev = eid \<longrightarrow> pe_VarsJSON ev \<noteq> [] \<and> unmarshalVars (pe_VarsJSON ev) = Some (Some vars))"

lemma replay_executionVars:
  assumes "quiet (same_vars eid vars) E" "claimed eid vars ev"
  shows "triple (replays eid vars base) (executionVars E q ev src)
    (\<lambda>r s. replays eid vars base s \<and> (\<forall>v. r = Some v \<longrightarrow> uses eid vars (pe_ID ev) v))"
proof (cases "pe_ID ev = eid")
  case True
  with assms(2) have "executionVars E q ev src = State_Monad.return (Some vars)"
    by (simp add: executionVars_def claimed_def)
  then show ?thesis by (simp add: triple_return uses_def)
next
  case False
  then show ?thesis using triple_conseq [OF replay.keeps_executionVars [OF assms(1)]] by (simp add: uses_def)
qed

lemma replay_process:
  assumes "quiet (same_vars eid vars) E" "claimed eid vars ev"
  shows "keeps (replays eid vars base) (process E q ev src)"
proof -
  have prepare: "keeps (replays eid vars base) (store E (PrepareEvent (pe_ID ev) js n cl t))"
    if "\<exists>v. uses eid vars (pe_ID ev) v \<and> marshalVars v = Some js" for js n cl t
    using that by (intro replay.keeps_store_call [where c = "CPrepare (pe_ID ev) js n cl t"] assms) (auto simp: uses_def)
  show ?thesis
    unfolding process_def
  proof (rule triple_bind [OF replay_executionVars [OF assms]], rule triple_pure)
    fix r assume "\<forall>v. r = Some v \<longrightarrow> uses eid vars (pe_ID ev) v"
    then show "keeps (replays eid vars base)
      (case r of None \<Rightarrow> State_Monad.return ()
       | Some v \<Rightarrow> case marshalVars v of None \<Rightarrow> requeue E (pe_ID ev)
         | Some js \<Rightarrow> do {
             t \<leftarrow> now E;
             p \<leftarrow> store E (PrepareEvent (pe_ID ev) js (length (src_Actions src)) (clears_payload q) t);
             case p of Inl _ \<Rightarrow> requeue E (pe_ID ev) | Inr _ \<Rightarrow> run_plan E q ev src v })"
      by (intro keeps_intros prepare replay.keeps_requeue replay_run_plan assms(1)) auto
  qed
qed

lemma ClaimPending_claimed:
  assumes "stores_vars eid vars d" "fst (ClaimPending lease t owner d) = Inr (Some ev)"
  shows "claimed eid vars ev"
proof -
  obtain e where "first_min due_key (filter (claimable (UnixMilli t)) (db_events d)) = Some e" "ev = pending_of_row e"
    using assms(2) by (auto simp: ClaimPending_def Let_def split: option.splits if_splits)
  then have "e \<in> set (db_events d)" by (auto dest!: first_min_Some)
  with assms(1) \<open>ev = _\<close> show ?thesis
    by (auto simp: claimed_def stores_vars_def rows_store_def encodes_def pending_of_row_def)
qed

lemma replay_drain_step:
  assumes "quiet (same_vars eid vars) E"
  shows "keeps (replays eid vars base) (drain_step E q)"
proof -
  have "stores_vars eid vars (snd (ClaimPending l t ow d))" if "stores_vars eid vars d" for l t ow d
    using stores_vars_exec_call [OF that, of "CClaim l t ow"] by simp
  then have claim: "triple (replays eid vars base) (store E (ClaimPending (q_lease q) t (q_owner q)))
      (\<lambda>c s. replays eid vars base s \<and> (\<forall>ev. c = Inr (Some ev) \<longrightarrow> claimed eid vars ev))" for t
    by (rule replay.triple_store_result [OF assms]) (auto dest: ClaimPending_claimed)
  have after: "triple (\<lambda>s. replays eid vars base s \<and> (\<forall>ev. c = Inr (Some ev) \<longrightarrow> claimed eid vars ev))
      (case c of Inl _ \<Rightarrow> State_Monad.return False | Inr None \<Rightarrow> State_Monad.return False
       | Inr (Some ev) \<Rightarrow>
           (case resolveSource (en_lib E) (q_cfg q) ev of
              None \<Rightarrow> do { _ \<leftarrow> mark E (pe_ID ev) Dead; State_Monad.return True }
            | Some src \<Rightarrow> do { _ \<leftarrow> process E q ev src; State_Monad.return True }))
      (\<lambda>_. replays eid vars base)" for c
    by (rule triple_pure, intro keeps_intros replay_process replay.keeps_mark assms) auto
  show ?thesis
    unfolding drain_step_def
    by (intro keeps_intros triple_bind [OF claim after] assms
        replay_worker_call [where f = "RequeueExpiredLeases _" and c = "CRequeueExpired _"]) auto
qed

lemma replay_drain: "quiet (same_vars eid vars) E \<Longrightarrow> keeps (replays eid vars base) (drain n E q)"
  by (induction n) (auto intro!: keeps_intros replay_drain_step)

lemma replay_worker: "quiet (same_vars eid vars) E \<Longrightarrow> keeps (replays eid vars base) (worker n E q ws)"
  by (induction ws) (auto intro!: keeps_intros replay_drain)

lemma rows_store_set:
  assumes "eid \<in> ev_id ` set rows" "\<And>e. e \<in> set rows \<Longrightarrow> ev_id e = eid \<Longrightarrow> P e" "encodes vars (Some js)"
  shows "rows_store eid vars (update_where P (\<lambda>e. e\<lparr>ev_vars_json := Some js\<rparr>) rows)"
proof -
  have "map ev_id (update_where P (\<lambda>e. e\<lparr>ev_vars_json := Some js\<rparr>) rows) = map ev_id rows"
    by (rule map_update_where) simp
  then have "ev_id ` set (update_where P (\<lambda>e. e\<lparr>ev_vars_json := Some js\<rparr>) rows) = ev_id ` set rows"
    by (metis list.set_map)
  with assms show ?thesis by (auto simp: rows_store_def set_update_where)
qed

lemma PrepareEvent_stores:
  assumes "db_ok d" "utf8_keys vars" "marshalVars vars = Some js" "PrepareEvent eid js n cl t d = (Inr (), d')"
  shows "stores_vars eid (decoded_vars vars) d'"
proof -
  let ?v = "decoded_vars vars" and ?hit = "\<lambda>e. ev_id e = eid \<and> ev_status e = Processing"
  let ?rows = "update_where ?hit (\<lambda>e. e\<lparr>ev_vars_json := Some js\<rparr>) (db_events d)"
  obtain e where e: "e \<in> set (db_events d)" "?hit e"
    using assms(4) by (auto simp: PrepareEvent_def Let_def rows_affected_0 split: if_splits)
  have js: "encodes ?v (Some js)"
    using marshal_decoded [OF assms(2,3)] marshal_nonempty [OF assms(3)] by (simp add: encodes_def)
  have again: "encodes ?v (marshalVars ?v)"
    using marshal_decoded [OF utf8_keys_decoded [OF assms(2)]] marshal_nonempty
    by (simp add: encodes_def decoded_vars_idem marshalVars_def)
  have "x = e" if "x \<in> set (db_events d)" "ev_id x = eid" for x
    using that e assms(1) distinct_map_unique [of ev_id "db_events d" x e] by (simp add: db_ok_def events_ok_def)
  with e have rows: "rows_store eid ?v ?rows" by (intro rows_store_set js) auto
  then have cleared: "rows_store eid ?v (update_where (\<lambda>e. ev_id e = eid) (\<lambda>e. e\<lparr>ev_payload := None\<rparr>) ?rows)"
    by (rule rows_store_plain) simp
  have "db_events d' = (if cl then update_where (\<lambda>e. ev_id e = eid) (\<lambda>e. e\<lparr>ev_payload := None\<rparr>) ?rows else ?rows)"
    using assms(4) by (auto simp: PrepareEvent_def Let_def split: if_splits)
  with rows cleared again show ?thesis by (simp add: stores_vars_def)
qed

section \<open>The property\<close>


text \<open>A value that is not UTF-8 reaches the handlers of the first pass as it is and those of every later
  pass with the replacement character.\<close>

definition demo_bytes :: gomap where "demo_bytes = [(''msg'', [CHR ''a'', CHR 0xFF])]"

lemma stored_bytes_replaced: "decoded_vars demo_bytes = [(''msg'', CHR ''a'' # RuneError)]"
  by code_simp

definition demo_prepared :: "unit + db" where
  "demo_prepared =
     (case marshalVars demo_bytes of
        None \<Rightarrow> Inl ()
      | Some js \<Rightarrow> Inr (snd (PrepareEvent ''e1'' js 2 True (12 * Second) (exec_call (CClaim Minute (11 * Second) ''w0'') demo_saved))))"


end
