(* ===== verification/Migration.thy ===== *)
theory Migration
  imports Go_Time Go_Url_Parse Heartbeat_Logs "HOL-Library.Multiset"
begin

text \<open>
  Opening the store (\<^verbatim>\<open>Open\<close>, \<^verbatim>\<open>sqliteDSN\<close>, \<^verbatim>\<open>migrate\<close> and their helpers in \<^verbatim>\<open>internal/store/store.go\<close>).
  Files written by older releases miss columns and keep times as text, so the database is modelled here
  as SQLite has it: tables with a list of columns and dynamically typed values. A statement may fail
  (\<open>sq_fails\<close>, without an effect), a query may stop delivering rows (\<open>sq_cut\<close>), and \<^verbatim>\<open>strftime('%s', x)\<close> is
  SQLite's own; the order in which Go ranges over a map of columns is arbitrary (\<open>sq_order\<close>).
\<close>

section \<open>Tables\<close>

text \<open>A REAL is kept as the text SQLite casts it to.\<close>

datatype sqlval = SNull | SInt int | SReal string | SText string | SBlob string

type_synonym sqlrow = "string \<Rightarrow> sqlval"

record sqltable =
  tb_cols :: "string list"
  tb_rows :: "sqlrow list"

record file_db =
  fd_tables :: "string \<Rightarrow> sqltable option"
  fd_indexes :: "string list"

record sql_env =
  sq_fails :: "string \<Rightarrow> file_db \<Rightarrow> bool"
  sq_cut :: "string \<Rightarrow> nat option"
  sq_strftime :: "sqlval \<Rightarrow> int option"
  sq_order :: "(string \<times> string) list \<Rightarrow> (string \<times> string) list"

datatype mig_err =
  MigrateBase | TableInfo string | AddColumn string string | QueryTimes | ScanTimes
| ParseReceivedAt string | ParseProcessedAt string | UpdateTimes string
| BackfillLogTime | QueryLogTimes | ScanLogTimes | ParseCreatedAt int | UpdateLogTime int
| DropHmacIndex | LegacyStatus | CreateIndexes

type_synonym mig = "file_db \<Rightarrow> (mig_err + unit) \<times> file_db"

fun cast_text :: "sqlval \<Rightarrow> string option" where
  "cast_text SNull = None"
| "cast_text (SInt n) = Some (Itoa n)"
| "cast_text (SReal t) = Some t"
| "cast_text (SText t) = Some t"
| "cast_text (SBlob b) = Some b"

definition rows_of :: "string \<Rightarrow> file_db \<Rightarrow> sqlrow list" where
  "rows_of t d = (case fd_tables d t of None \<Rightarrow> [] | Some tb \<Rightarrow> tb_rows tb)"

definition cols_of :: "string \<Rightarrow> file_db \<Rightarrow> string list" where
  "cols_of t d = (case fd_tables d t of None \<Rightarrow> [] | Some tb \<Rightarrow> tb_cols tb)"

definition on_rows :: "string \<Rightarrow> (sqlrow \<Rightarrow> sqlrow) \<Rightarrow> file_db \<Rightarrow> file_db" where
  "on_rows t f d = d\<lparr>fd_tables := (fd_tables d)(t := map_option (\<lambda>tb. tb\<lparr>tb_rows := map f (tb_rows tb)\<rparr>) (fd_tables d t))\<rparr>"

text \<open>A statement that may fail, and sequences of statements up to the first error.\<close>

definition stmt :: "sql_env \<Rightarrow> string \<Rightarrow> mig_err \<Rightarrow> (file_db \<Rightarrow> file_db) \<Rightarrow> mig" where
  "stmt E label err f d = (if sq_fails E label d then (Inl err, d) else (Inr (), f d))"

definition and_then :: "mig \<Rightarrow> mig \<Rightarrow> mig" where
  "and_then f g d = (case f d of (Inl e, d') \<Rightarrow> (Inl e, d') | (Inr _, d') \<Rightarrow> g d')"

fun each :: "('a \<Rightarrow> mig) \<Rightarrow> 'a list \<Rightarrow> mig" where
  "each f [] d = (Inr (), d)"
| "each f (x # xs) d = and_then (f x) (each f xs) d"

definition delivered :: "sql_env \<Rightarrow> string \<Rightarrow> 'a list \<Rightarrow> 'a list" where
  "delivered E q rows = (case sq_cut E q of None \<Rightarrow> rows | Some k \<Rightarrow> take k rows)"

section \<open>Times\<close>

fun up_to :: "string \<Rightarrow> string \<Rightarrow> string" where
  "up_to p [] = []"
| "up_to p (c # cs) = (if HasPrefix (c # cs) p then [] else c # up_to p cs)"

definition date_chunks :: "chunk list" where
  "date_chunks = [stdLongYear, Prefix ''-'', stdZeroMonth, Prefix ''-'', stdZeroDay]"

definition clock_chunks :: "chunk list" where
  "clock_chunks = [stdHour, Prefix '':'', stdZeroMinute, Prefix '':'', stdZeroSecond]"

definition layouts :: "chunk list list" where
  "layouts =
     [date_chunks @ [Prefix ''T''] @ clock_chunks @ [stdFracSecond9, stdISO8601ColonTZ],
      date_chunks @ [Prefix ''T''] @ clock_chunks @ [stdISO8601ColonTZ],
      date_chunks @ [Prefix '' ''] @ clock_chunks @ [stdFracSecond9, Prefix '' '', stdNumTZ, Prefix '' '', stdTZ],
      date_chunks @ [Prefix '' ''] @ clock_chunks @ [Prefix '' '', stdNumTZ, Prefix '' '', stdTZ],
      date_chunks @ [Prefix '' ''] @ clock_chunks @ [stdFracSecond9, stdNumColonTZ],
      date_chunks @ [Prefix '' ''] @ clock_chunks @ [stdFracSecond9, Prefix ''+00:00''],
      date_chunks @ [Prefix '' ''] @ clock_chunks @ [stdFracSecond9],
      date_chunks @ [Prefix '' ''] @ clock_chunks,
      date_chunks @ [Prefix ''T''] @ clock_chunks @ [Prefix ''Z''],
      date_chunks @ [Prefix ''T''] @ clock_chunks]"

fun first_layout :: "chunk list list \<Rightarrow> string \<Rightarrow> gtime option" where
  "first_layout [] raw = None"
| "first_layout (l # ls) raw = (case time_Parse l raw of Some t \<Rightarrow> Some t | None \<Rightarrow> first_layout ls raw)"

definition parseSQLiteTime :: "string \<Rightarrow> gtime option" where
  "parseSQLiteTime raw0 =
     (let raw = up_to '' m='' (TrimSpace raw0) in
      case ParseInt raw of
        Some epoch \<Rightarrow> Some (if - 100000000000 < epoch \<and> epoch < 100000000000 then epoch * Second else fromUnixMilli epoch)
      | None \<Rightarrow> first_layout layouts raw)"

lemma parseSQLiteTime_examples:
  "parseSQLiteTime ''2024-01-02T03:04:05Z'' = Some (1704164645 * Second)"
  "parseSQLiteTime ''2024-01-02 03:04:05.678 +0800 CST m=+0.12'' = Some ((1704164645 - 8 * 3600) * Second + 678000000)"
  "parseSQLiteTime ''2024-02-30 00:00:00'' = None"
  "parseSQLiteTime ''2024-02-29 00:00:00'' = Some (1709164800 * Second)"
  "parseSQLiteTime '' 1704164645 '' = Some (1704164645 * Second)"
  "parseSQLiteTime ''1704164645678'' = Some (1704164645 * Second + 678000000)"
  by code_simp+

section \<open>The migration\<close>

definition events_schema :: "string list" where
  "events_schema =
     [''id'', ''source'', ''remote_ip'', ''payload'', ''status'', ''received_at'', ''processed_at'', ''external_delivery_id'',
      ''body_sha256'', ''lease_until'', ''lease_owner'', ''config_hash'', ''actions_json'', ''vars_json'', ''received_at_ms'',
      ''processed_at_ms'', ''lease_until_ms'', ''next_attempt_at_ms'', ''replay_generation'', ''replayed_at_ms'', ''replay_reason'']"

definition base_schema :: "(string \<times> string list) list" where
  "base_schema =
     [(''events'', events_schema),
      (''action_logs'', [''id'', ''event_id'', ''action'', ''action_index'', ''replay_generation'', ''target'', ''attempt'',
         ''success'', ''detail'', ''duration_ms'', ''created_at'', ''created_at_ms'']),
      (''event_actions'', [''event_id'', ''action_index'', ''status'', ''attempt_count'', ''next_attempt_at_ms'', ''last_error'',
         ''retry_after_ms'', ''completed_at_ms'']),
      (''replay_guard'', [''source'', ''body_sha256'', ''expires_at_ms'']),
      (''_ready_check'', [''id'', ''nonce'']),
      (''heartbeat_logs'', [''id'', ''target'', ''origin'', ''mode'', ''health'', ''error'', ''http_status'', ''duration_ms'',
         ''created_at'', ''created_at_ms''])]"

definition create_table :: "string \<times> string list \<Rightarrow> file_db \<Rightarrow> file_db" where
  "create_table = (\<lambda>(t, cols) d. case fd_tables d t of
       Some _ \<Rightarrow> d
     | None \<Rightarrow> d\<lparr>fd_tables := (fd_tables d)(t \<mapsto> \<lparr>tb_cols = cols, tb_rows = []\<rparr>)\<rparr>)"

definition create_tables :: "sql_env \<Rightarrow> mig" where
  "create_tables E = each (\<lambda>s. stmt E (''CREATE TABLE '' @ fst s) MigrateBase (create_table s)) base_schema"

text \<open>The value existing rows get in a column that is added with a declaration of the source.\<close>

definition column_default :: "string \<Rightarrow> sqlval" where
  "column_default typ =
     (if HasSuffix typ '' DEFAULT 0'' then SInt 0 else if HasSuffix typ '' DEFAULT -1'' then SInt (- 1) else SNull)"

definition add_column :: "string \<Rightarrow> string \<Rightarrow> string \<Rightarrow> file_db \<Rightarrow> file_db" where
  "add_column t name typ d = d\<lparr>fd_tables := (fd_tables d)(t := map_option
     (\<lambda>tb. \<lparr>tb_cols = tb_cols tb @ [name], tb_rows = map (\<lambda>r. r(name := column_default typ)) (tb_rows tb)\<rparr>) (fd_tables d t))\<rparr>"

text \<open>\<^verbatim>\<open>ALTER TABLE\<close> fails for a table that does not exist and for a column name that is taken, in any case.\<close>

definition alter_table :: "sql_env \<Rightarrow> string \<Rightarrow> string \<Rightarrow> string \<Rightarrow> mig" where
  "alter_table E t name typ d =
     (if fd_tables d t = None \<or> ToLower name \<in> ToLower ` set (cols_of t d) then (Inl (AddColumn t name), d)
      else stmt E (''ALTER TABLE '' @ t @ '' ADD COLUMN '' @ name @ '' '' @ typ) (AddColumn t name) (add_column t name typ) d)"

definition columnSet :: "sql_env \<Rightarrow> string \<Rightarrow> file_db \<Rightarrow> mig_err + string list" where
  "columnSet E t d = (if sq_fails E (''PRAGMA table_info('' @ t @ '')'') d then Inl (TableInfo t) else Inr (cols_of t d))"

definition ensureColumns :: "sql_env \<Rightarrow> string \<Rightarrow> (string \<times> string) list \<Rightarrow> mig" where
  "ensureColumns E t cols d =
     (case columnSet E t d of
        Inl e \<Rightarrow> (Inl e, d)
      | Inr existing \<Rightarrow>
          each (\<lambda>(name, typ). if name \<in> set existing then (\<lambda>d. (Inr (), d)) else alter_table E t name typ) (sq_order E cols) d)"

definition event_columns :: "(string \<times> string) list" where
  "event_columns =
     [(''external_delivery_id'', ''TEXT''), (''body_sha256'', ''TEXT''), (''lease_until'', ''DATETIME''), (''lease_owner'', ''TEXT''),
      (''config_hash'', ''TEXT''), (''actions_json'', ''TEXT''), (''vars_json'', ''TEXT''), (''received_at_ms'', ''INTEGER''),
      (''processed_at_ms'', ''INTEGER''), (''lease_until_ms'', ''INTEGER''), (''next_attempt_at_ms'', ''INTEGER''),
      (''replay_generation'', ''INTEGER NOT NULL DEFAULT 0''), (''replayed_at_ms'', ''INTEGER''), (''replay_reason'', ''TEXT'')]"

definition log_columns :: "(string \<times> string) list" where
  "log_columns =
     [(''action_index'', ''INTEGER NOT NULL DEFAULT -1''), (''replay_generation'', ''INTEGER NOT NULL DEFAULT 0''),
      (''created_at_ms'', ''INTEGER'')]"

definition ready_columns :: "(string \<times> string) list" where
  "ready_columns = [(''nonce'', ''INTEGER NOT NULL DEFAULT 0'')]"

subsection \<open>Filling the integer time columns\<close>

definition needs_time :: "sqlrow \<Rightarrow> bool" where
  "needs_time r \<longleftrightarrow> r ''received_at_ms'' = SNull \<or> (r ''processed_at'' \<noteq> SNull \<and> r ''processed_at_ms'' = SNull)"

definition scan_times :: "sqlrow \<Rightarrow> (string \<times> string \<times> string option) option" where
  "scan_times r =
     (case (cast_text (r ''id''), cast_text (r ''received_at'')) of
        (Some i, Some received) \<Rightarrow> Some (i, received, cast_text (r ''processed_at''))
      | _ \<Rightarrow> None)"

definition set_times :: "string \<Rightarrow> sqlval \<Rightarrow> sqlval \<Rightarrow> sqlrow \<Rightarrow> sqlrow" where
  "set_times i received processed r =
     (if r ''id'' = SText i then r(''received_at_ms'' := received, ''processed_at_ms'' := processed) else r)"

definition backfill_event :: "sql_env \<Rightarrow> string \<times> string \<times> string option \<Rightarrow> mig" where
  "backfill_event E = (\<lambda>(i, rec, proc) d.
     case parseSQLiteTime rec of
       None \<Rightarrow> (Inl (ParseReceivedAt i), d)
     | Some received \<Rightarrow>
         (let write = (\<lambda>v. stmt E (''UPDATE events times '' @ i) (UpdateTimes i)
                (on_rows ''events'' (set_times i (SInt (UnixMilli received)) v)) d)
          in case proc of
               None \<Rightarrow> write SNull
             | Some p \<Rightarrow>
                 if p = [] then write SNull
                 else (case parseSQLiteTime p of
                         None \<Rightarrow> (Inl (ParseProcessedAt i), d)
                       | Some t \<Rightarrow> write (SInt (UnixMilli t)))))"

definition backfill_events :: "sql_env \<Rightarrow> mig" where
  "backfill_events E d =
     (if sq_fails E ''SELECT event times'' d then (Inl QueryTimes, d)
      else case all_some (map scan_times (delivered E ''SELECT event times'' (filter needs_time (rows_of ''events'' d)))) of
        None \<Rightarrow> (Inl ScanTimes, d)
      | Some rows \<Rightarrow> each (backfill_event E) rows d)"

definition sqlite_log_time :: "sql_env \<Rightarrow> sqlrow \<Rightarrow> sqlrow" where
  "sqlite_log_time E r =
     (if r ''created_at_ms'' = SNull
      then r(''created_at_ms'' := (case sq_strftime E (r ''created_at'') of None \<Rightarrow> SNull | Some s \<Rightarrow> SInt (s * 1000)))
      else r)"

fun scan_log :: "sqlrow \<Rightarrow> (int \<times> string) option" where
  "scan_log r = (case (r ''id'', cast_text (r ''created_at'')) of (SInt i, Some t) \<Rightarrow> Some (i, t) | _ \<Rightarrow> None)"

definition set_log_time :: "int \<Rightarrow> sqlval \<Rightarrow> sqlrow \<Rightarrow> sqlrow" where
  "set_log_time i v r = (if r ''id'' = SInt i then r(''created_at_ms'' := v) else r)"

definition backfill_log :: "sql_env \<Rightarrow> int \<times> string \<Rightarrow> mig" where
  "backfill_log E = (\<lambda>(i, created) d.
     case parseSQLiteTime created of
       None \<Rightarrow> (Inl (ParseCreatedAt i), d)
     | Some t \<Rightarrow> stmt E (''UPDATE action_logs time '' @ Itoa i) (UpdateLogTime i)
         (on_rows ''action_logs'' (set_log_time i (SInt (UnixMilli t)))) d)"

definition backfill_logs :: "sql_env \<Rightarrow> mig" where
  "backfill_logs E d =
     (if sq_fails E ''SELECT log times'' d then (Inl QueryLogTimes, d)
      else case all_some (map scan_log (delivered E ''SELECT log times''
             (filter (\<lambda>r. r ''created_at_ms'' = SNull) (rows_of ''action_logs'' d)))) of
        None \<Rightarrow> (Inl ScanLogTimes, d)
      | Some rows \<Rightarrow> each (backfill_log E) rows d)"

definition backfillEpochColumns :: "sql_env \<Rightarrow> mig" where
  "backfillEpochColumns E =
     and_then (backfill_events E)
       (and_then (stmt E ''UPDATE action_logs strftime'' BackfillLogTime (on_rows ''action_logs'' (sqlite_log_time E)))
          (backfill_logs E))"

subsection \<open>Status and indexes\<close>

definition legacy_status :: "sqlrow \<Rightarrow> sqlrow" where
  "legacy_status r =
     (if r ''status'' \<in> {SText ''received'', SText ''rejected''} then r(''status'' := SText ''pending'') else r)"

definition in_delivery_index :: "sqlrow \<Rightarrow> bool" where
  "in_delivery_index r \<longleftrightarrow> r ''external_delivery_id'' \<noteq> SNull \<and> r ''external_delivery_id'' \<noteq> SText []"

definition unique_deliveries :: "file_db \<Rightarrow> bool" where
  "unique_deliveries d = distinct (map (\<lambda>r. (r ''source'', r ''external_delivery_id'')) (filter in_delivery_index (rows_of ''events'' d)))"

definition index_names :: "string list" where
  "index_names =
     [''idx_events_source'', ''idx_events_status_due'', ''idx_events_delivery'', ''idx_events_body_hash'', ''idx_action_event'',
      ''idx_action_log_created'', ''idx_event_actions_due'', ''idx_heartbeat_log_created'']"

text \<open>\<^verbatim>\<open>CREATE INDEX IF NOT EXISTS\<close>; the one unique index is refused while rows violate it.\<close>

definition create_index :: "sql_env \<Rightarrow> string \<Rightarrow> mig" where
  "create_index E name d =
     (if name \<in> set (fd_indexes d) then (Inr (), d)
      else if name = ''idx_events_delivery'' \<and> \<not> unique_deliveries d then (Inl CreateIndexes, d)
      else stmt E (''CREATE INDEX '' @ name) CreateIndexes (\<lambda>d. d\<lparr>fd_indexes := fd_indexes d @ [name]\<rparr>) d)"

definition drop_index :: "string \<Rightarrow> file_db \<Rightarrow> file_db" where
  "drop_index name d = d\<lparr>fd_indexes := filter (\<lambda>n. n \<noteq> name) (fd_indexes d)\<rparr>"

definition migrate :: "sql_env \<Rightarrow> mig" where
  "migrate E =
     and_then (create_tables E)
       (and_then (ensureColumns E ''events'' event_columns)
       (and_then (ensureColumns E ''action_logs'' log_columns)
       (and_then (ensureColumns E ''_ready_check'' ready_columns)
       (and_then (backfillEpochColumns E)
       (and_then (stmt E ''DROP INDEX idx_events_hmac_body'' DropHmacIndex (drop_index ''idx_events_hmac_body''))
       (and_then (stmt E ''UPDATE events legacy status'' LegacyStatus (on_rows ''events'' legacy_status))
          (each (create_index E) index_names)))))))"

section \<open>Sequences of statements\<close>

lemma and_then_ok: "and_then f g d = (Inr u, d') \<longleftrightarrow> (\<exists>d1. f d = (Inr (), d1) \<and> g d1 = (Inr u, d'))"
  by (auto simp: and_then_def split: prod.splits sum.splits)

lemma and_then_noop: "f d = (Inr (), d) \<Longrightarrow> and_then f g d = g d"
  by (simp add: and_then_def)

lemma stmt_ok: "stmt E l e f d = (Inr u, d') \<longleftrightarrow> \<not> sq_fails E l d \<and> d' = f d"
  by (auto simp: stmt_def)

lemma each_noop: "(\<And>x. x \<in> set xs \<Longrightarrow> f x d = (Inr (), d)) \<Longrightarrow> each f xs d = (Inr (), d)"
  by (induction xs) (simp_all add: and_then_noop)

lemma on_rows_comp: "on_rows t f (on_rows t g d) = on_rows t (f \<circ> g) d"
  by (cases "fd_tables d t") (auto simp: on_rows_def fun_eq_iff)

lemma on_rows_id: "(\<And>r. r \<in> set (rows_of t d) \<Longrightarrow> f r = r) \<Longrightarrow> on_rows t f d = d"
  by (cases "fd_tables d t") (auto simp: on_rows_def rows_of_def fun_upd_idem_iff map_idI intro!: file_db.equality)

lemma rows_on_rows [simp]: "rows_of t' (on_rows t f d) = (if t' = t then map f (rows_of t d) else rows_of t' d)"
  by (auto simp: on_rows_def rows_of_def split: option.splits)

lemma cols_on_rows [simp]: "cols_of t' (on_rows t f d) = cols_of t' d"
  by (auto simp: on_rows_def cols_of_def split: option.splits)

lemma tables_on_rows [simp]: "fd_tables (on_rows t f d) t' = None \<longleftrightarrow> fd_tables d t' = None"
  by (simp add: on_rows_def)

lemma indexes_on_rows [simp]: "fd_indexes (on_rows t f d) = fd_indexes d"
  by (simp add: on_rows_def)

text \<open>Updates of one table row by row, in sequence.\<close>

lemma each_on_rows:
  assumes "\<And>x d d'. x \<in> set xs \<Longrightarrow> f x d = (Inr (), d') \<Longrightarrow> d' = on_rows t (g x) d"
    and "each f xs d = (Inr (), d')"
  shows "d' = on_rows t (fold g xs) d"
  using assms
proof (induction xs arbitrary: d)
  case Nil
  then show ?case by (simp add: on_rows_id)
next
  case (Cons x xs)
  from Cons.prems(2) obtain d1 where d1: "f x d = (Inr (), d1)" "each f xs d1 = (Inr (), d')" by (auto simp: and_then_ok)
  have "d' = on_rows t (fold g xs) d1" using Cons.prems(1) d1(2) by (intro Cons.IH) auto
  moreover have "d1 = on_rows t (g x) d" using Cons.prems(1) d1(1) by simp
  ultimately show ?case by (simp add: on_rows_comp comp_def)
qed

lemma all_some_iff: "all_some xs = Some ys \<longleftrightarrow> xs = map Some ys"
  by (induction xs arbitrary: ys rule: all_some.induct) (auto simp: Cons_eq_map_conv)

text \<open>Updates keyed by an identifier: each row sees only the update with its own key.\<close>

lemma fold_keyed:
  assumes "\<And>k r. key r \<noteq> Some (kid k) \<Longrightarrow> g k r = r" "\<And>k r. key (g k r) = key r"
    and "distinct (map kid ks)"
  shows "fold g ks r = (case find (\<lambda>k. key r = Some (kid k)) ks of None \<Rightarrow> r | Some k \<Rightarrow> g k r)"
  using assms(3)
proof (induction ks arbitrary: r)
  case (Cons k ks)
  show ?case
  proof (cases "key r = Some (kid k)")
    case True
    have "find (\<lambda>k'. key (g k r) = Some (kid k')) ks = None"
      using Cons.prems True by (auto simp: find_None_iff assms(2))
    with Cons True show ?thesis by simp
  next
    case False
    with Cons assms(1) show ?thesis by simp
  qed
qed simp

section \<open>What each step does\<close>

text \<open>The reference: the value of a row after the migration.\<close>

definition ms_of :: "sqlval \<Rightarrow> sqlval" where
  "ms_of v = (case cast_text v of None \<Rightarrow> SNull
     | Some t \<Rightarrow> (case parseSQLiteTime t of None \<Rightarrow> SNull | Some x \<Rightarrow> SInt (UnixMilli x)))"

definition with_defaults :: "string list \<Rightarrow> (string \<times> string) list \<Rightarrow> sqlrow \<Rightarrow> sqlrow" where
  "with_defaults existing cols r = (\<lambda>c. case map_of cols c of
     None \<Rightarrow> r c | Some typ \<Rightarrow> if c \<in> set existing then r c else column_default typ)"

definition with_times :: "sqlrow \<Rightarrow> sqlrow" where
  "with_times r =
     (if needs_time r then r(''received_at_ms'' := ms_of (r ''received_at''), ''processed_at_ms'' := ms_of (r ''processed_at'')) else r)"

definition with_log_time :: "sql_env \<Rightarrow> sqlrow \<Rightarrow> sqlrow" where
  "with_log_time E r =
     (if r ''created_at_ms'' = SNull
      then r(''created_at_ms'' := (case sq_strftime E (r ''created_at'') of Some s \<Rightarrow> SInt (s * 1000) | None \<Rightarrow> ms_of (r ''created_at'')))
      else r)"

definition text_key :: "sqlrow \<Rightarrow> string option" where
  "text_key r = (case r ''id'' of SText i \<Rightarrow> Some i | _ \<Rightarrow> None)"

definition int_key :: "sqlrow \<Rightarrow> int option" where
  "int_key r = (case r ''id'' of SInt i \<Rightarrow> Some i | _ \<Rightarrow> None)"

text \<open>Primary keys, and an existing unique index, are what SQLite enforces on any file.\<close>

definition keys_ok :: "file_db \<Rightarrow> bool" where
  "keys_ok d \<longleftrightarrow> list_all (\<lambda>r. text_key r \<noteq> None) (rows_of ''events'' d) \<and> distinct (map text_key (rows_of ''events'' d)) \<and>
     list_all (\<lambda>r. int_key r \<noteq> None) (rows_of ''action_logs'' d) \<and> distinct (map int_key (rows_of ''action_logs'' d))"

definition index_sound :: "file_db \<Rightarrow> bool" where
  "index_sound d \<longleftrightarrow> (''idx_events_delivery'' \<in> set (fd_indexes d) \<longrightarrow>
     unique_deliveries d \<and> ''external_delivery_id'' \<in> set (cols_of ''events'' d))"

lemma parse_empty: "parseSQLiteTime [] = None"
  by code_simp

subsection \<open>Event times\<close>

definition upd_times :: "string \<times> string \<times> string option \<Rightarrow> sqlrow \<Rightarrow> sqlrow" where
  "upd_times = (\<lambda>(i, rec, proc). set_times i (ms_of (SText rec)) (case proc of None \<Rightarrow> SNull | Some p \<Rightarrow> ms_of (SText p)))"

lemma backfill_event_effect:
  "backfill_event E k d = (Inr u, d') \<Longrightarrow> d' = on_rows ''events'' (upd_times k) d"
  by (auto simp: backfill_event_def upd_times_def ms_of_def Let_def stmt_ok parse_empty split: option.splits if_splits prod.splits)

lemma set_times_other: "text_key r \<noteq> Some i \<Longrightarrow> set_times i x y r = r"
  by (auto simp: set_times_def text_key_def)

lemma set_times_key [simp]: "text_key (set_times i x y r) = text_key r"
  by (auto simp: set_times_def text_key_def)

lemma upd_times_scan:
  assumes "text_key r \<noteq> None" "scan_times r = Some k"
  shows "upd_times k r = r(''received_at_ms'' := ms_of (r ''received_at''), ''processed_at_ms'' := ms_of (r ''processed_at''))"
    "text_key r = Some (fst k)"
  using assms by (auto simp: scan_times_def upd_times_def text_key_def set_times_def ms_of_def split: option.splits sqlval.splits)

lemma find_key:
  assumes "distinct (map kid ks)" "k \<in> set ks"
  shows "find (\<lambda>k'. Some (kid k) = Some (kid k')) ks = Some k"
  using assms by (induction ks) (auto simp: image_iff)

text \<open>Rows selected by \<open>P\<close>, scanned into keyed updates and updated one by one: every selected row gets its
  own update, every other row stays.\<close>

lemma keyed_backfill:
  assumes scan: "map scan (filter P R) = map Some ks"
    and key: "\<And>r k. r \<in> set R \<Longrightarrow> scan r = Some k \<Longrightarrow> key r = Some (kid k)"
    and upd: "\<And>k r. key r \<noteq> Some (kid k) \<Longrightarrow> upd k r = r" "\<And>k r. key (upd k r) = key r"
    and dist: "distinct (map key R)" and r: "r \<in> set R"
  shows "fold upd ks r = (if P r then upd (the (scan r)) r else r)"
proof -
  have scanned: "\<exists>k \<in> set ks. scan r = Some k" if "r \<in> set R" "P r" for r
  proof -
    have "scan r \<in> set (map scan (filter P R))" using that by simp
    then show ?thesis unfolding scan by auto
  qed
  have "map Some (map kid ks) = map (map_option kid) (map scan (filter P R))" by (simp add: scan)
  also have "\<dots> = map key (filter P R)" using scanned key by force
  finally have keys: "map Some (map kid ks) = map key (filter P R)" .
  have "distinct (map Some (map kid ks))" unfolding keys using dist by (rule distinct_map_filter)
  then have kd: "distinct (map kid ks)" by (simp only: distinct_map)
  note fold = fold_keyed [where g = upd and ks = ks and r = r, OF upd kd]
  show ?thesis
  proof (cases "P r")
    case True
    then obtain k where k: "k \<in> set ks" "scan r = Some k" using scanned r by blast
    then show ?thesis using find_key [OF kd k(1)] key [OF r k(2)] True fold by simp
  next
    case False
    have "find (\<lambda>k. key r = Some (kid k)) ks = None"
    proof (rule ccontr)
      assume "\<not> ?thesis"
      then obtain k where k: "k \<in> set ks" "key r = Some (kid k)" by (auto simp: find_None_iff)
      then have "Some k \<in> set (map scan (filter P R))" unfolding scan by simp
      then obtain r' where r': "r' \<in> set R" "P r'" "scan r' = Some k" by (metis (no_types, lifting) imageE list.set_map mem_Collect_eq set_filter)
      with key k(2) have "key r' = key r" by simp
      with dist r r'(1) have "r' = r" by (meson distinct_map inj_onD)
      with r'(2) False show False by simp
    qed
    with False fold show ?thesis by simp
  qed
qed

lemma on_rows_cong: "(\<And>r. r \<in> set (rows_of t d) \<Longrightarrow> f r = g r) \<Longrightarrow> on_rows t f d = on_rows t g d"
  by (cases "fd_tables d t") (simp_all add: on_rows_def rows_of_def cong: map_cong)

lemma backfill_events_effect:
  assumes ok: "backfill_events E d = (Inr u, d')" and cut: "sq_cut E = (\<lambda>_. None)"
    and ids: "list_all (\<lambda>r. text_key r \<noteq> None) (rows_of ''events'' d)" "distinct (map text_key (rows_of ''events'' d))"
  shows "d' = on_rows ''events'' with_times d"
proof -
  let ?R = "rows_of ''events'' d"
  obtain ks where scan: "map scan_times (filter needs_time ?R) = map Some ks" and run: "each (backfill_event E) ks d = (Inr (), d')"
    using ok by (auto simp: backfill_events_def delivered_def cut all_some_iff split: if_splits option.splits)
  have key: "text_key r = Some (fst k)" if "r \<in> set ?R" "scan_times r = Some k" for r k
    using upd_times_scan(2) [OF _ that(2)] ids(1) that(1) by (auto simp: list_all_iff)
  have row: "fold upd_times ks r = with_times r" if r: "r \<in> set ?R" for r
  proof -
    have "fold upd_times ks r = (if needs_time r then upd_times (the (scan_times r)) r else r)"
      by (rule keyed_backfill [OF scan key _ _ ids(2) r]) (auto simp: upd_times_def set_times_other split: prod.splits)
    moreover have "upd_times (the (scan_times r)) r = with_times r" if "needs_time r"
    proof -
      have "scan_times r \<in> set (map scan_times (filter needs_time ?R))" using that r by simp
      then obtain k where "scan_times r = Some k" unfolding scan by auto
      with upd_times_scan(1) [OF _ this] ids(1) r that show ?thesis by (auto simp: with_times_def list_all_iff)
    qed
    ultimately show ?thesis by (simp add: with_times_def)
  qed
  have "d' = on_rows ''events'' (fold upd_times ks) d"
    using each_on_rows [OF _ run, of "''events''" upd_times] backfill_event_effect by blast
  also have "\<dots> = on_rows ''events'' with_times d" using row by (rule on_rows_cong)
  finally show ?thesis .
qed

subsection \<open>Log times\<close>

definition upd_log :: "int \<times> string \<Rightarrow> sqlrow \<Rightarrow> sqlrow" where
  "upd_log = (\<lambda>(i, created). set_log_time i (ms_of (SText created)))"

lemma backfill_log_effect:
  "backfill_log E k d = (Inr u, d') \<Longrightarrow> d' = on_rows ''action_logs'' (upd_log k) d"
  by (auto simp: backfill_log_def upd_log_def ms_of_def stmt_ok split: option.splits prod.splits)

lemma upd_log_scan:
  assumes "scan_log r = Some k"
  shows "upd_log k r = r(''created_at_ms'' := ms_of (r ''created_at''))" "int_key r = Some (fst k)"
  using assms by (auto simp: upd_log_def int_key_def set_log_time_def ms_of_def split: option.splits sqlval.splits)

lemma int_key_ms [simp]: "int_key (r(''created_at_ms'' := v)) = int_key r"
  by (simp add: int_key_def)

lemma set_log_time_facts:
  "int_key r \<noteq> Some i \<Longrightarrow> set_log_time i v r = r" "int_key (set_log_time i v r) = int_key r"
  by (auto simp: set_log_time_def int_key_def)

lemma backfill_logs_effect:
  assumes ok: "backfill_logs E d = (Inr u, d')" and cut: "sq_cut E = (\<lambda>_. None)"
    and ids: "distinct (map int_key (rows_of ''action_logs'' d))"
  shows "d' = on_rows ''action_logs'' (\<lambda>r. if r ''created_at_ms'' = SNull then r(''created_at_ms'' := ms_of (r ''created_at'')) else r) d"
proof -
  let ?R = "rows_of ''action_logs'' d" and ?P = "\<lambda>r. r ''created_at_ms'' = SNull"
  obtain ks where scan: "map scan_log (filter ?P ?R) = map Some ks" and run: "each (backfill_log E) ks d = (Inr (), d')"
    using ok by (auto simp: backfill_logs_def delivered_def cut all_some_iff split: if_splits option.splits simp del: scan_log.simps)
  have row: "fold upd_log ks r = (if ?P r then r(''created_at_ms'' := ms_of (r ''created_at'')) else r)" if r: "r \<in> set ?R" for r
  proof -
    have "fold upd_log ks r = (if ?P r then upd_log (the (scan_log r)) r else r)"
      by (rule keyed_backfill [OF scan upd_log_scan(2) _ _ ids r]) (auto simp: upd_log_def set_log_time_facts split: prod.splits)
    moreover have "upd_log (the (scan_log r)) r = r(''created_at_ms'' := ms_of (r ''created_at''))" if "?P r"
    proof -
      have "scan_log r \<in> set (map scan_log (filter ?P ?R))" using that r by simp
      then obtain k where "scan_log r = Some k" unfolding scan by auto
      with upd_log_scan(1) [OF this] show ?thesis by simp
    qed
    ultimately show ?thesis by simp
  qed
  have "d' = on_rows ''action_logs'' (fold upd_log ks) d"
    using each_on_rows [OF _ run, of "''action_logs''" upd_log] backfill_log_effect by blast
  also note on_rows_cong [OF row]
  finally show ?thesis .
qed

lemma int_key_log_time [simp]: "int_key (sqlite_log_time E r) = int_key r"
  by (simp add: sqlite_log_time_def)

lemma backfillEpochColumns_effect:
  assumes ok: "backfillEpochColumns E d = (Inr u, d')" and cut: "sq_cut E = (\<lambda>_. None)" and ids: "keys_ok d"
  shows "d' = on_rows ''action_logs'' (with_log_time E) (on_rows ''events'' with_times d)"
proof -
  from ok obtain d1 where d1: "backfill_events E d = (Inr (), d1)"
      and rest: "backfill_logs E (on_rows ''action_logs'' (sqlite_log_time E) d1) = (Inr (), d')"
    by (auto simp: backfillEpochColumns_def and_then_ok stmt_ok)
  have e: "d1 = on_rows ''events'' with_times d" using backfill_events_effect [OF d1 cut] ids by (simp add: keys_ok_def)
  have "distinct (map int_key (rows_of ''action_logs'' (on_rows ''action_logs'' (sqlite_log_time E) d1)))"
    using ids by (simp add: e keys_ok_def comp_def)
  note l = backfill_logs_effect [OF rest cut this]
  have "(\<lambda>r. if r ''created_at_ms'' = SNull then r(''created_at_ms'' := ms_of (r ''created_at'')) else r) \<circ> sqlite_log_time E = with_log_time E"
  proof
    fix r
    show "((\<lambda>r. if r ''created_at_ms'' = SNull then r(''created_at_ms'' := ms_of (r ''created_at'')) else r) \<circ> sqlite_log_time E) r =
        with_log_time E r"
      by (cases "sq_strftime E (r ''created_at'')") (simp_all add: sqlite_log_time_def with_log_time_def)
  qed
  with l e show ?thesis by (simp only: on_rows_comp)
qed

subsection \<open>Tables and columns\<close>

text \<open>Adding columns touches one table: its new columns and, in its rows, their defaults.\<close>

definition widened :: "string \<Rightarrow> string list \<Rightarrow> (sqlrow \<Rightarrow> sqlrow) \<Rightarrow> file_db \<Rightarrow> file_db" where
  "widened t names f d = d\<lparr>fd_tables := (fd_tables d)(t := map_option
     (\<lambda>tb. \<lparr>tb_cols = tb_cols tb @ names, tb_rows = map f (tb_rows tb)\<rparr>) (fd_tables d t))\<rparr>"

lemma add_column_widened: "add_column t name typ = widened t [name] (\<lambda>r. r(name := column_default typ))"
  by (simp add: fun_eq_iff add_column_def widened_def)

lemma widened_comp: "widened t ns f (widened t ms g d) = widened t (ms @ ns) (f \<circ> g) d"
  by (cases "fd_tables d t") (simp_all add: widened_def)

lemma widened_id: "widened t [] (\<lambda>r. r) d = d"
  by (cases "fd_tables d t") (simp_all add: widened_def fun_upd_idem)

lemma widened_facts [simp]:
  "rows_of t' (widened t ns f d) = (if t' = t then map f (rows_of t d) else rows_of t' d)"
  "fd_tables (widened t ns f d) t' = None \<longleftrightarrow> fd_tables d t' = None"
  "fd_indexes (widened t ns f d) = fd_indexes d"
  by (auto simp: widened_def rows_of_def split: option.splits)

lemma cols_widened:
  "cols_of t' (widened t ns f d) = (if t' = t \<and> fd_tables d t \<noteq> None then cols_of t d @ ns else cols_of t' d)"
  by (auto simp: widened_def cols_of_def split: option.splits)

definition add_defaults :: "(string \<times> string) list \<Rightarrow> sqlrow \<Rightarrow> sqlrow" where
  "add_defaults = fold (\<lambda>(name, typ) r. r(name := column_default typ))"

lemma add_columns_effect:
  assumes "each (\<lambda>(name, typ). if name \<in> set existing then (\<lambda>d. (Inr (), d)) else alter_table E t name typ) cols d = (Inr (), d')"
  shows "d' = widened t (map fst (filter (\<lambda>c. fst c \<notin> set existing) cols))
      (add_defaults (filter (\<lambda>c. fst c \<notin> set existing) cols)) d"
  using assms
proof (induction cols arbitrary: d)
  case Nil
  then show ?case by (simp add: widened_id add_defaults_def id_def)
next
  case (Cons c cols)
  obtain name "typ" where c: "c = (name, typ)" by fastforce
  show ?case
  proof (cases "name \<in> set existing")
    case True
    with Cons c show ?thesis by (auto simp: and_then_ok)
  next
    case False
    with Cons.prems c obtain d1 where d1: "alter_table E t name typ d = (Inr (), d1)"
        "each (\<lambda>(name, typ). if name \<in> set existing then (\<lambda>d. (Inr (), d)) else alter_table E t name typ) cols d1 = (Inr (), d')"
      by (auto simp: and_then_ok)
    from d1(1) have "d1 = widened t [name] (\<lambda>r. r(name := column_default typ)) d"
      by (auto simp: alter_table_def stmt_ok add_column_widened split: if_splits)
    with Cons.IH [OF d1(2)] False c show ?thesis by (simp add: widened_comp comp_def add_defaults_def)
  qed
qed

lemma add_defaults_apply:
  "distinct (map fst cols) \<Longrightarrow> add_defaults cols r c = (case map_of cols c of None \<Rightarrow> r c | Some typ \<Rightarrow> column_default typ)"
  unfolding add_defaults_def by (induction cols arbitrary: r) (auto split: option.splits dest: map_of_SomeD simp: rev_image_eqI)

lemma map_of_filter_key: "map_of (filter (\<lambda>c. Q (fst c)) cols) k = (if Q k then map_of cols k else None)"
  by (induction cols) auto

lemma ensureColumns_effect:
  assumes ok: "ensureColumns E t cols d = (Inr (), d')" and ord: "\<And>xs. mset (sq_order E xs) = mset xs"
    and dist: "distinct (map fst cols)"
  shows "\<exists>names. set names \<union> set (cols_of t d) = fst ` set cols \<union> set (cols_of t d) \<and>
    d' = widened t names (with_defaults (cols_of t d) cols) d"
proof -
  let ?L = "filter (\<lambda>c. fst c \<notin> set (cols_of t d)) (sq_order E cols)"
  have set: "set (sq_order E cols) = set cols" using ord by (metis set_mset_mset)
  have d0: "distinct (map fst (sq_order E cols))" using dist ord [of cols] by (metis mset_eq_imp_distinct_iff mset_map)
  have eff: "d' = widened t (map fst ?L) (add_defaults ?L) d"
    using ok add_columns_effect by (auto simp: ensureColumns_def columnSet_def split: if_splits)
  have rows: "add_defaults ?L = with_defaults (cols_of t d) cols"
  proof (intro ext)
    fix r c
    have "distinct (map fst ?L)" using d0 by (rule distinct_map_filter)
    then have "add_defaults ?L r c = (case map_of ?L c of None \<Rightarrow> r c | Some typ \<Rightarrow> column_default typ)" by (rule add_defaults_apply)
    moreover have "map_of (sq_order E cols) = map_of cols" using d0 dist set by (metis map_of_inject_set)
    moreover note map_of_filter_key [of "\<lambda>k. k \<notin> set (cols_of t d)" "sq_order E cols" c]
    ultimately show "add_defaults ?L r c = with_defaults (cols_of t d) cols r c"
      by (cases "map_of cols c") (simp_all add: with_defaults_def)
  qed
  have "set (map fst ?L) \<union> set (cols_of t d) = fst ` set cols \<union> set (cols_of t d)" by (auto simp: set)
  with eff [unfolded rows] show ?thesis by (intro exI [of _ "map fst ?L"] conjI)
qed

lemma create_table_facts:
  "rows_of t' (create_table s d) = rows_of t' d" "fd_indexes (create_table s d) = fd_indexes d"
  "fd_tables (create_table s d) t' = None \<longleftrightarrow> fd_tables d t' = None \<and> t' \<noteq> fst s"
  by (auto simp: create_table_def rows_of_def split: option.splits prod.splits)

lemma create_tables_effect:
  assumes "each (\<lambda>s. stmt E (l s) e (create_table s)) ss d = (Inr (), d')"
  shows "rows_of t d' = rows_of t d \<and> fd_indexes d' = fd_indexes d \<and> (fd_tables d' t = None \<longleftrightarrow> fd_tables d t = None \<and> t \<notin> fst ` set ss) \<and>
    (fd_tables d t \<noteq> None \<longrightarrow> cols_of t d' = cols_of t d)"
  using assms
proof (induction ss arbitrary: d)
  case (Cons s ss)
  then have d': "each (\<lambda>s. stmt E (l s) e (create_table s)) ss (create_table s d) = (Inr (), d')" by (auto simp: and_then_ok stmt_ok)
  have "fd_tables d t \<noteq> None \<Longrightarrow> cols_of t (create_table s d) = cols_of t d"
    by (auto simp: create_table_def cols_of_def split: option.splits prod.splits)
  with Cons.IH [OF d'] show ?case by (auto simp: create_table_facts)
qed simp

lemma create_indexes_effect:
  "each (create_index E) names d = (Inr (), d') \<Longrightarrow>
     fd_tables d' = fd_tables d \<and> set (fd_indexes d') = set (fd_indexes d) \<union> set names"
proof (induction names arbitrary: d)
  case (Cons n names)
  then obtain d1 where d1: "create_index E n d = (Inr (), d1)" "each (create_index E) names d1 = (Inr (), d')" by (auto simp: and_then_ok)
  then have "fd_tables d1 = fd_tables d \<and> set (fd_indexes d1) = insert n (set (fd_indexes d))"
    by (auto simp: create_index_def stmt_ok split: if_splits)
  with Cons.IH [OF d1(2)] show ?case by auto
qed simp

end
