(* ===== verification/Open_Store.thy ===== *)
theory Open_Store
  imports Migration
begin

text \<open>
  What the migration of a store file guarantees: every row of an older file is carried over with
  the columns and integer times of the current schema, and opening a migrated file again changes
  nothing. The opening itself (\<^verbatim>\<open>Open\<close> and \<^verbatim>\<open>sqliteDSN\<close>) is at the end.
\<close>

section \<open>A successful migration\<close>

lemma each_all_ok: "each f xs d = (Inr (), d') \<Longrightarrow> x \<in> set xs \<Longrightarrow> \<exists>d1 d2. f x d1 = (Inr (), d2)"
  by (induction xs arbitrary: d) (auto simp: and_then_ok)

lemma backfill_event_parsed:
  "backfill_event E (i, rec, proc) d = (Inr (), d') \<Longrightarrow>
     parseSQLiteTime rec \<noteq> None \<and> (\<forall>p. proc = Some p \<longrightarrow> p = [] \<or> parseSQLiteTime p \<noteq> None)"
  by (auto simp: backfill_event_def split: option.splits if_splits)

lemma backfill_log_parsed: "backfill_log E (i, created) d = (Inr (), d') \<Longrightarrow> parseSQLiteTime created \<noteq> None"
  by (auto simp: backfill_log_def split: option.splits)

lemma backfill_events_parsed:
  assumes ok: "backfill_events E d = (Inr (), d')" and cut: "\<And>q. sq_cut E q = None"
    and r: "r \<in> set (rows_of ''events'' d)" "needs_time r"
  shows "ms_of (r ''received_at'') \<noteq> SNull \<and> (\<forall>p. cast_text (r ''processed_at'') = Some p \<longrightarrow> p = [] \<or> parseSQLiteTime p \<noteq> None)"
proof -
  obtain ks where scan: "map scan_times (filter needs_time (rows_of ''events'' d)) = map Some ks" and run: "each (backfill_event E) ks d = (Inr (), d')"
    using ok by (auto simp: backfill_events_def delivered_def cut all_some_iff split: if_splits option.splits)
  have "scan_times r \<in> set (map scan_times (filter needs_time (rows_of ''events'' d)))" using r by simp
  then obtain k where k: "k \<in> set ks" "scan_times r = Some k" unfolding scan by auto
  obtain i rec proc where p: "k = (i, rec, proc)" by (cases k)
  then have "parseSQLiteTime rec \<noteq> None \<and> (\<forall>p. proc = Some p \<longrightarrow> p = [] \<or> parseSQLiteTime p \<noteq> None)"
    using each_all_ok [OF run k(1)] backfill_event_parsed by blast
  moreover have "cast_text (r ''received_at'') = Some rec \<and> cast_text (r ''processed_at'') = proc"
    using k(2) p by (auto simp: scan_times_def split: option.splits)
  ultimately show ?thesis by (auto simp: ms_of_def)
qed

lemma backfill_logs_parsed:
  assumes ok: "backfill_logs E d = (Inr (), d')" and cut: "\<And>q. sq_cut E q = None"
    and r: "r \<in> set (rows_of ''action_logs'' d)" "r ''created_at_ms'' = SNull"
  shows "ms_of (r ''created_at'') \<noteq> SNull"
proof -
  let ?P = "\<lambda>r. r ''created_at_ms'' = SNull"
  obtain ks where scan: "map scan_log (filter ?P (rows_of ''action_logs'' d)) = map Some ks" and run: "each (backfill_log E) ks d = (Inr (), d')"
    using ok by (auto simp: backfill_logs_def delivered_def cut all_some_iff simp del: scan_log.simps split: if_splits option.splits)
  have "scan_log r \<in> set (map scan_log (filter ?P (rows_of ''action_logs'' d)))" using r by simp
  then obtain k where k: "k \<in> set ks" "scan_log r = Some k" unfolding scan by auto
  obtain i created where p: "k = (i, created)" by (cases k)
  then have "parseSQLiteTime created \<noteq> None" using each_all_ok [OF run k(1)] backfill_log_parsed by blast
  moreover have "cast_text (r ''created_at'') = Some created"
    using k(2) p by (auto split: option.splits sqlval.splits)
  ultimately show ?thesis by (auto simp: ms_of_def)
qed

text \<open>The migration in its stages.\<close>

definition widen_all :: "string list \<Rightarrow> string list \<Rightarrow> string list \<Rightarrow> file_db \<Rightarrow> file_db" where
  "widen_all n1 n2 n3 d =
     widened ''_ready_check'' n3 (with_defaults (cols_of ''_ready_check'' d) ready_columns)
       (widened ''action_logs'' n2 (with_defaults (cols_of ''action_logs'' d) log_columns)
         (widened ''events'' n1 (with_defaults (cols_of ''events'' d) event_columns) d))"

lemma columns_distinct: "distinct (map fst event_columns)" "distinct (map fst log_columns)" "distinct (map fst ready_columns)"
  by (simp_all add: event_columns_def log_columns_def ready_columns_def)

lemma key_no_default:
  "map_of event_columns ''id'' = None" "map_of log_columns ''id'' = None" "map_of event_columns ''source'' = None"
  "map_of event_columns ''received_at'' = None" "map_of event_columns ''processed_at'' = None" "map_of event_columns ''status'' = None"
  "map_of log_columns ''created_at'' = None"
  by (simp_all add: event_columns_def log_columns_def)

lemma with_defaults_key [simp]:
  "text_key (with_defaults ex event_columns r) = text_key r" "int_key (with_defaults ex log_columns r) = int_key r"
  by (simp_all add: text_key_def int_key_def with_defaults_def key_no_default)

lemma migrate_stages:
  assumes ok: "migrate E d = (Inr (), d')" and cut: "\<And>q. sq_cut E q = None"
    and ord: "\<And>xs. mset (sq_order E xs) = mset xs" and keys: "keys_ok d"
  obtains d1 d4 d6 n1 n2 n3 where
    "create_tables E d = (Inr (), d1)"
    "d4 = widen_all n1 n2 n3 d1"
    "set n1 \<union> set (cols_of ''events'' d1) = fst ` set event_columns \<union> set (cols_of ''events'' d1)"
    "set n2 \<union> set (cols_of ''action_logs'' d1) = fst ` set log_columns \<union> set (cols_of ''action_logs'' d1)"
    "set n3 \<union> set (cols_of ''_ready_check'' d1) = fst ` set ready_columns \<union> set (cols_of ''_ready_check'' d1)"
    "keys_ok d4" "backfillEpochColumns E d4 = (Inr (), on_rows ''action_logs'' (with_log_time E) (on_rows ''events'' with_times d4))"
    "d6 = on_rows ''events'' legacy_status (drop_index ''idx_events_hmac_body''
       (on_rows ''action_logs'' (with_log_time E) (on_rows ''events'' with_times d4)))"
    "each (create_index E) index_names d6 = (Inr (), d')"
proof -
  from ok obtain d1 d2 d3 d4 d5 where st: "create_tables E d = (Inr (), d1)" "ensureColumns E ''events'' event_columns d1 = (Inr (), d2)"
    "ensureColumns E ''action_logs'' log_columns d2 = (Inr (), d3)" "ensureColumns E ''_ready_check'' ready_columns d3 = (Inr (), d4)"
    "backfillEpochColumns E d4 = (Inr (), d5)"
    and last: "each (create_index E) index_names (on_rows ''events'' legacy_status (drop_index ''idx_events_hmac_body'' d5)) = (Inr (), d')"
    unfolding migrate_def and_then_ok stmt_ok by blast
  from ensureColumns_effect [OF st(2) ord columns_distinct(1)] obtain n1 where
    n1: "set n1 \<union> set (cols_of ''events'' d1) = fst ` set event_columns \<union> set (cols_of ''events'' d1)"
    "d2 = widened ''events'' n1 (with_defaults (cols_of ''events'' d1) event_columns) d1" by blast
  from ensureColumns_effect [OF st(3) ord columns_distinct(2)] obtain n2 where
    n2: "set n2 \<union> set (cols_of ''action_logs'' d2) = fst ` set log_columns \<union> set (cols_of ''action_logs'' d2)"
    "d3 = widened ''action_logs'' n2 (with_defaults (cols_of ''action_logs'' d2) log_columns) d2" by blast
  from ensureColumns_effect [OF st(4) ord columns_distinct(3)] obtain n3 where
    n3: "set n3 \<union> set (cols_of ''_ready_check'' d3) = fst ` set ready_columns \<union> set (cols_of ''_ready_check'' d3)"
    "d4 = widened ''_ready_check'' n3 (with_defaults (cols_of ''_ready_check'' d3) ready_columns) d3" by blast
  have c2: "cols_of ''action_logs'' d2 = cols_of ''action_logs'' d1" by (simp add: n1(2) cols_widened)
  have c3: "cols_of ''_ready_check'' d3 = cols_of ''_ready_check'' d1" by (simp add: n1(2) n2(2) cols_widened)
  have d4: "d4 = widen_all n1 n2 n3 d1" by (simp add: widen_all_def n3(2) n2(2) n1(2) cols_widened)
  have rows1: "rows_of t d1 = rows_of t d" for t
    using create_tables_effect [OF st(1) [unfolded create_tables_def], of t] by simp
  have k4: "keys_ok d4"
    using keys by (simp add: keys_ok_def d4 widen_all_def rows1 list_all_iff comp_def)
  have d5: "d5 = on_rows ''action_logs'' (with_log_time E) (on_rows ''events'' with_times d4)"
    using backfillEpochColumns_effect [OF st(5) _ k4] cut by (simp add: fun_eq_iff)
  show ?thesis by (rule that [OF st(1) d4 n1(1) n2(1) [unfolded c2] n3(1) [unfolded c3] k4 st(5) [unfolded d5] refl last [unfolded d5]])
qed


definition upgraded_event :: "string list \<Rightarrow> sqlrow \<Rightarrow> sqlrow" where
  "upgraded_event existing r = legacy_status (with_times (with_defaults existing event_columns r))"

definition upgraded_log :: "sql_env \<Rightarrow> string list \<Rightarrow> sqlrow \<Rightarrow> sqlrow" where
  "upgraded_log E existing r = with_log_time E (with_defaults existing log_columns r)"

lemma rows_of_cong: "fd_tables d = fd_tables d' \<Longrightarrow> rows_of t d = rows_of t d'" "fd_tables d = fd_tables d' \<Longrightarrow> cols_of t d = cols_of t d'"
  by (simp_all add: rows_of_def cols_of_def)

lemma drop_index_facts [simp]:
  "rows_of t (drop_index n d) = rows_of t d" "cols_of t (drop_index n d) = cols_of t d" "fd_tables (drop_index n d) = fd_tables d"
  "set (fd_indexes (drop_index n d)) = set (fd_indexes d) - {n}"
  by (auto simp: drop_index_def rows_of_def cols_of_def)

lemma map_old_cols:
  assumes "fd_tables d t \<noteq> None \<Longrightarrow> cs = cols_of t d"
  shows "map (f cs) (rows_of t d) = map (f (cols_of t d)) (rows_of t d)"
  using assms by (cases "fd_tables d t") (auto simp: rows_of_def)

lemma migrate_rows:
  assumes ok: "migrate E d = (Inr (), d')" and cut: "\<And>q. sq_cut E q = None"
    and ord: "\<And>xs. mset (sq_order E xs) = mset xs" and keys: "keys_ok d"
  shows "rows_of ''events'' d' = map (upgraded_event (cols_of ''events'' d)) (rows_of ''events'' d)"
    "rows_of ''action_logs'' d' = map (upgraded_log E (cols_of ''action_logs'' d)) (rows_of ''action_logs'' d)"
    "rows_of ''_ready_check'' d' = map (with_defaults (cols_of ''_ready_check'' d) ready_columns) (rows_of ''_ready_check'' d)"
    "t \<notin> {''events'', ''action_logs'', ''_ready_check''} \<Longrightarrow> rows_of t d' = rows_of t d"
    "fst ` set event_columns \<subseteq> set (cols_of ''events'' d')" "fst ` set log_columns \<subseteq> set (cols_of ''action_logs'' d')"
    "fst ` set ready_columns \<subseteq> set (cols_of ''_ready_check'' d')"
    "s \<in> fst ` set base_schema \<Longrightarrow> fd_tables d' s \<noteq> None"
    "set (fd_indexes d') = set (fd_indexes d) - {''idx_events_hmac_body''} \<union> set index_names"
proof -
  from migrate_stages [OF assms] obtain d1 d4 d6 n1 n2 n3 where
    d1: "create_tables E d = (Inr (), d1)" and d4: "d4 = widen_all n1 n2 n3 d1"
    and n: "set n1 \<union> set (cols_of ''events'' d1) = fst ` set event_columns \<union> set (cols_of ''events'' d1)"
      "set n2 \<union> set (cols_of ''action_logs'' d1) = fst ` set log_columns \<union> set (cols_of ''action_logs'' d1)"
      "set n3 \<union> set (cols_of ''_ready_check'' d1) = fst ` set ready_columns \<union> set (cols_of ''_ready_check'' d1)"
    and d6: "d6 = on_rows ''events'' legacy_status (drop_index ''idx_events_hmac_body''
       (on_rows ''action_logs'' (with_log_time E) (on_rows ''events'' with_times d4)))"
    and ix: "each (create_index E) index_names d6 = (Inr (), d')" by metis
  have tables: "fd_tables d' = fd_tables d6" and index: "set (fd_indexes d') = set (fd_indexes d6) \<union> set index_names"
    using create_indexes_effect [OF ix] by auto
  note rows = rows_of_cong(1) [OF tables] and cols = rows_of_cong(2) [OF tables]
  have c: "rows_of t d1 = rows_of t d" "fd_indexes d1 = fd_indexes d"
      "fd_tables d1 t = None \<longleftrightarrow> fd_tables d t = None \<and> t \<notin> fst ` set base_schema"
      "fd_tables d t \<noteq> None \<Longrightarrow> cols_of t d1 = cols_of t d" for t
    using create_tables_effect [of E _ _ base_schema d d1 t] d1 unfolding create_tables_def by auto
  note widen = d6 d4 widen_all_def
  show "rows_of ''events'' d' = map (upgraded_event (cols_of ''events'' d)) (rows_of ''events'' d)"
    using map_old_cols [of d "''events''" "cols_of ''events'' d1" upgraded_event] c(4) by (simp add: rows widen c(1) upgraded_event_def)
  show "rows_of ''action_logs'' d' = map (upgraded_log E (cols_of ''action_logs'' d)) (rows_of ''action_logs'' d)"
    using map_old_cols [of d "''action_logs''" "cols_of ''action_logs'' d1" "upgraded_log E"] c(4) by (simp add: rows widen c(1) upgraded_log_def)
  show "rows_of ''_ready_check'' d' = map (with_defaults (cols_of ''_ready_check'' d) ready_columns) (rows_of ''_ready_check'' d)"
    using map_old_cols [of d "''_ready_check''" "cols_of ''_ready_check'' d1" "\<lambda>cs. with_defaults cs ready_columns"] c(4) by (simp add: rows widen c(1))
  show "rows_of t d' = rows_of t d" if "t \<notin> {''events'', ''action_logs'', ''_ready_check''}" for t
    using that by (simp add: rows widen c(1))
  have schema: "fst ` set base_schema = {''events'', ''action_logs'', ''event_actions'', ''replay_guard'', ''_ready_check'', ''heartbeat_logs''}"
    by (simp add: base_schema_def)
  have some: "fd_tables d1 ''events'' \<noteq> None" "fd_tables d1 ''action_logs'' \<noteq> None" "fd_tables d1 ''_ready_check'' \<noteq> None"
    using c(3) by (simp_all add: schema)
  show "fst ` set event_columns \<subseteq> set (cols_of ''events'' d')" "fst ` set log_columns \<subseteq> set (cols_of ''action_logs'' d')"
      "fst ` set ready_columns \<subseteq> set (cols_of ''_ready_check'' d')"
    using n some by (auto simp: cols widen cols_widened)
  show "fd_tables d' s \<noteq> None" if "s \<in> fst ` set base_schema" for s
    using that c(3) [of s] by (simp add: tables widen)
  show "set (fd_indexes d') = set (fd_indexes d) - {''idx_events_hmac_body''} \<union> set index_names"
    by (simp add: index widen c(2))
qed


section \<open>The migrated rows\<close>

lemma with_defaults_same [simp]:
  "map_of cols c = None \<Longrightarrow> with_defaults ex cols r c = r c"
  by (simp add: with_defaults_def)

lemma with_defaults_existing: "c \<in> set ex \<Longrightarrow> with_defaults ex cols r c = r c"
  by (simp add: with_defaults_def split: option.splits)

text \<open>The rows that still look incomplete after the migration have an empty text as their completion time.\<close>

lemma with_times_received: "(needs_time r \<Longrightarrow> ms_of (r ''received_at'') \<noteq> SNull) \<Longrightarrow> with_times r ''received_at_ms'' \<noteq> SNull"
  by (auto simp: with_times_def needs_time_def)

lemma legacy_status_facts:
  "legacy_status r ''status'' \<noteq> SText ''received''" "legacy_status r ''status'' \<noteq> SText ''rejected''"
  "legacy_status (legacy_status r) = legacy_status r" "c \<noteq> ''status'' \<Longrightarrow> legacy_status r c = r c"
  by (auto simp: legacy_status_def)

lemma with_times_other: "c \<notin> {''received_at_ms'', ''processed_at_ms''} \<Longrightarrow> with_times r c = r c"
  by (simp add: with_times_def)

lemma with_log_time_other: "c \<noteq> ''created_at_ms'' \<Longrightarrow> with_log_time E r c = r c"
  by (simp add: with_log_time_def)

lemma migrate_times:
  assumes ok: "migrate E d = (Inr (), d')" and cut: "\<And>q. sq_cut E q = None"
    and ord: "\<And>xs. mset (sq_order E xs) = mset xs" and keys: "keys_ok d"
  shows "r \<in> set (rows_of ''events'' d') \<Longrightarrow> r ''received_at_ms'' \<noteq> SNull \<and> (needs_time r \<longrightarrow>
      r ''received_at_ms'' = ms_of (r ''received_at'') \<and> r ''processed_at_ms'' = SNull \<and> cast_text (r ''processed_at'') = Some [])"
    "r \<in> set (rows_of ''action_logs'' d') \<Longrightarrow> r ''created_at_ms'' \<noteq> SNull"
proof -
  from migrate_stages [OF assms] obtain d4 d6 where k4: "keys_ok d4"
    and b: "backfillEpochColumns E d4 = (Inr (), on_rows ''action_logs'' (with_log_time E) (on_rows ''events'' with_times d4))"
    and d6: "d6 = on_rows ''events'' legacy_status (drop_index ''idx_events_hmac_body''
       (on_rows ''action_logs'' (with_log_time E) (on_rows ''events'' with_times d4)))"
    and ix: "each (create_index E) index_names d6 = (Inr (), d')" by metis
  note rows = rows_of_cong(1) [OF conjunct1 [OF create_indexes_effect [OF ix]]]
  from b obtain d5 where b1: "backfill_events E d4 = (Inr (), d5)"
      and b2: "\<exists>d. backfill_logs E (on_rows ''action_logs'' (sqlite_log_time E) d5) = (Inr (), d)"
    by (auto simp: backfillEpochColumns_def and_then_ok stmt_ok)
  have d5: "d5 = on_rows ''events'' with_times d4"
    using backfill_events_effect [OF b1] cut k4 by (simp add: keys_ok_def fun_eq_iff)
  show "r ''received_at_ms'' \<noteq> SNull \<and> (needs_time r \<longrightarrow>
      r ''received_at_ms'' = ms_of (r ''received_at'') \<and> r ''processed_at_ms'' = SNull \<and> cast_text (r ''processed_at'') = Some [])"
    if "r \<in> set (rows_of ''events'' d')"
  proof -
    from that obtain r4 where r4: "r4 \<in> set (rows_of ''events'' d4)" "r = legacy_status (with_times r4)"
      by (auto simp: rows d6)
    have "with_times r4 ''received_at_ms'' \<noteq> SNull"
      using backfill_events_parsed [OF b1 cut r4(1)] by (intro with_times_received) blast
    then have ne: "r ''received_at_ms'' \<noteq> SNull" by (simp add: r4(2) legacy_status_facts(4))
    have same: "r ''received_at'' = r4 ''received_at''" "r ''processed_at'' = r4 ''processed_at''"
        "r ''received_at_ms'' = with_times r4 ''received_at_ms''" "r ''processed_at_ms'' = with_times r4 ''processed_at_ms''"
      by (simp_all add: r4(2) legacy_status_facts(4) with_times_other)
    have "r ''received_at_ms'' = ms_of (r ''received_at'') \<and> r ''processed_at_ms'' = SNull \<and> cast_text (r ''processed_at'') = Some []"
      if n: "needs_time r"
    proof -
      have p: "r ''processed_at'' \<noteq> SNull" "r ''processed_at_ms'' = SNull" using n ne by (auto simp: needs_time_def)
      have n4: "needs_time r4"
      proof (rule ccontr)
        assume f: "\<not> needs_time r4"
        then have "with_times r4 = r4" by (simp add: with_times_def)
        with n same f show False by (simp add: needs_time_def)
      qed
      then have "r ''received_at_ms'' = ms_of (r ''received_at'')" and ms: "ms_of (r ''processed_at'') = SNull"
        using same p(2) by (simp_all add: with_times_def)
      moreover obtain t where t: "cast_text (r ''processed_at'') = Some t" using p(1) by (cases "r ''processed_at''") auto
      moreover have "t = []" using backfill_events_parsed [OF b1 cut r4(1) n4] ms t same(2) by (auto simp: ms_of_def)
      ultimately show ?thesis using p(2) by simp
    qed
    with ne show ?thesis by blast
  qed
  show "r ''created_at_ms'' \<noteq> SNull" if "r \<in> set (rows_of ''action_logs'' d')"
  proof -
    from that obtain r4 where r4: "r4 \<in> set (rows_of ''action_logs'' d4)" "r = with_log_time E r4" by (auto simp: rows d6)
    let ?s = "sqlite_log_time E r4"
    have "?s \<in> set (rows_of ''action_logs'' (on_rows ''action_logs'' (sqlite_log_time E) d5))" using r4(1) by (simp add: d5)
    then have "?s ''created_at_ms'' = SNull \<Longrightarrow> ms_of (?s ''created_at'') \<noteq> SNull" using b2 backfill_logs_parsed [OF _ cut] by blast
    then show ?thesis unfolding r4(2) by (auto simp: with_log_time_def sqlite_log_time_def split: option.splits)
  qed
qed

lemma unique_deliveries_map:
  assumes "\<And>r. r \<in> set R \<Longrightarrow> f r ''source'' = r ''source'' \<and> f r ''external_delivery_id'' = r ''external_delivery_id''"
  shows "map (\<lambda>r. (r ''source'', r ''external_delivery_id'')) (filter in_delivery_index (map f R)) =
    map (\<lambda>r. (r ''source'', r ''external_delivery_id'')) (filter in_delivery_index R)"
  using assms by (induction R) (auto simp: in_delivery_index_def)

lemma unique_deliveries_cong: "fd_tables d = fd_tables d' \<Longrightarrow> unique_deliveries d \<longleftrightarrow> unique_deliveries d'"
  by (simp add: unique_deliveries_def rows_of_def)

lemma create_indexes_unique:
  "each (create_index E) names d = (Inr (), d') \<Longrightarrow> ''idx_events_delivery'' \<in> set names \<Longrightarrow> ''idx_events_delivery'' \<notin> set (fd_indexes d) \<Longrightarrow>
     unique_deliveries d"
proof (induction names arbitrary: d)
  case (Cons n names)
  then obtain d1 where d1: "create_index E n d = (Inr (), d1)" "each (create_index E) names d1 = (Inr (), d')" by (auto simp: and_then_ok)
  show ?case
  proof (cases "n = ''idx_events_delivery''")
    case True
    with d1(1) Cons.prems(3) show ?thesis by (auto simp: create_index_def split: if_splits)
  next
    case False
    have same: "fd_tables d1 = fd_tables d" and new: "''idx_events_delivery'' \<notin> set (fd_indexes d1)"
      using d1(1) Cons.prems(3) False by (auto simp: create_index_def stmt_ok split: if_splits)
    have "''idx_events_delivery'' \<in> set names" using Cons.prems(2) False by simp
    from Cons.IH [OF d1(2) this new] show ?thesis unfolding unique_deliveries_cong [OF same] .
  qed
qed simp

lemma migrate_unique:
  assumes ok: "migrate E d = (Inr (), d')" and cut: "\<And>q. sq_cut E q = None"
    and ord: "\<And>xs. mset (sq_order E xs) = mset xs" and keys: "keys_ok d" and ix: "index_sound d"
  shows "unique_deliveries d'"
proof (cases "''idx_events_delivery'' \<in> set (fd_indexes d)")
  case True
  with ix have u: "unique_deliveries d" "''external_delivery_id'' \<in> set (cols_of ''events'' d)" by (auto simp: index_sound_def)
  have "upgraded_event (cols_of ''events'' d) r ''source'' = r ''source''"
      "upgraded_event (cols_of ''events'' d) r ''external_delivery_id'' = r ''external_delivery_id''" for r
    by (simp_all add: upgraded_event_def legacy_status_facts(4) with_times_other with_defaults_existing u(2) key_no_default)
  with u(1) show ?thesis
    by (simp add: unique_deliveries_def migrate_rows(1) [OF ok cut ord keys] unique_deliveries_map)
next
  case False
  from migrate_stages [OF ok cut ord keys] obtain d1 d4 d6 n1 n2 n3 where
    d1: "create_tables E d = (Inr (), d1)" and d4: "d4 = widen_all n1 n2 n3 d1"
    and d6: "d6 = on_rows ''events'' legacy_status (drop_index ''idx_events_hmac_body''
       (on_rows ''action_logs'' (with_log_time E) (on_rows ''events'' with_times d4)))"
    and run: "each (create_index E) index_names d6 = (Inr (), d')" by metis
  have "fd_indexes d1 = fd_indexes d" using create_tables_effect [OF d1 [unfolded create_tables_def]] by simp
  with False have "''idx_events_delivery'' \<notin> set (fd_indexes d6)" by (simp add: d6 d4 widen_all_def)
  with create_indexes_unique [OF run] have "unique_deliveries d6" by (simp add: index_names_def)
  then show ?thesis unfolding unique_deliveries_cong [OF conjunct1 [OF create_indexes_effect [OF run]]] .
qed


text \<open>The backfill does not look at \<^verbatim>\<open>rows.Err()\<close>: a query that breaks off is taken for a complete one.\<close>

lemma lost_iteration_error:
  "\<not> sq_fails E ''SELECT event times'' d \<Longrightarrow> sq_cut E ''SELECT event times'' = Some 0 \<Longrightarrow> backfill_events E d = (Inr (), d)"
  by (simp add: backfill_events_def delivered_def)

section \<open>Opening a migrated file again\<close>

lemma keys_ok_migrated:
  assumes ok: "migrate E d = (Inr (), d')" and cut: "\<And>q. sq_cut E q = None"
    and ord: "\<And>xs. mset (sq_order E xs) = mset xs" and keys: "keys_ok d"
  shows "keys_ok d'"
proof -
  have "text_key (upgraded_event cs r) = text_key r" "int_key (upgraded_log E cs r) = int_key r" for cs r
    by (simp_all add: text_key_def int_key_def upgraded_event_def upgraded_log_def legacy_status_facts(4) with_times_other
        with_log_time_other key_no_default)
  with keys show ?thesis
    by (simp add: keys_ok_def migrate_rows(1, 2) [OF ok cut ord keys] list_all_iff comp_def)
qed

lemma backfill_events_again:
  assumes fine: "\<And>l d. \<not> sq_fails E l d" and cut: "\<And>q. sq_cut E q = None" and keys: "keys_ok d"
    and full: "\<And>r. r \<in> set (rows_of ''events'' d) \<Longrightarrow> needs_time r \<Longrightarrow> r ''received_at_ms'' \<noteq> SNull \<and>
       r ''received_at_ms'' = ms_of (r ''received_at'') \<and> r ''processed_at_ms'' = SNull \<and> cast_text (r ''processed_at'') = Some []"
  shows "backfill_events E d = (Inr (), d)"
proof -
  let ?R = "rows_of ''events'' d"
  let ?k = "\<lambda>r. (the (text_key r), the (cast_text (r ''received_at'')), Some [])"
  have ids: "\<And>r. r \<in> set ?R \<Longrightarrow> text_key r \<noteq> None" "distinct (map text_key ?R)" using keys by (auto simp: keys_ok_def list_all_iff)
  have rec: "\<exists>t x. cast_text (r ''received_at'') = Some t \<and> parseSQLiteTime t = Some x \<and> r ''received_at_ms'' = SInt (UnixMilli x)"
    if "r \<in> set ?R" "needs_time r" for r
    using full [OF that] by (auto simp: ms_of_def split: option.splits)
  have scan: "scan_times r = Some (?k r)" if "r \<in> set ?R" "needs_time r" for r
    using ids(1) [OF that(1)] rec [OF that] full [OF that] by (auto simp: scan_times_def text_key_def split: sqlval.splits)
  have "map scan_times (filter needs_time ?R) = map Some (map ?k (filter needs_time ?R))" using scan by simp
  then have all: "all_some (map scan_times (filter needs_time ?R)) = Some (map ?k (filter needs_time ?R))" by (simp only: all_some_iff)
  have "backfill_event E (?k r) d = (Inr (), d)" if r: "r \<in> set ?R" "needs_time r" for r
  proof -
    obtain t x where x: "cast_text (r ''received_at'') = Some t" "parseSQLiteTime t = Some x" "r ''received_at_ms'' = SInt (UnixMilli x)"
      using rec [OF r] by blast
    obtain i where i: "r ''id'' = SText i" "text_key r = Some i" using ids(1) [OF r(1)] by (auto simp: text_key_def split: sqlval.splits)
    have "on_rows ''events'' (set_times i (SInt (UnixMilli x)) SNull) d = d"
    proof (rule on_rows_id)
      fix r' assume r': "r' \<in> set ?R"
      show "set_times i (SInt (UnixMilli x)) SNull r' = r'"
      proof (cases "text_key r' = Some i")
        case True
        then have "r' = r" using ids(2) r' r(1) i(2) by (metis distinct_map inj_onD)
        moreover have "r ''processed_at_ms'' = SNull" using full [OF r] by blast
        ultimately show ?thesis using x(3) by (simp add: set_times_def fun_upd_idem)
      qed (rule set_times_other)
    qed
    then show ?thesis by (simp add: backfill_event_def x i stmt_def fine)
  qed
  then have "each (backfill_event E) (map ?k (filter needs_time ?R)) d = (Inr (), d)" by (intro each_noop) auto
  then show ?thesis by (simp add: backfill_events_def fine delivered_def cut all)
qed

lemma create_tables_again:
  assumes "\<And>l d. \<not> sq_fails E l d" "\<And>s. s \<in> fst ` set base_schema \<Longrightarrow> fd_tables d s \<noteq> None"
  shows "create_tables E d = (Inr (), d)"
  unfolding create_tables_def
proof (rule each_noop)
  fix s assume "s \<in> set base_schema"
  then have "fd_tables d (fst s) \<noteq> None" using assms(2) by blast
  then show "stmt E (''CREATE TABLE '' @ fst s) MigrateBase (create_table s) d = (Inr (), d)"
    using assms(1) by (cases s) (auto simp: stmt_def create_table_def)
qed

lemma ensureColumns_again:
  assumes "\<And>l d. \<not> sq_fails E l d" "\<And>xs. mset (sq_order E xs) = mset xs" "fst ` set cols \<subseteq> set (cols_of t d)"
  shows "ensureColumns E t cols d = (Inr (), d)"
proof -
  have "set (sq_order E cols) = set cols" using assms(2) by (metis set_mset_mset)
  then have "each (\<lambda>(name, typ). if name \<in> set (cols_of t d) then (\<lambda>d. (Inr (), d)) else alter_table E t name typ) (sq_order E cols) d = (Inr (), d)"
    using assms(3) by (intro each_noop) (auto simp: image_subset_iff)
  then show ?thesis by (simp add: ensureColumns_def columnSet_def assms(1))
qed


lemma backfillEpochColumns_again:
  assumes fine: "\<And>l d. \<not> sq_fails E l d" and cut: "\<And>q. sq_cut E q = None"
    and events: "backfill_events E d = (Inr (), d)"
    and logs: "\<And>r. r \<in> set (rows_of ''action_logs'' d) \<Longrightarrow> r ''created_at_ms'' \<noteq> SNull"
  shows "backfillEpochColumns E d = (Inr (), d)"
proof -
  have "on_rows ''action_logs'' (sqlite_log_time E) d = d" using logs by (intro on_rows_id) (simp add: sqlite_log_time_def)
  then have "stmt E ''UPDATE action_logs strftime'' BackfillLogTime (on_rows ''action_logs'' (sqlite_log_time E)) d = (Inr (), d)"
    by (simp add: stmt_def fine)
  moreover have "filter (\<lambda>r. r ''created_at_ms'' = SNull) (rows_of ''action_logs'' d) = []" using logs by (simp add: filter_empty_conv)
  then have "backfill_logs E d = (Inr (), d)" by (simp add: backfill_logs_def fine delivered_def cut)
  ultimately show ?thesis by (simp add: backfillEpochColumns_def and_then_noop events)
qed

lemma migrate_again:
  assumes ok: "migrate E d = (Inr (), d')" and cut: "\<And>q. sq_cut E q = None"
    and ord: "\<And>xs. mset (sq_order E xs) = mset xs" and keys: "keys_ok d"
    and fine: "\<And>l d. \<not> sq_fails E2 l d" and cut2: "\<And>q. sq_cut E2 q = None" and ord2: "\<And>xs. mset (sq_order E2 xs) = mset xs"
  shows "migrate E2 d' = (Inr (), d')"
proof -
  note rows = migrate_rows [OF ok cut ord keys] and times = migrate_times [OF ok cut ord keys]
  have create: "create_tables E2 d' = (Inr (), d')" using fine rows(8) by (rule create_tables_again)
  have ensure: "ensureColumns E2 ''events'' event_columns d' = (Inr (), d')" "ensureColumns E2 ''action_logs'' log_columns d' = (Inr (), d')"
      "ensureColumns E2 ''_ready_check'' ready_columns d' = (Inr (), d')"
    using ensureColumns_again [OF fine ord2 rows(5)] ensureColumns_again [OF fine ord2 rows(6)] ensureColumns_again [OF fine ord2 rows(7)] by this
  have "backfill_events E2 d' = (Inr (), d')"
    by (rule backfill_events_again [OF fine cut2 keys_ok_migrated [OF ok cut ord keys]]) (use times(1) in blast)
  then have fill: "backfillEpochColumns E2 d' = (Inr (), d')" by (rule backfillEpochColumns_again [OF fine cut2]) (fact times(2))
  have "''idx_events_hmac_body'' \<notin> set (fd_indexes d')" unfolding rows(9) by (simp add: index_names_def)
  then have "filter (\<lambda>n. n \<noteq> ''idx_events_hmac_body'') (fd_indexes d') = fd_indexes d'" by (intro filter_True) blast
  then have drop: "drop_index ''idx_events_hmac_body'' d' = d'" by (simp add: drop_index_def)
  have status: "on_rows ''events'' legacy_status d' = d'"
    by (rule on_rows_id) (auto simp: rows(1) upgraded_event_def legacy_status_facts(3))
  have index: "each (create_index E2) index_names d' = (Inr (), d')"
    using rows(9) by (intro each_noop) (simp add: create_index_def)
  show ?thesis by (simp add: migrate_def and_then_noop create ensure fill stmt_def fine drop status index)
qed

section \<open>The data source name\<close>

definition sqlite_pragmas :: values_map where
  "sqlite_pragmas = [(''_pragma'', [''busy_timeout('' @ Itoa sqliteBusyTimeoutMS @ '')'', ''journal_mode(WAL)'', ''synchronous(FULL)''])]"

text \<open>\<open>filepath.Abs\<close> on Unix, where the working directory may be unavailable.\<close>

definition filepath_Abs :: "string option \<Rightarrow> string \<Rightarrow> string option" where
  "filepath_Abs cwd path =
     (if HasPrefix path ''/'' then Some (Clean path) else map_option (\<lambda>wd. Clean (wd @ ''/'' @ path)) cwd)"

datatype open_err = MkdirStoreDir | StoreFile file_err | ResolvePath | OpenSqlite | MigrateErr mig_err

definition file_url :: "string \<Rightarrow> url" where
  "file_url absPath = \<lparr>u_Scheme = ''file'', u_Host = [], u_Opaque = [], u_Fragment = [], u_RawFragment = [], u_HasUser = False, u_User = [],
     u_Path = absPath, u_RawPath = [], u_RawQuery = Encode sqlite_pragmas, u_ForceQuery = False\<rparr>"

definition sqliteDSN :: "string option \<Rightarrow> string \<Rightarrow> open_err + string" where
  "sqliteDSN cwd path =
     (if path = '':memory:'' then Inr (path @ ''?'' @ Encode sqlite_pragmas)
      else case filepath_Abs cwd path of
        None \<Rightarrow> Inl ResolvePath
      | Some absPath \<Rightarrow> Inr (url_String (file_url absPath)))"

text \<open>A file name survives the way through the DSN: the text between the scheme and the query decodes to the
  absolute path, and neither a question mark nor a hash of the name can end it early.\<close>

lemma dsn_roundtrip:
  assumes "path \<noteq> '':memory:''" "sqliteDSN cwd path = Inr dsn"
  shows "\<exists>absPath p. filepath_Abs cwd path = Some absPath \<and> dsn = ''file://'' @ p @ ''?'' @ Encode sqlite_pragmas \<and>
    PathUnescape p = Some absPath \<and> CHR ''?'' \<notin> set p \<and> CHR ''#'' \<notin> set p"
proof -
  from assms obtain absPath where absPath: "filepath_Abs cwd path = Some absPath" "dsn = url_String (file_url absPath)"
    by (auto simp: sqliteDSN_def split: option.splits)
  have root: "absPath \<noteq> []" "absPath \<noteq> ''*''" using absPath(1) by (auto simp: filepath_Abs_def Clean_def split: if_splits)
  have "Encode sqlite_pragmas \<noteq> []" by code_simp
  with root have dsn: "dsn = ''file://'' @ url_escape encodePath absPath @ ''?'' @ Encode sqlite_pragmas"
    by (simp add: absPath(2) url_String_def file_url_def EscapedPath_def url_authority_def Let_def)
  note q = escaped_delims(2) [of absPath] and h = escaped_delims(1) [of absPath]
  show ?thesis
    by (rule exI [of _ absPath], rule exI [of _ "url_escape encodePath absPath"], intro conjI)
      (fact absPath(1), fact dsn, simp add: escape_unescape, fact q, fact h)
qed

text \<open>Read as a URL the DSN is the \<open>file\<close> URL it was printed from: nothing of the path can reach the query, the
  host or a fragment.\<close>

lemma dsn_parses:
  assumes "path \<noteq> '':memory:''" "sqliteDSN cwd path = Inr dsn"
  shows "\<exists>absPath. filepath_Abs cwd path = Some absPath \<and> url_Parse dsn = Some (file_url absPath)"
proof -
  from assms obtain absPath where absPath: "filepath_Abs cwd path = Some absPath" "dsn = url_String (file_url absPath)"
    by (auto simp: sqliteDSN_def split: option.splits)
  have q: "list_all (\<lambda>c. \<not> url_ctl c \<and> c \<noteq> CHR ''#'') (Encode sqlite_pragmas)" by code_simp
  have h: "parseHost ''file'' (url_escape encodeHost []) = Some []" and s: "plain_scheme ''file''" by code_simp+
  have "HasPrefix absPath ''/''" using absPath(1) by (auto simp: filepath_Abs_def Clean_def HasPrefix_def split: if_splits)
  with q h s have "canonical_url (file_url absPath)" by (simp add: canonical_url_def file_url_def)
  from parse_String [OF this] absPath show ?thesis by blast
qed

lemma dsn_example: "sqliteDSN None ''/data/we?ird#.db'' =
    Inr ''file:///data/we%3Fird%23.db?_pragma=busy_timeout%28250%29&_pragma=journal_mode%28WAL%29&_pragma=synchronous%28FULL%29''"
  by code_simp


section \<open>Open\<close>

text \<open>\<open>filepath.Dir\<close>: the cleaned text up to the last slash.\<close>

fun rel_segments :: "string list \<Rightarrow> string list \<Rightarrow> string list" where
  "rel_segments out [] = out"
| "rel_segments out (seg # segs) =
     (if seg = [] \<or> seg = ''.'' then rel_segments out segs
      else if seg = ''..'' \<and> out \<noteq> [] \<and> last out \<noteq> ''..'' then rel_segments (butlast out) segs
      else rel_segments (out @ [seg]) segs)"

definition filepath_Clean :: "string \<Rightarrow> string" where
  "filepath_Clean p =
     (if HasPrefix p ''/'' then Clean p
      else let segs = rel_segments [] (Split CHR ''/'' p) in if segs = [] then ''.'' else Join ''/'' segs)"

definition filepath_Dir :: "string \<Rightarrow> string" where
  "filepath_Dir p = filepath_Clean (rev (dropWhile (\<lambda>c. c \<noteq> CHR ''/'') (rev p)))"

text \<open>The directories \<open>os.MkdirAll\<close> makes: the path itself and its ancestors, outermost first.\<close>

definition dir_chain :: "string \<Rightarrow> string list" where
  "dir_chain p = filter (\<lambda>q. q \<noteq> []) (map (\<lambda>i. take i p) (filter (\<lambda>i. i = length p \<or> p ! i = CHR ''/'') [0..<Suc (length p)]))"

record open_env =
  oe_file :: file_env
  oe_mkdir_fails :: bool
  oe_cwd :: "string option"
  oe_open_fails :: bool
  oe_sidecar :: "string \<Rightarrow> bool"
  oe_sql :: sql_env

definition make_dirs :: "open_env \<Rightarrow> string \<Rightarrow> files \<Rightarrow> files" where
  "make_dirs E dir fs = fold (\<lambda>q fs. case fs q of None \<Rightarrow> fs(q \<mapsto> and 0x1C0 (not (fe_umask (oe_file E)))) | Some _ \<Rightarrow> fs) (dir_chain dir) fs"

definition prepareStoreDir :: "open_env \<Rightarrow> string \<Rightarrow> files \<Rightarrow> (open_err + unit) \<times> files" where
  "prepareStoreDir E path fs =
     (let dir = filepath_Dir path; created = (fs dir = None) in
      if dir = [] \<or> dir = ''.'' then (Inr (), fs)
      else if oe_mkdir_fails E then (Inl MkdirStoreDir, fs)
      else let fs1 = make_dirs E dir fs
           in (Inr (), if created \<and> \<not> fe_chmod_fails (oe_file E) dir then fs1(dir \<mapsto> 0x1C0) else fs1))"

text \<open>SQLite may leave a write-ahead log and its index beside the file, with the file's mode.\<close>

definition sqlite_files :: "open_env \<Rightarrow> string \<Rightarrow> files \<Rightarrow> files" where
  "sqlite_files E path fs = fold (\<lambda>p fs. if oe_sidecar E p \<and> fs p = None then fs(p := fs path) else fs) [path @ ''-wal'', path @ ''-shm''] fs"

definition Open :: "open_env \<Rightarrow> string \<Rightarrow> files \<times> file_db \<Rightarrow> (open_err + unit) \<times> files \<times> file_db" where
  "Open E path w =
     (let (fs, d) = w in
      case prepareStoreDir E path fs of
        (Inl e, fs1) \<Rightarrow> (Inl e, fs1, d)
      | (Inr _, fs1) \<Rightarrow>
          (case prepareStoreFile (oe_file E) path fs1 of
             (Inl e, fs2) \<Rightarrow> (Inl (StoreFile e), fs2, d)
           | (Inr _, fs2) \<Rightarrow>
               (case sqliteDSN (oe_cwd E) path of
                  Inl e \<Rightarrow> (Inl e, fs2, d)
                | Inr _ \<Rightarrow>
                    if oe_open_fails E then (Inl OpenSqlite, fs2, d)
                    else (let fs3 = sqlite_files E path fs2 in
                      case migrate (oe_sql E) d of
                        (Inl e, d1) \<Rightarrow> (Inl (MigrateErr e), fs3, d1)
                      | (Inr _, d1) \<Rightarrow>
                          (case tightenStorePermissions (oe_file E) path fs3 of
                             (Inl e, fs4) \<Rightarrow> (Inl (StoreFile e), fs4, d1)
                           | (Inr _, fs4) \<Rightarrow> (Inr (), fs4, d1))))))"

lemma Open_ok:
  assumes "Open E path (fs, d) = (Inr (), fs', d')"
  shows "migrate (oe_sql E) d = (Inr (), d')" "\<exists>fs1 fs2. prepareStoreDir E path fs = (Inr (), fs1) \<and>
    prepareStoreFile (oe_file E) path fs1 = (Inr (), fs2) \<and> tightenStorePermissions (oe_file E) path (sqlite_files E path fs2) = (Inr (), fs')"
  using assms by (auto simp: Open_def Let_def split: prod.splits sum.splits if_splits)

lemma sqlite_files_keep: "fs p \<noteq> None \<Longrightarrow> sqlite_files E path fs p = fs p"
  by (auto simp: sqlite_files_def)

lemma opened_files_private:
  assumes "Open E path (fs, d) = (Inr (), fs', d')" "path \<noteq> '':memory:''"
  shows "fs' path = Some 0x180 \<and> (\<forall>p \<in> {path @ ''-wal'', path @ ''-shm''}. \<forall>mode. fs' p = Some mode \<longrightarrow> mode = 0x180)"
proof -
  obtain fs1 fs2 where f: "prepareStoreFile (oe_file E) path fs1 = (Inr (), fs2)"
      "tightenStorePermissions (oe_file E) path (sqlite_files E path fs2) = (Inr (), fs')" using Open_ok(2) [OF assms(1)] by blast
  have "fs2 path \<noteq> None" using store_files_private [OF f(1) assms(2)] by blast
  then have "sqlite_files E path fs2 path \<noteq> None" by (simp add: sqlite_files_keep)
  moreover have "chmod_all (oe_file E) [path, path @ ''-wal'', path @ ''-shm''] (sqlite_files E path fs2) = (Inr (), fs')"
    using f(2) assms(2) by (simp add: tightenStorePermissions_def)
  note chmod_all_result [OF this]
  ultimately show ?thesis by (auto split: if_splits)
qed

section \<open>Properties\<close>

definition demo_sql :: sql_env where
  "demo_sql = \<lparr>sq_fails = (\<lambda>_ _. False), sq_cut = (\<lambda>_. None), sq_strftime = (\<lambda>_. None), sq_order = rev\<rparr>"

definition demo_open :: open_env where
  "demo_open = \<lparr>oe_file = \<lparr>fe_chmod_fails = (\<lambda>_. False), fe_open_fails = (\<lambda>_. False), fe_umask = 0x12\<rparr>, oe_mkdir_fails = False,
     oe_cwd = None, oe_open_fails = False, oe_sidecar = (\<lambda>_. True), oe_sql = demo_sql\<rparr>"

text \<open>A file of an older release: a column is missing, and an event has its time as text and a legacy status.\<close>

definition demo_file :: file_db where
  "demo_file = \<lparr>fd_tables =
     [''events'' \<mapsto> \<lparr>tb_cols = butlast events_schema,
        tb_rows = [(\<lambda>_. SNull)(''id'' := SText ''e1'', ''source'' := SText ''src'', ''status'' := SText ''received'',
                     ''received_at'' := SText ''2024-01-02 03:04:05.5 +0000 UTC m=+0.1'')]\<rparr>],
     fd_indexes = [''idx_events_hmac_body'']\<rparr>"

lemma demo_migrates: "fst (migrate demo_sql demo_file) = Inr ()" "keys_ok demo_file" "index_sound demo_file"
  by code_simp+

lemma demo_opens: "fst (Open demo_open ''/data/w.db'' (\<lambda>_. None, demo_file)) = Inr ()"
proof -
  define path where "path = ''/data/w.db''"
  define fs1 where "fs1 = snd (prepareStoreDir demo_open path (\<lambda>_. None))"
  define fs2 where "fs2 = snd (prepareStoreFile (oe_file demo_open) path fs1)"
  define fs3 where "fs3 = snd (tightenStorePermissions (oe_file demo_open) path (sqlite_files demo_open path fs2))"
  have "fst (prepareStoreDir demo_open path (\<lambda>_. None)) = Inr ()" unfolding path_def by code_simp
  then have s1: "prepareStoreDir demo_open path (\<lambda>_. None) = (Inr (), fs1)" by (metis fs1_def prod.collapse)
  have "fst (prepareStoreFile (oe_file demo_open) path fs1) = Inr ()" unfolding fs1_def path_def by code_simp
  then have s2: "prepareStoreFile (oe_file demo_open) path fs1 = (Inr (), fs2)" by (metis fs2_def prod.collapse)
  have "fst (tightenStorePermissions (oe_file demo_open) path (sqlite_files demo_open path fs2)) = Inr ()"
    unfolding fs2_def fs1_def path_def by code_simp
  then have s3: "tightenStorePermissions (oe_file demo_open) path (sqlite_files demo_open path fs2) = (Inr (), fs3)" by (metis fs3_def prod.collapse)
  have "\<exists>dsn. sqliteDSN (oe_cwd demo_open) path = Inr dsn" unfolding path_def by (simp add: sqliteDSN_def filepath_Abs_def HasPrefix_def)
  then obtain dsn where s4: "sqliteDSN (oe_cwd demo_open) path = Inr dsn" by blast
  obtain d1 where m: "migrate demo_sql demo_file = (Inr (), d1)" using demo_migrates(1) by (metis prod.collapse)
  have sql: "oe_sql demo_open = demo_sql" "\<not> oe_open_fails demo_open" by (simp_all add: demo_open_def)
  show ?thesis unfolding path_def [symmetric] by (simp add: Open_def s1 s2 s3 s4 m sql)
qed

text \<open>C16: A store that opens is private and current. The database file and its side files are readable by the
  owner alone; every event and log row of the older file is there, in order, with exactly the defaults of the
  columns it missed, its times converted from their text, legacy statuses made pending, and nothing else
  changed; every row has its integer times, all columns of the current schema exist, and deliveries are unique.\<close>

theorem opened_store_is_current:
  assumes ok: "Open E path (fs, d) = (Inr (), fs', d')" and disk: "path \<noteq> '':memory:''"
    and cut: "\<And>q. sq_cut (oe_sql E) q = None" and ord: "\<And>xs. mset (sq_order (oe_sql E) xs) = mset xs"
    and keys: "keys_ok d" and index: "index_sound d"
  shows "fs' path = Some 0x180 \<and> (\<forall>p \<in> {path @ ''-wal'', path @ ''-shm''}. \<forall>mode. fs' p = Some mode \<longrightarrow> mode = 0x180) \<and>
    rows_of ''events'' d' = map (\<lambda>r. legacy_status (with_times (with_defaults (cols_of ''events'' d) event_columns r))) (rows_of ''events'' d) \<and>
    rows_of ''action_logs'' d' = map (\<lambda>r. with_log_time (oe_sql E) (with_defaults (cols_of ''action_logs'' d) log_columns r)) (rows_of ''action_logs'' d) \<and>
    (\<forall>t. t \<notin> {''events'', ''action_logs'', ''_ready_check''} \<longrightarrow> rows_of t d' = rows_of t d) \<and>
    (\<forall>r \<in> set (rows_of ''events'' d'). r ''received_at_ms'' \<noteq> SNull \<and> r ''status'' \<noteq> SText ''received'' \<and> r ''status'' \<noteq> SText ''rejected'') \<and>
    (\<forall>r \<in> set (rows_of ''action_logs'' d'). r ''created_at_ms'' \<noteq> SNull) \<and>
    fst ` set event_columns \<subseteq> set (cols_of ''events'' d') \<and> fst ` set log_columns \<subseteq> set (cols_of ''action_logs'' d') \<and>
    unique_deliveries d'"
proof -
  note mig = Open_ok(1) [OF ok]
  note rows = migrate_rows [OF mig cut ord keys] and times = migrate_times [OF mig cut ord keys]
  have status: "r ''status'' \<noteq> SText ''received''" "r ''status'' \<noteq> SText ''rejected''" if "r \<in> set (rows_of ''events'' d')" for r
    using that legacy_status_facts(1, 2) by (auto simp: rows(1) upgraded_event_def)
  note files = opened_files_private [OF ok disk]
  have others: "\<forall>t. t \<notin> {''events'', ''action_logs'', ''_ready_check''} \<longrightarrow> rows_of t d' = rows_of t d"
    by (intro allI impI) (rule rows(4))
  have done_events: "\<forall>r \<in> set (rows_of ''events'' d'). r ''received_at_ms'' \<noteq> SNull \<and> r ''status'' \<noteq> SText ''received'' \<and> r ''status'' \<noteq> SText ''rejected''"
    by (intro ballI conjI) (rule conjunct1 [OF times(1)] status; assumption)+
  have done_logs: "\<forall>r \<in> set (rows_of ''action_logs'' d'). r ''created_at_ms'' \<noteq> SNull" by (intro ballI) (rule times(2))
  show ?thesis
    by (intro conjI, fact conjunct1 [OF files], fact conjunct2 [OF files], fact rows(1) [unfolded upgraded_event_def],
        fact rows(2) [unfolded upgraded_log_def], fact others, fact done_events, fact done_logs, fact rows(5), fact rows(6),
        fact migrate_unique [OF mig cut ord keys index])
qed

theorem opened_store_is_current_witness:
  "case Open demo_open ''/data/w.db'' (\<lambda>_. None, demo_file) of (res, fs', d') \<Rightarrow>
     res = Inr () \<and> fs' ''/data/w.db'' = Some 0x180 \<and>
     map (\<lambda>r. (r ''status'', r ''received_at_ms'')) (rows_of ''events'' d') = [(SText ''pending'', SInt 1704164645500)]"
proof -
  obtain res fs' d' where run: "Open demo_open ''/data/w.db'' (\<lambda>_. None, demo_file) = (res, fs', d')" by (metis prod.exhaust)
  have res: "res = Inr ()" using demo_opens by (simp only: run fst_conv)
  have sql: "oe_sql demo_open = demo_sql" by (simp add: demo_open_def)
  have calc: "map (\<lambda>r. (r ''status'', r ''received_at_ms'')) (map (\<lambda>r. legacy_status (with_times (with_defaults (cols_of ''events'' demo_file) event_columns r)))
      (rows_of ''events'' demo_file)) = [(SText ''pending'', SInt 1704164645500)]" by code_simp
  have "fs' ''/data/w.db'' = Some 0x180 \<and> rows_of ''events'' d' =
      map (\<lambda>r. legacy_status (with_times (with_defaults (cols_of ''events'' demo_file) event_columns r))) (rows_of ''events'' demo_file)"
  proof -
    have cut: "sq_cut (oe_sql demo_open) q = None" for q by (simp add: sql demo_sql_def)
    have ord: "mset (sq_order (oe_sql demo_open) xs) = mset xs" for xs by (simp add: sql demo_sql_def)
    have "''/data/w.db'' \<noteq> '':memory:''" by simp
    note cur = opened_store_is_current [OF run [unfolded res] this cut ord demo_migrates(2, 3)]
    show ?thesis by (rule conjI [OF conjunct1 [OF cur] conjunct1 [OF conjunct2 [OF conjunct2 [OF cur]]]])
  qed
  then show ?thesis unfolding run prod.case using res calc by (simp only: simp_thms)
qed

text \<open>C40: Opening is idempotent: migrating a file that was migrated before succeeds and changes neither a row
  nor a column nor an index, whatever the order in which the columns are visited.\<close>

theorem reopen_changes_nothing:
  assumes "migrate E d = (Inr (), d')" and "\<And>q. sq_cut E q = None" and "\<And>xs. mset (sq_order E xs) = mset xs" and "keys_ok d"
    and "\<And>l d. \<not> sq_fails E2 l d" and "\<And>q. sq_cut E2 q = None" and "\<And>xs. mset (sq_order E2 xs) = mset xs"
  shows "migrate E2 d' = (Inr (), d')"
  using assms by (rule migrate_again)

theorem reopen_changes_nothing_witness:
  "\<exists>d'. migrate demo_sql demo_file = (Inr (), d') \<and> d' \<noteq> demo_file \<and> migrate demo_sql d' = (Inr (), d')"
proof -
  obtain res d' where run: "migrate demo_sql demo_file = (res, d')" by (metis prod.exhaust)
  have res: "res = Inr ()" using demo_migrates(1) by (simp only: run fst_conv)
  have env: "sq_cut demo_sql q = None" "mset (sq_order demo_sql xs) = mset xs" "\<not> sq_fails demo_sql l d" for q xs l d
    by (simp_all add: demo_sql_def)
  note ok = run [unfolded res]
  have "''idx_events_hmac_body'' \<notin> set (fd_indexes d')"
    unfolding migrate_rows(9) [OF ok env(1, 2) demo_migrates(2)] by (simp add: index_names_def)
  then have "d' \<noteq> demo_file" by (auto simp: demo_file_def)
  moreover note reopen_changes_nothing [OF ok env(1, 2) demo_migrates(2) env(3, 1, 2)]
  ultimately show ?thesis using run res by blast
qed

end
