(* ===== verification/Lifecycle.thy ===== *)
theory Lifecycle
  imports Snapshots Scrub Server Exec_Action
begin

text \<open>
  The process (\<^verbatim>\<open>cmd/server/main.go\<close>): start-up, the wait for a signal or a failing listener, the
  shutdown sequence with its deferred calls, and the retention loop. \<open>startup\<close> builds the objects in
  the order of \<^verbatim>\<open>run\<close>; \<open>run\<close> is its result together with the sequence of lifecycle actions the main
  goroutine takes. The step relation \<open>lifecycle\<close> says which actions are allowed when: it is the
  contract that the sequence of every run is proved to follow.
\<close>

section \<open>Lifecycle actions\<close>

datatype act =
  StoreOpened | Recovered | QueueStarted | RetentionStarted | HeartbeatStarted | HTTPStarted | HTTPFailed
| HeartbeatStopped | StoppingSet | QueueStopping | QueueDrained | WorkersCanceled | HTTPShutdown | HTTPClosed | StoreClosed

section \<open>Start-up\<close>

definition totalShutdownBudget :: duration where "totalShutdownBudget = 35 * Second"

text \<open>\<open>rand.Read\<close> fills a buffer of eight bytes or fails.\<close>

definition newOwnerID :: "string option \<Rightarrow> string option" where
  "newOwnerID random = map_option (\<lambda>bs. hex_EncodeToString (take 8 bs)) random"

datatype exit_cause = Signaled | ListenFailed string | ListenClosed

datatype run_err = LoadConfig | OpenStore | ScrubCredentials | OwnerID | RequeueProcessing | ServerError string

record run_env =
  re_lib :: golib
  re_decoded :: "Config option"
  re_checkConfig :: bool
  re_open :: "db option"
  re_order :: "string list \<Rightarrow> string list"
  re_queryErr :: "nat \<Rightarrow> string option \<Rightarrow> bool"
  re_writeErr :: "nat \<Rightarrow> string \<Rightarrow> bool"
  re_random :: "string option"
  re_requeue_fault :: fault
  re_now :: gtime
  re_revision :: string
  re_cause :: exit_cause
  re_drained :: bool
  re_shutdown_ok :: bool
  re_merge :: "act list \<Rightarrow> act list \<Rightarrow> act list"

record gateway_process =
  pc_cfg :: Config
  pc_queue :: Queue
  pc_server :: Server
  pc_state :: sstate

definition scrub_env :: "run_env \<Rightarrow> gomap \<Rightarrow> snapshot_err rewrite_env" where
  "scrub_env E reps = \<lparr>rw_rewrite = (\<lambda>raw. ScrubSnapshotSecrets (re_lib E) (re_order E) raw reps),
     rw_queryErr = re_queryErr E, rw_writeErr = re_writeErr E, rw_cancelled = (\<lambda>_ _. False)\<rparr>"

text \<open>The scrubbing of stored credentials; \<open>None\<close> would be a loop that does not end.\<close>

definition scrub_store :: "run_env \<Rightarrow> Config \<Rightarrow> db \<Rightarrow> ((run_err + unit) \<times> db) option" where
  "scrub_store E cfg d =
     (let reps = ActionSecretReplacements (re_lib E) (Some cfg) in
      if reps = [] then Some (Inr (), d)
      else map_option (\<lambda>((n, err), d1). (case err of None \<Rightarrow> Inr () | Some _ \<Rightarrow> Inl ScrubCredentials, d1))
             (RewriteActionSnapshots (Some (scrub_env E reps)) d))"

definition new_qstate :: "Config \<Rightarrow> db \<Rightarrow> qstate" where
  "new_qstate cfg d = \<lparr>qs_db = d, qs_tick = 0, qs_calls = [], qs_drops = new_drops (Some cfg), qs_cache = empty_cache,
     qs_wake = 0, qs_stopped = False\<rparr>"

text \<open>The objects of a started process: queue and workers, server, heartbeat. The queue's view of the
  registry is the list of its types.\<close>

definition handlers :: "handler_type list" where "handlers = [HTTP, Exec]"

definition new_process :: "run_env \<Rightarrow> Config \<Rightarrow> string \<Rightarrow> db \<Rightarrow> gateway_process" where
  "new_process E cfg owner d =
     (let q = New (cf_Queue cfg) (map Type handlers) (Some cfg) owner;
          s = queue_Start q (new_sstate (Some cfg) (new_qstate cfg d));
          hb = hb_Start (re_now E) (NewMonitor (cf_Heartbeat cfg) True True (re_now E) (re_revision E))
      in \<lparr>pc_cfg = cfg, pc_queue = q, pc_server = NewServer (Some cfg) (Some q),
          pc_state = (if hc_Targets (cf_Heartbeat cfg) \<noteq> [] then SetHeartbeat hb s else s)\<rparr>)"

text \<open>The result of the part of \<^verbatim>\<open>run\<close> before the listener starts: an error, the end of a configuration check
  (\<open>Inr None\<close>), or the process; with the actions taken so far, the deferred close of the store included.\<close>

definition startup :: "run_env \<Rightarrow> ((run_err + gateway_process option) \<times> act list) option" where
  "startup E =
     (case re_decoded E of
        None \<Rightarrow> Some (Inl LoadConfig, [])
      | Some raw \<Rightarrow>
     (case Load (re_lib E) raw of
        Inl _ \<Rightarrow> Some (Inl LoadConfig, [])
      | Inr cfg \<Rightarrow>
          if re_checkConfig E then Some (Inr None, [])
          else case re_open E of
            None \<Rightarrow> Some (Inl OpenStore, [])
          | Some d \<Rightarrow>
     (case scrub_store E cfg d of
        None \<Rightarrow> None
      | Some (Inl e, _) \<Rightarrow> Some (Inl e, [StoreOpened, StoreClosed])
      | Some (Inr _, d1) \<Rightarrow>
     (case newOwnerID (re_random E) of
        None \<Rightarrow> Some (Inl OwnerID, [StoreOpened, StoreClosed])
      | Some owner \<Rightarrow>
     (case with_fault (re_requeue_fault E) RequeueAllProcessing d1 of
        (Inl _, _) \<Rightarrow> Some (Inl RequeueProcessing, [StoreOpened, StoreClosed])
      | (Inr _, d2) \<Rightarrow> Some (Inr (Some (new_process E cfg owner d2)), [StoreOpened, Recovered]))))))"

section \<open>Running and shutting down\<close>

definition has_heartbeat :: "gateway_process \<Rightarrow> bool" where
  "has_heartbeat p \<longleftrightarrow> hc_Targets (cf_Heartbeat (pc_cfg p)) \<noteq> []"

definition services :: "gateway_process \<Rightarrow> act list" where
  "services p = [QueueStarted, RetentionStarted] @ (if has_heartbeat p then [HeartbeatStarted] else []) @ [HTTPStarted]"

definition stopHeartbeat :: "gateway_process \<Rightarrow> act list" where
  "stopHeartbeat p = (if has_heartbeat p then [HeartbeatStopped] else [])"

text \<open>The deferred calls, last registered first.\<close>

definition deferred :: "gateway_process \<Rightarrow> act list" where
  "deferred p = stopHeartbeat p @ [WorkersCanceled, StoreClosed]"

definition failed_listener :: "gateway_process \<Rightarrow> act list" where
  "failed_listener p = [HTTPFailed] @ stopHeartbeat p @ [StoppingSet, WorkersCanceled, QueueStopping, QueueDrained]"

text \<open>The queue is stopped by a goroutine of its own while the HTTP server shuts down; if it is not drained
  within the budget, the workers are canceled and waited for.\<close>

definition shut_down :: "run_env \<Rightarrow> gateway_process \<Rightarrow> act list" where
  "shut_down E p =
     stopHeartbeat p @ [StoppingSet] @
     re_merge E ([QueueStopping] @ (if re_drained E then [QueueDrained] else []))
       (if re_shutdown_ok E then [HTTPShutdown] else [HTTPClosed]) @
     (if re_drained E then [] else [WorkersCanceled, QueueDrained]) @
     [WorkersCanceled]"

definition run :: "run_env \<Rightarrow> ((run_err + unit) \<times> act list) option" where
  "run E =
     (case startup E of
        None \<Rightarrow> None
      | Some (Inl e, tr) \<Rightarrow> Some (Inl e, tr)
      | Some (Inr None, tr) \<Rightarrow> Some (Inr (), tr)
      | Some (Inr (Some p), tr) \<Rightarrow>
          (case re_cause E of
             ListenFailed e \<Rightarrow> Some (Inl (ServerError e), tr @ services p @ failed_listener p @ deferred p)
           | _ \<Rightarrow> Some (Inr (), tr @ services p @ shut_down E p @ deferred p)))"

text \<open>The exit status of the program.\<close>

definition main :: "run_env \<Rightarrow> int option" where
  "main E = map_option (\<lambda>(r, _). case r of Inl _ \<Rightarrow> 1 | Inr _ \<Rightarrow> 0) (run E)"

subsection \<open>Retention\<close>

text \<open>One purge of the loop reads the clock twice: for the cutoff and inside \<open>PurgeOlderThan\<close>.\<close>

datatype retention_event = RetentionTick gtime gtime fault | RetentionDone

definition retention_purge :: "duration \<Rightarrow> gtime \<Rightarrow> gtime \<Rightarrow> fault \<Rightarrow> db \<Rightarrow> db" where
  "retention_purge retention t wall ft d = snd (with_fault ft (PurgeOlderThan (t - retention) wall) d)"

fun retention_ticks :: "duration \<Rightarrow> retention_event list \<Rightarrow> db \<Rightarrow> db" where
  "retention_ticks retention [] d = d"
| "retention_ticks retention (RetentionDone # es) d = d"
| "retention_ticks retention (RetentionTick t wall ft # es) d = retention_ticks retention es (retention_purge retention t wall ft d)"

definition retentionLoop :: "duration \<Rightarrow> gtime \<Rightarrow> gtime \<Rightarrow> fault \<Rightarrow> retention_event list \<Rightarrow> db \<Rightarrow> db" where
  "retentionLoop retention t wall ft es d =
     (if retention \<le> 0 then d else retention_ticks retention es (retention_purge retention t wall ft d))"

section \<open>The contract of the lifecycle\<close>

record status =
  st_store :: bool
  st_recovered :: bool
  st_claiming :: bool
  st_workers :: bool
  st_heartbeat :: bool
  st_http :: bool
  st_stopping :: bool

definition down :: status where
  "down = \<lparr>st_store = False, st_recovered = False, st_claiming = False, st_workers = False, st_heartbeat = False,
     st_http = False, st_stopping = False\<rparr>"

inductive lifecycle :: "status \<Rightarrow> act \<Rightarrow> status \<Rightarrow> bool" where
  opened: "\<not> st_store s \<Longrightarrow> \<not> st_stopping s \<Longrightarrow> lifecycle s StoreOpened (s\<lparr>st_store := True\<rparr>)"
| recovered: "st_store s \<Longrightarrow> \<not> st_workers s \<Longrightarrow> \<not> st_http s \<Longrightarrow> lifecycle s Recovered (s\<lparr>st_recovered := True\<rparr>)"
| queue: "st_store s \<Longrightarrow> st_recovered s \<Longrightarrow> \<not> st_stopping s \<Longrightarrow>
    lifecycle s QueueStarted (s\<lparr>st_workers := True, st_claiming := True\<rparr>)"
| retention: "st_store s \<Longrightarrow> lifecycle s RetentionStarted s"
| heartbeat: "st_workers s \<Longrightarrow> \<not> st_stopping s \<Longrightarrow> lifecycle s HeartbeatStarted (s\<lparr>st_heartbeat := True\<rparr>)"
| http: "st_claiming s \<Longrightarrow> \<not> st_stopping s \<Longrightarrow> lifecycle s HTTPStarted (s\<lparr>st_http := True\<rparr>)"
| http_failed: "st_http s \<Longrightarrow> lifecycle s HTTPFailed (s\<lparr>st_http := False\<rparr>)"
| silent: "lifecycle s HeartbeatStopped (s\<lparr>st_heartbeat := False\<rparr>)"
| stopping: "\<not> st_heartbeat s \<Longrightarrow> lifecycle s StoppingSet (s\<lparr>st_stopping := True\<rparr>)"
| queue_stopping: "st_stopping s \<Longrightarrow> lifecycle s QueueStopping (s\<lparr>st_claiming := False\<rparr>)"
| canceled: "st_stopping s \<Longrightarrow> lifecycle s WorkersCanceled (s\<lparr>st_claiming := False\<rparr>)"
| drained: "\<not> st_claiming s \<Longrightarrow> lifecycle s QueueDrained (s\<lparr>st_workers := False\<rparr>)"
| shutdown: "st_stopping s \<Longrightarrow> lifecycle s HTTPShutdown (s\<lparr>st_http := False\<rparr>)"
| http_closed: "st_stopping s \<Longrightarrow> lifecycle s HTTPClosed (s\<lparr>st_http := False\<rparr>)"
| closed: "st_store s \<Longrightarrow> \<not> st_workers s \<Longrightarrow> \<not> st_http s \<Longrightarrow> \<not> st_heartbeat s \<Longrightarrow>
    lifecycle s StoreClosed (s\<lparr>st_store := False, st_recovered := False\<rparr>)"

inductive_simps lifecycle_simps [simp]:
  "lifecycle s StoreOpened s'" "lifecycle s Recovered s'" "lifecycle s QueueStarted s'" "lifecycle s RetentionStarted s'"
  "lifecycle s HeartbeatStarted s'" "lifecycle s HTTPStarted s'" "lifecycle s HTTPFailed s'" "lifecycle s HeartbeatStopped s'"
  "lifecycle s StoppingSet s'" "lifecycle s QueueStopping s'" "lifecycle s WorkersCanceled s'" "lifecycle s QueueDrained s'"
  "lifecycle s HTTPShutdown s'" "lifecycle s HTTPClosed s'" "lifecycle s StoreClosed s'"

inductive path :: "status \<Rightarrow> act list \<Rightarrow> status \<Rightarrow> bool" where
  path_nil: "path s [] s"
| path_cons: "lifecycle s a s1 \<Longrightarrow> path s1 as s2 \<Longrightarrow> path s (a # as) s2"

inductive_simps path_simps [simp]: "path s [] s'" "path s (a # as) s'"

text \<open>Workers and the HTTP server only ever run on an open, recovered store; while the process is stopping
  the monitor is silent.\<close>

definition status_ok :: "status \<Rightarrow> bool" where
  "status_ok s \<longleftrightarrow> (st_workers s \<or> st_http s \<longrightarrow> st_store s \<and> st_recovered s) \<and> (st_claiming s \<longrightarrow> st_workers s) \<and>
     (st_stopping s \<longrightarrow> \<not> st_heartbeat s)"

lemma lifecycle_keeps_ok: "lifecycle s a s' \<Longrightarrow> status_ok s \<Longrightarrow> status_ok s'"
  by (induction rule: lifecycle.induct) (auto simp: status_ok_def)

lemma path_keeps_ok: "path s as s' \<Longrightarrow> status_ok s \<Longrightarrow> status_ok s'"
  by (induction rule: path.induct) (auto intro: lifecycle_keeps_ok)

lemma path_append: "path s (as @ bs) s' \<longleftrightarrow> (\<exists>s1. path s as s1 \<and> path s1 bs s')"
  by (induction as arbitrary: s) auto

section \<open>Runs follow the contract\<close>

lemma queue_merge:
  assumes "zs \<in> shuffles ([QueueStopping] @ (if b then [QueueDrained] else [])) [h]"
  shows "zs \<in> (if b then {[QueueStopping, QueueDrained, h], [QueueStopping, h, QueueDrained], [h, QueueStopping, QueueDrained]}
     else {[QueueStopping, h], [h, QueueStopping]})"
  using assms by (cases b) auto

definition serving :: "bool \<Rightarrow> status" where
  "serving hb = \<lparr>st_store = True, st_recovered = True, st_claiming = True, st_workers = True, st_heartbeat = hb, st_http = True,
     st_stopping = False\<rparr>"

definition halted :: status where
  "halted = down\<lparr>st_stopping := True\<rparr>"

lemma services_path: "path down ([StoreOpened, Recovered] @ services p) (serving (has_heartbeat p))"
  by (auto simp: services_def down_def serving_def)

lemma failed_listener_path: "path (serving (has_heartbeat p)) (failed_listener p @ deferred p) halted"
  by (auto simp: failed_listener_def deferred_def stopHeartbeat_def serving_def down_def halted_def)

lemma shut_down_path:
  assumes "\<And>xs ys. re_merge E xs ys \<in> shuffles xs ys"
  shows "path (serving (has_heartbeat p)) (shut_down E p @ deferred p) halted"
proof -
  define h where "h = (if re_shutdown_ok E then HTTPShutdown else HTTPClosed)"
  define zs where "zs = re_merge E ([QueueStopping] @ (if re_drained E then [QueueDrained] else [])) [h]"
  have sd: "shut_down E p = stopHeartbeat p @ [StoppingSet] @ zs @ (if re_drained E then [] else [WorkersCanceled, QueueDrained]) @ [WorkersCanceled]"
    by (simp add: shut_down_def zs_def h_def)
  have "zs \<in> (if re_drained E then {[QueueStopping, QueueDrained, h], [QueueStopping, h, QueueDrained], [h, QueueStopping, QueueDrained]}
     else {[QueueStopping, h], [h, QueueStopping]})"
    unfolding zs_def by (rule queue_merge) (rule assms)
  then show ?thesis
    unfolding sd by (cases "re_drained E"; cases "has_heartbeat p"; cases "re_shutdown_ok E")
      (auto simp: h_def deferred_def stopHeartbeat_def serving_def down_def halted_def)
qed

lemma startup_trace:
  assumes "startup E = Some (r, tr)"
  shows "case r of Inr (Some p) \<Rightarrow> tr = [StoreOpened, Recovered] | _ \<Rightarrow> tr \<in> {[], [StoreOpened, StoreClosed]}"
  using assms by (auto simp: startup_def split: option.splits sum.splits prod.splits if_splits)

lemma run_path:
  assumes merge: "\<And>xs ys. re_merge E xs ys \<in> shuffles xs ys" and "run E = Some (res, tr)"
  shows "path down tr (if HTTPStarted \<in> set tr then halted else down)"
proof -
  from assms(2) obtain r tr0 where st: "startup E = Some (r, tr0)" by (auto simp: run_def split: option.splits)
  note tr0 = startup_trace [OF st]
  show ?thesis
  proof (cases "\<exists>p. r = Inr (Some p)")
    case False
    then have "tr = tr0" "tr0 \<in> {[], [StoreOpened, StoreClosed]}"
      using assms(2) st tr0 by (auto simp: run_def split: sum.splits option.splits)
    then show ?thesis by (auto simp: down_def)
  next
    case True
    then obtain p where p: "r = Inr (Some p)" by blast
    define tl where "tl = (case re_cause E of ListenFailed e \<Rightarrow> failed_listener p | _ \<Rightarrow> shut_down E p)"
    have tr: "tr = ([StoreOpened, Recovered] @ services p) @ (tl @ deferred p)"
      using assms(2) st tr0 p by (auto simp: run_def tl_def split: exit_cause.splits)
    have "path (serving (has_heartbeat p)) (tl @ deferred p) halted"
      using failed_listener_path shut_down_path [OF merge] by (simp add: tl_def split: exit_cause.split)
    with services_path have "path down tr halted" unfolding tr path_append by blast
    moreover have "HTTPStarted \<in> set tr" by (simp add: tr services_def)
    ultimately show ?thesis by simp
  qed
qed

section \<open>Start-up establishes the invariants\<close>

lemma db_ok_rewritten:
  assumes "db_ok d"
  shows "db_ok (d\<lparr>db_events := map (rewritten R) (db_events d)\<rparr>)"
proof (rule db_ok_events [OF assms])
  have keep: "event_ok (rewritten R e) = event_ok e" "has_delivery (rewritten R e) = has_delivery e"
      "delivery_key (rewritten R e) = delivery_key e" for e
    by (auto simp: rewritten_def event_ok_def has_delivery_def delivery_key_def split: sum.splits)
  have "filter has_delivery (map (rewritten R) es) = map (rewritten R) (filter has_delivery es)" for es
    by (induction es) (simp_all add: keep)
  with assms show "events_ok (map (rewritten R) (db_events d))"
    by (simp add: db_ok_def events_ok_def list_all_iff keep comp_def)
  show "ev_id ` set (map (rewritten R) (db_events d)) = ev_id ` set (db_events d)" by (simp add: image_image)
qed

text \<open>The database after the scrubbing: every stored plan in its rewritten form.\<close>

definition scrubbed :: "run_env \<Rightarrow> Config \<Rightarrow> db \<Rightarrow> db" where
  "scrubbed E cfg d =
     (let reps = ActionSecretReplacements (re_lib E) (Some cfg)
      in if reps = [] then d else d\<lparr>db_events := map (rewritten (scrub_env E reps)) (db_events d)\<rparr>)"

lemma scrub_store_result:
  assumes "db_ok d"
  shows "\<exists>r d1. scrub_store E cfg d = Some (r, d1) \<and> (r = Inr () \<longrightarrow> d1 = scrubbed E cfg d)"
proof (cases "ActionSecretReplacements (re_lib E) (Some cfg) = []")
  case False
  let ?R = "scrub_env E (ActionSecretReplacements (re_lib E) (Some cfg))"
  obtain n err d1 where r: "RewriteActionSnapshots (Some ?R) d = Some ((n, err), d1)"
      "err = None \<longrightarrow> d1 = d\<lparr>db_events := map (rewritten ?R) (db_events d)\<rparr>"
    using rewrite_result [OF assms, of ?R] by blast
  then show ?thesis using False by (cases err) (simp_all add: scrub_store_def scrubbed_def Let_def)
qed (simp add: scrub_store_def scrubbed_def)

lemma scrubbed_facts:
  "db_ok d \<Longrightarrow> db_ok (scrubbed E cfg d)" "done_rows (scrubbed E cfg d) = done_rows d"
  "ev_id ` {e \<in> set (db_events (scrubbed E cfg d)). unfinished e} = ev_id ` {e \<in> set (db_events d). unfinished e}"
proof -
  have "unfinished (rewritten R e) = unfinished e" for R :: "snapshot_err rewrite_env" and e
    by (auto simp: rewritten_def unfinished_def split: sum.splits)
  then show "ev_id ` {e \<in> set (db_events (scrubbed E cfg d)). unfinished e} = ev_id ` {e \<in> set (db_events d). unfinished e}"
    by (auto simp: scrubbed_def Let_def image_iff) (metis rewritten_id)+
qed (simp_all add: scrubbed_def db_ok_rewritten done_rows_def Let_def)

lemma startup_process:
  assumes "startup E = Some (Inr (Some p), tr)" "re_open E = Some d" "db_ok d"
  shows "\<exists>raw cfg owner n d2. Load (re_lib E) raw = Inr cfg \<and> RequeueAllProcessing (scrubbed E cfg d) = (Inr n, d2) \<and>
    p = new_process E cfg owner d2"
proof -
  from assms(1,2) obtain raw cfg d1 owner n d2 where r: "Load (re_lib E) raw = Inr cfg" "scrub_store E cfg d = Some (Inr (), d1)"
      "with_fault (re_requeue_fault E) RequeueAllProcessing d1 = (Inr n, d2)" "p = new_process E cfg owner d2"
    by (auto simp: startup_def split: option.splits sum.splits prod.splits if_splits)
  have "d1 = scrubbed E cfg d" using scrub_store_result [OF assms(3), of E cfg] r(2) by auto
  moreover have "RequeueAllProcessing d1 = (Inr n, d2)" using r(3) by (auto simp: with_fault_def split: fault.splits)
  ultimately show ?thesis using r by blast
qed

lemma startup_returns:
  assumes "\<And>d. re_open E = Some d \<Longrightarrow> db_ok d"
  shows "\<exists>r tr. startup E = Some (r, tr)"
proof (cases "re_open E")
  case (Some d)
  obtain f g where "scrub_store E cfg d = Some (f cfg, g cfg)" for cfg
    using scrub_store_result [OF assms [OF Some], of E] by metis
  then show ?thesis by (auto simp: startup_def Some split: option.splits sum.splits prod.splits)
qed (auto simp: startup_def split: option.splits sum.splits)

lemma run_returns:
  assumes "\<And>d. re_open E = Some d \<Longrightarrow> db_ok d"
  shows "\<exists>res tr. run E = Some (res, tr)"
proof -
  obtain r tr where "startup E = Some (r, tr)" using startup_returns [OF assms] by blast
  then show ?thesis by (auto simp: run_def split: sum.splits option.splits exit_cause.splits)
qed

lemma limiter_of_default:
  "limit_ok f \<Longrightarrow> limiter_ok (limiter_of (limit_default b r f))"
  by (auto simp: limit_ok_def limit_default_def limiter_of_def Let_def intro!: newRateLimiter_ok)

lemma new_sstate_ok:
  assumes "config_ok L cfg"
  shows "limiter_ok (ss_limiter (new_sstate (Some cfg) qst))" "limiter_ok (ss_global (new_sstate (Some cfg) qst))"
    "limiter_ok (ss_preAuth (new_sstate (Some cfg) qst))" "limiter_ok (ss_ops (new_sstate (Some cfg) qst))"
    "budget_ok (ss_budget (new_sstate (Some cfg) qst), [])"
proof -
  show "budget_ok (ss_budget (new_sstate (Some cfg) qst), [])"
    using assms by (auto simp: config_ok_def new_sstate_def Let_def max_int64_def intro!: newInFlightBudget_ok)
qed (use assms in \<open>simp_all add: config_ok_def new_sstate_def WithDefaults_def Let_def limiter_of_default\<close>)

lemma new_process_state:
  assumes "config_ok L cfg"
  shows "ss_db (pc_state (new_process E cfg owner d)) = d" "Ready (pc_state (new_process E cfg owner d))"
    "\<not> Stopping (pc_state (new_process E cfg owner d))"
    "limiter_ok (ss_limiter (pc_state (new_process E cfg owner d)))" "limiter_ok (ss_global (pc_state (new_process E cfg owner d)))"
    "limiter_ok (ss_preAuth (pc_state (new_process E cfg owner d)))" "limiter_ok (ss_ops (pc_state (new_process E cfg owner d)))"
    "budget_ok (ss_budget (pc_state (new_process E cfg owner d)), [])"
proof -
  have "0 < q_workers (New (cf_Queue cfg) reg (Some cfg) owner)" for reg
    by (simp add: New_def Let_def)
  then show "Ready (pc_state (new_process E cfg owner d))"
    by (simp add: new_process_def Let_def Ready_def SetHeartbeat_def queue_Start_def queue_Wake_def Wake_def new_sstate_def new_qstate_def)
  show "ss_db (pc_state (new_process E cfg owner d)) = d" "\<not> Stopping (pc_state (new_process E cfg owner d))"
    by (simp_all add: new_process_def Let_def ss_db_def Stopping_def SetHeartbeat_def queue_Start_def queue_Wake_def Wake_def new_sstate_def new_qstate_def)
qed (use new_sstate_ok [OF assms] in \<open>simp_all add: new_process_def Let_def SetHeartbeat_def queue_Start_def queue_Wake_def\<close>)

section \<open>Retention\<close>

lemma retention_purge_keeps:
  "db_ok d \<Longrightarrow> db_ok (retention_purge retention t wall ft d)"
  "{e \<in> set (db_events d). unfinished e} \<subseteq> set (db_events (retention_purge retention t wall ft d))"
proof -
  have "{e \<in> set (db_events d). unfinished e} \<subseteq> set (db_events (snd (PurgeOlderThan (t - retention) wall d)))"
    by (auto simp: PurgeOlderThan_def Let_def delete_where_def purgeable_def unfinished_def)
  then show "{e \<in> set (db_events d). unfinished e} \<subseteq> set (db_events (retention_purge retention t wall ft d))"
    by (cases ft) (simp_all add: retention_purge_def with_fault_def Collect_mono_iff subset_iff)
qed (cases ft; simp add: retention_purge_def with_fault_def db_ok_PurgeOlderThan)

text \<open>The retention loop never removes an unfinished event and keeps the outbox well formed, over any number of
  ticks and with any of the purges failing.\<close>

lemma retention_ticks_keep:
  "(db_ok d \<longrightarrow> db_ok (retention_ticks retention es d)) \<and>
   {e \<in> set (db_events d). unfinished e} \<subseteq> set (db_events (retention_ticks retention es d))"
proof (induction retention es d rule: retention_ticks.induct)
  case (3 retention t wall ft es d)
  have "{e \<in> set (db_events d). unfinished e} \<subseteq> {e \<in> set (db_events (retention_purge retention t wall ft d)). unfinished e}"
    using retention_purge_keeps(2) [of d retention t wall ft] by blast
  with 3 show ?case using retention_purge_keeps(1) [of d retention t wall ft] by auto
qed auto

lemma retentionLoop_keeps:
  "db_ok d \<Longrightarrow> db_ok (retentionLoop retention t wall ft es d)"
  "{e \<in> set (db_events d). unfinished e} \<subseteq> set (db_events (retentionLoop retention t wall ft es d))"
proof -
  show "db_ok d \<Longrightarrow> db_ok (retentionLoop retention t wall ft es d)"
    using retention_ticks_keep retention_purge_keeps(1) by (simp add: retentionLoop_def)
  have "{e \<in> set (db_events d). unfinished e} \<subseteq> {e \<in> set (db_events (retention_purge retention t wall ft d)). unfinished e}"
    using retention_purge_keeps(2) [of d retention t wall ft] by blast
  also have "\<dots> \<subseteq> set (db_events (retention_ticks retention es (retention_purge retention t wall ft d)))"
    using retention_ticks_keep by blast
  finally show "{e \<in> set (db_events d). unfinished e} \<subseteq> set (db_events (retentionLoop retention t wall ft es d))"
    by (simp add: retentionLoop_def)
qed

section \<open>Properties\<close>

lemma recovered_snapshots:
  "RequeueAllProcessing d = (Inr n, d') \<Longrightarrow> map ev_actions_json (db_events d') = map ev_actions_json (db_events d)"
  by (auto simp: RequeueAllProcessing_def requeueProcessing_def Let_def update_where_def requeued_def)

text \<open>C14: Start-up always comes to an end, and a process that starts begins in a state in which the invariants of all
  components hold: its configuration is valid, the outbox is well formed, no event is processing and no action of
  an unfinished event is running, nothing unfinished or completed was lost by the recovery, every stored plan is the
  scrubbed form of what was stored, all four rate limiters and the in-flight budget are well formed, workers are
  running and the process is ready and not stopping.\<close>

theorem startup_establishes_invariants:
  assumes "re_open E = Some d" and "db_ok d"
  shows "\<exists>r tr. startup E = Some (r, tr) \<and> (\<forall>p. r = Inr (Some p) \<longrightarrow>
    (let s = pc_state p; d' = ss_db s in
     config_ok (re_lib E) (pc_cfg p) \<and> db_ok d' \<and>
     (\<forall>e \<in> set (db_events d'). ev_status e \<noteq> Processing) \<and>
     (\<forall>e \<in> set (db_events d'). unfinished e \<longrightarrow> (\<forall>a \<in> set (actions_of (ev_id e) d'). ea_status a \<noteq> ARunning)) \<and>
     ev_id ` {e \<in> set (db_events d'). unfinished e} = ev_id ` {e \<in> set (db_events d). unfinished e} \<and> done_rows d' = done_rows d \<and>
     map ev_actions_json (db_events d') = map ev_actions_json (db_events (scrubbed E (pc_cfg p) d)) \<and>
     limiter_ok (ss_limiter s) \<and> limiter_ok (ss_global s) \<and> limiter_ok (ss_preAuth s) \<and> limiter_ok (ss_ops s) \<and>
     budget_ok (ss_budget s, []) \<and> Ready s \<and> \<not> Stopping s))"
proof -
  obtain r tr where st: "startup E = Some (r, tr)" using startup_returns [of E] assms by auto
  have "let s = pc_state p; d' = ss_db s in
     config_ok (re_lib E) (pc_cfg p) \<and> db_ok d' \<and>
     (\<forall>e \<in> set (db_events d'). ev_status e \<noteq> Processing) \<and>
     (\<forall>e \<in> set (db_events d'). unfinished e \<longrightarrow> (\<forall>a \<in> set (actions_of (ev_id e) d'). ea_status a \<noteq> ARunning)) \<and>
     ev_id ` {e \<in> set (db_events d'). unfinished e} = ev_id ` {e \<in> set (db_events d). unfinished e} \<and> done_rows d' = done_rows d \<and>
     map ev_actions_json (db_events d') = map ev_actions_json (db_events (scrubbed E (pc_cfg p) d)) \<and>
     limiter_ok (ss_limiter s) \<and> limiter_ok (ss_global s) \<and> limiter_ok (ss_preAuth s) \<and> limiter_ok (ss_ops s) \<and>
     budget_ok (ss_budget s, []) \<and> Ready s \<and> \<not> Stopping s" if p: "r = Inr (Some p)" for p
  proof -
    obtain raw cfg owner n d2 where f: "Load (re_lib E) raw = Inr cfg" "RequeueAllProcessing (scrubbed E cfg d) = (Inr n, d2)"
        "p = new_process E cfg owner d2"
      using startup_process [OF st [unfolded p] assms] by blast
    have cfg: "config_ok (re_lib E) cfg" using f(1) validate_ok by (simp add: Load_def)
    have pcfg: "pc_cfg p = cfg" by (simp add: f(3) new_process_def Let_def)
    note new = new_process_state [OF cfg, of E owner d2, folded f(3)]
    have ok: "db_ok (scrubbed E cfg d)" using assms(2) by (rule scrubbed_facts(1))
    have ok2: "db_ok d2" using db_ok_requeueProcessing [OF ok] f(2) unfolding RequeueAllProcessing_def by (metis snd_conv)
    note rec = recovery_result [OF ok f(2), unfolded scrubbed_facts(2, 3)]
    note json = recovered_snapshots [OF f(2)]
    show ?thesis unfolding Let_def new(1) pcfg using cfg ok2 rec json new(2-) by (intro conjI) simp_all
  qed
  with st show ?thesis by blast
qed

definition demo_run :: run_env where
  "demo_run = \<lparr>re_lib = demo_lib, re_decoded = Some demo_decoded, re_checkConfig = False, re_open = Some demo_db, re_order = (\<lambda>xs. xs),
     re_queryErr = (\<lambda>_ _. False), re_writeErr = (\<lambda>_ _. False), re_random = Some ''abcdefgh'', re_requeue_fault = Fine, re_now = 0,
     re_revision = [], re_cause = Signaled, re_drained = False, re_shutdown_ok = False, re_merge = (@)\<rparr>"

lemma demo_startup: "\<exists>p. startup demo_run = Some (Inr (Some p), [StoreOpened, Recovered])"
proof -
  have "ActionSecretReplacements demo_lib (Some demo_config) = []" by code_simp
  then show ?thesis
    by (simp add: startup_def demo_run_def demo_config_loads scrub_store_def newOwnerID_def with_fault_def RequeueAllProcessing_def
        requeueProcessing_def Let_def)
qed

theorem startup_establishes_invariants_witness:
  "\<exists>p. startup demo_run = Some (Inr (Some p), [StoreOpened, Recovered]) \<and> db_ok (ss_db (pc_state p)) \<and>
     Processing \<notin> ev_status ` set (db_events (ss_db (pc_state p))) \<and> Ready (pc_state p)"
proof -
  obtain p where p: "startup demo_run = Some (Inr (Some p), [StoreOpened, Recovered])" using demo_startup by blast
  have "re_open demo_run = Some demo_db" by (simp add: demo_run_def)
  from startup_establishes_invariants [OF this demo_db_ok] p show ?thesis by (auto simp: Let_def)
qed


lemma append_shuffles: "xs @ ys \<in> shuffles xs ys"
proof (induction xs)
  case (Cons x xs)
  then show ?case by (cases ys) auto
qed simp


end
