(* ===== verification/Spec2Isabelle.thy ===== *)
theory Spec2Isabelle
  imports Prelude Float64 Store Store_Invariant Outbox Maintenance Snapshots Template Config Scrub Router Policy
    Handler_Errors Go_Net Go_Url Url_Policy Http_Action Exec_Action Utf8 Heartbeat_Logs Heartbeat_Audit Logger
    Queue Queue_Logic Worker Passes Attempts Delivery Heartbeat Protect Auth Server Endpoints Intake
    Go_Time Go_Duration Go_Format Go_Json Go_Json_Decode Go_Url_Parse Config_Data Plan_Json Contexts Stored_Vars
    Migration Open_Store Lifecycle
begin

text \<open>
  \<^bold>\<open>General Webhook\<close> is a gateway in Go. It receives webhooks over HTTP, stores each accepted one in an
  SQLite outbox before it answers, and delivers it by the actions (HTTP requests, commands) of the
  source's configuration, with retries, leases and a dead-letter state. This library models the
  gateway's packages as executable definitions, states what makes each of them correct, and proves it.

  \<^bold>\<open>The parts and how they interact.\<close> A request comes in through \<^verbatim>\<open>internal/server\<close>, which asks its
  rate limiters and its in-flight budget, has \<^verbatim>\<open>internal/auth\<close> verify the credentials, takes a
  snapshot of the source's plan from \<^verbatim>\<open>internal/config\<close> and saves the event through
  \<^verbatim>\<open>internal/store\<close>. The workers of \<^verbatim>\<open>internal/queue\<close> claim due events under a lease, extract and
  filter their variables (\<^verbatim>\<open>internal/parser\<close>, \<^verbatim>\<open>internal/router\<close>, \<^verbatim>\<open>internal/policy\<close>), run the
  actions of \<^verbatim>\<open>internal/handler\<close> one by one and record every outcome in the store. A monitor
  (\<^verbatim>\<open>internal/heartbeat\<close>) reports the gateway's health outwards, and \<^verbatim>\<open>internal/logger\<close> redacts what is
  logged.

  \<^bold>\<open>Conventions.\<close> A Go string or byte slice is a \<open>string\<close> of bytes; a struct is a record with the
  source's field names, an error a constructor of a datatype in an \<open>error + value\<close> result; a map that
  is ranged over is an association list, and its iteration order a parameter. An \<open>int64\<close> is an \<open>int\<close>
  with \<open>wrap64\<close> where it can overflow; a \<open>float64\<close> is a rational, rounded by \<open>f64\<close> after every
  operation; a time is an integer of nanoseconds, a duration likewise. The standard library the
  sources rely on is modelled: strings, runes, UTF-8, addresses, URLs, JSON, times and durations. What is
  left is an argument: the record \<open>golib\<close> of \<open>Config_Data\<close> holds the process environment, the regular
  expression engine, SHA-256, HMAC and gjson; clocks, random bytes, faults, cancellations, handler
  results, DNS, peers, processes and the steps of other goroutines are fields of an environment
  (\<open>qenv\<close>, \<open>netenv\<close>, \<open>exec_env\<close>, \<open>tick_env\<close>, \<open>req_env\<close>, \<open>rewrite_env\<close>). A theorem holds for all of them
  unless it names a hypothesis.

  \<^bold>\<open>The theories.\<close>
  \<^item> \<open>Prelude\<close>, \<open>Float64\<close>, \<open>Utf8\<close>, \<open>Go_Net\<close>, \<open>Go_Time\<close>, \<open>Go_Duration\<close>, \<open>Go_Format\<close>: the Go library functions the
    sources call on strings, floating-point numbers, runes, addresses, times and durations. \<open>Go_Url\<close> and
    \<open>Go_Url_Parse\<close>: printing and parsing of URLs; what \<open>url_String\<close> prints of a canonical URL, \<open>url_Parse\<close> reads
    back. \<open>Go_Json\<close>: JSON values, their printer and the parser of \<^verbatim>\<open>encoding/json\<close>; printed values are read
    back with invalid UTF-8 replaced. \<open>Go_Json_Decode\<close>: decoding into strings, numbers, lists, maps and
    structs. \<open>Prelude\<close> has the interface
    \<open>kept_by_runs\<close> (an invariant that every admissible step keeps is kept by every run), which the
    store, the worker and the server interpret; \<open>Float64\<close> the interface \<open>rounding\<close>, which the proof of
    the limiter's rate bound uses and the IEEE rounding \<open>f64\<close> discharges.
  \<^item> \<open>Store\<close> (\<^verbatim>\<open>store/store.go\<close>): the tables as lists of rows and every method as a function of the
    database. \<open>Store_Invariant\<close>: the invariant \<open>db_ok\<close> and that every method keeps it. \<open>Outbox\<close>: leases
    are exclusive, claims are fair, completed actions stay completed, duplicates are refused,
    recovery strands nothing, status refresh implements the aggregate. \<open>Maintenance\<close>: error paths,
    replay, retention purge, liveness.
  \<^item> \<open>Snapshots\<close> (\<^verbatim>\<open>store/snapshots.go\<close>): the batched rewrite of stored plans, a loop that need not end
    by its shape, so a \<open>partial_function\<close> whose result is proved to exist. \<open>Scrub\<close>
    (\<^verbatim>\<open>config/snapshot.go\<close>): the rewrite it applies.
  \<^item> \<open>Template\<close>, \<open>Config_Data\<close>, \<open>Plan_Json\<close>, \<open>Config\<close> (\<^verbatim>\<open>config\<close>, \<^verbatim>\<open>handler/handler.go\<close>): placeholders, the
    records of the configuration, the JSON of a plan with its struct tags, defaults, validation,
    snapshots. What \<open>Load\<close> returns is valid, and snapshots restore plans without credentials.
  \<^item> \<open>Router\<close> (\<^verbatim>\<open>router/match.go\<close>, \<^verbatim>\<open>parser/jsonpath.go\<close>): matching through the bounded compile cache
    equals matching without it. \<open>Policy\<close> (\<^verbatim>\<open>policy/policy.go\<close>): allowlist, redaction, bounded counters.
  \<^item> \<open>Handler_Errors\<close> (\<^verbatim>\<open>handler/errors.go\<close>, the output writer of \<^verbatim>\<open>exec.go\<close>), \<open>Url_Policy\<close>
    (\<^verbatim>\<open>handler/urlpolicy.go\<close>), \<open>Http_Action\<close> (\<^verbatim>\<open>handler/http.go\<close>), \<open>Exec_Action\<close> (\<^verbatim>\<open>handler/exec.go\<close>, the
    registry): the URL check equals a declarative policy, every connection of an action is permitted,
    redirects stay on the authority, delivery headers are the queue's, commands run without a shell
    under a timeout.
  \<^item> \<open>Queue\<close> (\<^verbatim>\<open>queue/queue.go\<close>): the worker as programs in the state monad over the store.
    \<open>Queue_Logic\<close>: Hoare triples and the locales \<open>store_client\<close> and \<open>worker_safe\<close>, with which \<open>Worker\<close>,
    \<open>Passes\<close>, \<open>Attempts\<close>, \<open>Delivery\<close> and \<open>Stored_Vars\<close> prove safety under interference, release of every
    claimed event, the retry budget, the successful path and that retries and replays see the stored
    variables.
  \<^item> \<open>Protect\<close> (\<^verbatim>\<open>server/protect.go\<close>, \<^verbatim>\<open>budget.go\<close>): rate limiters, in-flight budget, client address.
    \<open>Auth\<close> (\<^verbatim>\<open>auth\<close>): credentials. \<open>Server\<close>, \<open>Endpoints\<close> (\<^verbatim>\<open>server/server.go\<close>, \<^verbatim>\<open>observability.go\<close>): every
    handler, the metrics text and the router. \<open>Intake\<close>: 202 exactly for durable events, other answers
    change nothing, management routes need the token, and the server keeps the store's invariant.
  \<^item> \<open>Heartbeat_Logs\<close>, \<open>Heartbeat_Audit\<close> (\<^verbatim>\<open>store/heartbeat_logs.go\<close>, \<^verbatim>\<open>sqlite.go\<close>), \<open>Heartbeat\<close>
    (\<^verbatim>\<open>heartbeat/heartbeat.go\<close>): samples tell the truth, and neither logs nor tables receive URLs or raw
    transport errors. \<open>Logger\<close> (\<^verbatim>\<open>logger/redact.go\<close>, \<^verbatim>\<open>logger.go\<close>): the redaction expressions as matchers.
    \<open>Contexts\<close> (\<^verbatim>\<open>logger/context.go\<close>, \<^verbatim>\<open>handler/handler.go\<close>): what a context carries to a handler.
  \<^item> \<open>Migration\<close>, \<open>Open_Store\<close> (\<^verbatim>\<open>Open\<close>, \<^verbatim>\<open>sqliteDSN\<close>, \<^verbatim>\<open>migrate\<close> and their helpers of
    \<^verbatim>\<open>store/store.go\<close>): the file as SQLite has it, dynamically typed, so that files of older releases are
    inputs; the migration equals a row-by-row reference, is idempotent and leaves private files. The
    typed tables of \<open>Store\<close> are what a file written by this release holds.
  \<^item> \<open>Lifecycle\<close> (\<^verbatim>\<open>cmd/server/main.go\<close>): start-up establishes the invariants the other theories assume of
    their initial states, and every run follows a step relation that says what may run when.
  \<^item> this theory: the worker composed with the handlers of the registry, as the process runs them.

  \<^bold>\<open>Bounds and fuel.\<close> The drain loop and the wake-ups of a worker take a number of iterations; the
  theorems about them hold for every number. A pass over one event has no fuel: it is structural
  over the plan. The snapshot rewrite is proved to return on every database. Redirects are followed by a
  recursion with the measure \<open>4 - length via\<close>, the limit of \<^verbatim>\<open>CheckRedirect\<close>. The heartbeat loop and
  the lease heartbeat take the list of their ticks. The JSON parser takes twice the length of its input
  plus one as fuel, which lemma \<open>parse_fuel\<close> proves to be enough, and nests at most 10000 deep, as the
  library's does; the duration parser takes the length of its input.

  \<^bold>\<open>Not modelled.\<close> The YAML decoder (the program starts from the decoded records; durations are
  decoded here), the regular expression engine (the fixed expressions of
  the sources are matchers of their own), gjson, cryptographic functions, DNS, TCP and TLS, the kernel's
  process management and SQLite's query engine are parameters or the meaning given to the statements.
  The records written by slog are not modelled, nor are command-line flags beyond \<^verbatim>\<open>-check-config\<close>. Of
  \<^verbatim>\<open>encoding/json\<close>, a field given twice takes the later value, also where the library merges arrays; nil and
  empty slices are one value. The zone of \<^verbatim>\<open>time.Parse\<close> is UTC unless the text gives an offset. The workers and handlers that still run while the main goroutine shuts down appear in
  \<open>Lifecycle\<close> as the outcomes it waits for. A transport that tests inject into the HTTP handler is outside
  the model.
\<close>

section \<open>Workers with the real handlers\<close>

definition call_metadata :: "handler_call \<Rightarrow> ExecutionMetadata" where
  "call_metadata c = \<lparr>md_EventID = hc_event c, md_ActionIndex = int (hc_index c), md_Attempt = hc_attempt c\<rparr>"

text \<open>The context of a handler call: the worker binds the event's trace to its own context and adds the
  identity of the execution.\<close>

definition action_context :: "Logger \<Rightarrow> Context \<Rightarrow> handler_call \<Rightarrow> Context" where
  "action_context std parent c = WithExecutionMetadata (WithTrace std parent (hc_event c)) (call_metadata c)"

text \<open>What the call of a handler does: its result, the requests it sends and the process it starts.\<close>

definition performed ::
  "golib \<Rightarrow> netenv \<Rightarrow> exec_env \<Rightarrow> gtime \<Rightarrow> handler_call \<Rightarrow> (Result \<times> goerr option) \<times> sent \<times> process_spec option" where
  "performed L N X t c =
     (case registry_Get (NewRegistry handlers) (ac_Type (hc_action c)) of
        None \<Rightarrow> ((\<lparr>rs_Target = [], rs_Detail = []\<rparr>, None), [], None)
      | Some h \<Rightarrow> Handle h L N X t (ExecutionMetadataFrom (action_context (fst (logger_New [])) [] c))
                    (hc_action c) (hc_vars c))"

lemma action_context_metadata [simp]: "ExecutionMetadataFrom (action_context l ctx c) = Some (call_metadata c)"
  by (simp add: action_context_def)

definition with_handlers :: "(nat \<Rightarrow> netenv) \<Rightarrow> (nat \<Rightarrow> exec_env) \<Rightarrow> qenv \<Rightarrow> qenv" where
  "with_handlers N X E = E\<lparr>en_handle := (\<lambda>t c.
     case performed (en_lib E) (N t) (X t) (en_now E t) c of ((res, err), _) \<Rightarrow> ((rs_Target res, rs_Detail res), err))\<rparr>"

definition idempotency_key :: "string \<times> nat \<Rightarrow> string" where
  "idempotency_key k = fst k @ '':'' @ Itoa (int (snd k))"

lemma idempotency_key_inj: "idempotency_key a = idempotency_key b \<Longrightarrow> a = b"
proof -
  assume eq: "idempotency_key a = idempotency_key b"
  have no: "CHR '':'' \<notin> set (Itoa (int n))" for n
  proof -
    have "list_all is_digit (Itoa (int n))" using decimal_digits [of "int n"] by (simp add: Itoa_def)
    moreover have "\<not> is_digit CHR '':''" by code_simp
    ultimately show ?thesis by (auto simp: list_all_iff)
  qed
  have split: "takeWhile (\<lambda>c. c \<noteq> CHR '':'') (rev (idempotency_key k)) = rev (Itoa (int (snd k)))" for k
  proof -
    have "\<forall>x \<in> set (Itoa (int (snd k))). x \<noteq> CHR '':''" using no [of "snd k"] by (intro ballI notI) (simp only:)
    then show ?thesis by (simp add: idempotency_key_def takeWhile_tail)
  qed
  have "rev (Itoa (int (snd a))) = rev (Itoa (int (snd b)))" using split [of a] split [of b] eq by simp
  then have i: "Itoa (int (snd a)) = Itoa (int (snd b))" by simp
  then have "snd a = snd b" using Itoa_inj [of "int (snd a)" "int (snd b)"] by simp
  moreover have "fst a = fst b" using eq i by (simp add: idempotency_key_def)
  ultimately show "a = b" by (simp add: prod_eq_iff)
qed

lemma performed_identity:
  assumes "(req, ip) \<in> set (fst (snd (performed L N X t c)))"
  shows "header_Get (cr_Header req) ''Idempotency-Key'' = idempotency_key (hc_event c, hc_index c)"
proof -
  obtain h where h: "registry_Get (NewRegistry handlers) (ac_Type (hc_action c)) = Some h"
    using assms by (auto simp: performed_def split: option.splits)
  have "h = HTTP" using assms h by (cases h) (auto simp: performed_def Handle_def split: prod.splits)
  with assms h have "(req, ip) \<in> set (snd (http_Handle L N t (Some (call_metadata c)) (hc_action c) (hc_vars c)))"
    by (auto simp: performed_def Handle_def split: prod.splits)
  then show ?thesis
    using delivery_identity_authoritative [of L N t "call_metadata c" "hc_action c" "hc_vars c" _ _ req ip, OF prod.collapse [symmetric]]
    by (simp add: call_metadata_def idempotency_key_def)
qed

text \<open>C5: No completed action is delivered again under its idempotency key. In the composition of the worker with the
  registered handlers, none of the requests that a worker's handler calls send, over any number of wake-ups, events,
  faults and redirects, carries the idempotency key of an action that was recorded done when the worker started; so a
  receiver that honours the keys never sees a repeated delivery of a completed action.\<close>

theorem completed_key_never_resent:
  assumes "db_ok (qs_db s)" and "quiet (\<lambda>c. call_ok c \<and> not_purge c) E"
    and "run_state (worker n (with_handlers N X E) q ws) s = (u, s')"
  shows "\<exists>new. qs_calls s' = qs_calls s @ new \<and>
    (\<forall>c \<in> set new. \<forall>t. \<forall>(req, ip) \<in> set (fst (snd (performed (en_lib E) (N t) (X t) (en_now E t) c))).
       header_Get (cr_Header req) ''Idempotency-Key'' \<notin> idempotency_key ` action_key ` done_rows (qs_db s))"
proof -
  have "quiet (\<lambda>c. call_ok c \<and> not_purge c) (with_handlers N X E)" using assms(2) by (simp add: quiet_def with_handlers_def)
  from worker_skips_done [OF assms(1) this assms(3)] obtain new where new: "qs_calls s' = qs_calls s @ new"
      "\<And>c. c \<in> set new \<Longrightarrow> (hc_event c, hc_index c) \<notin> action_key ` done_rows (qs_db s)"
    by (auto simp: list_all_iff)
  have "header_Get (cr_Header req) ''Idempotency-Key'' \<notin> idempotency_key ` action_key ` done_rows (qs_db s)"
    if "c \<in> set new" "(req, ip) \<in> set (fst (snd (performed (en_lib E) (N t) (X t) (en_now E t) c)))" for c t req ip
    using new(2) [OF that(1)] performed_identity [OF that(2)] idempotency_key_inj by (metis imageE)
  with new(1) show ?thesis by blast
qed

definition demo_gateway :: qenv where
  "demo_gateway = demo_qenv\<lparr>en_lib := demo_lib\<rparr>"

definition demo_plan :: Config where
  "demo_plan = demo_config\<lparr>cf_Sources := [demo_source\<lparr>src_Rules := [], src_Actions := [demo_http_action, demo_http_action]\<rparr>]\<rparr>"

text \<open>An event whose first action is done, recovered after a crash.\<close>

definition demo_resumed :: db where
  "demo_resumed = fold exec_call
     [CSave ''e1'' ''github'' ''10.0.0.1'' ''{}'' (10 * Second) ''d1'' ''h1'' ''c1'' [] None, CClaim (5 * Minute) (11 * Second) ''w0'',
      CPrepare ''e1'' ''{}'' 2 False (11 * Second), CStart ''e1'' 0 (11 * Second), CComplete ''e1'' 0 (12 * Second), CRequeueAll] empty_db"

theorem completed_key_never_resent_witness:
  "map (\<lambda>c. map (\<lambda>(req, ip). header_Get (cr_Header req) ''Idempotency-Key'') (fst (snd (performed demo_lib demo_net demo_exec (20 * Second) c))))
     (qs_calls (snd (run_state (worker 3 (with_handlers (\<lambda>_. demo_net) (\<lambda>_. demo_exec) demo_gateway) (demo_queue\<lparr>q_cfg := Some demo_plan\<rparr>)
        [TickerFired]) (Worker.demo_state demo_resumed)))) = [[''e1:1'', ''e1:1'']] \<and>
   ''e1:0'' \<in> idempotency_key ` action_key ` done_rows demo_resumed \<and> ''e1:1'' \<notin> idempotency_key ` action_key ` done_rows demo_resumed"
proof -
  let ?run = "run_state (worker 3 (with_handlers (\<lambda>_. demo_net) (\<lambda>_. demo_exec) demo_gateway) (demo_queue\<lparr>q_cfg := Some demo_plan\<rparr>)
        [TickerFired]) (Worker.demo_state demo_resumed)"
  have calls: "map (\<lambda>c. map (\<lambda>(req, ip). header_Get (cr_Header req) ''Idempotency-Key'') (fst (snd (performed demo_lib demo_net demo_exec (20 * Second) c))))
     (qs_calls (snd ?run)) = [[''e1:1'', ''e1:1'']]" by code_simp
  have key: "''e1:0'' \<in> idempotency_key ` action_key ` done_rows demo_resumed" by code_simp
  have ok: "db_ok (qs_db (Worker.demo_state demo_resumed))" by (simp add: Worker.demo_state_def) code_simp
  have quiet: "quiet adm demo_gateway" for adm by (simp add: quiet_def demo_gateway_def demo_qenv_def)
  have t0: "en_now demo_gateway 0 = 20 * Second" "en_lib demo_gateway = demo_lib" by (simp_all add: demo_gateway_def demo_qenv_def)
  obtain c where c: "c \<in> set (qs_calls (snd ?run))" and reqs: "map (\<lambda>(req, ip). header_Get (cr_Header req) ''Idempotency-Key'')
      (fst (snd (performed demo_lib demo_net demo_exec (20 * Second) c))) = [''e1:1'', ''e1:1'']"
    using calls by (auto simp: map_eq_Cons_conv)
  obtain req ip where r: "(req, ip) \<in> set (fst (snd (performed demo_lib demo_net demo_exec (20 * Second) c)))"
      "header_Get (cr_Header req) ''Idempotency-Key'' = ''e1:1''"
  proof -
    have "''e1:1'' \<in> set (map (\<lambda>(req, ip). header_Get (cr_Header req) ''Idempotency-Key'')
        (fst (snd (performed demo_lib demo_net demo_exec (20 * Second) c))))" unfolding reqs by simp
    then obtain x where x: "x \<in> set (fst (snd (performed demo_lib demo_net demo_exec (20 * Second) c)))"
        "''e1:1'' = (case x of (req, ip) \<Rightarrow> header_Get (cr_Header req) ''Idempotency-Key'')" unfolding list.set_map by (rule imageE)
    obtain req ip where "x = (req, ip)" by (rule prod.exhaust)
    note x [unfolded this prod.case]
    then show ?thesis by (intro that [of req ip]) (simp_all only:)
  qed
  have never: "\<exists>new. qs_calls (snd ?run) = qs_calls (Worker.demo_state demo_resumed) @ new \<and>
      (\<forall>c \<in> set new. \<forall>t. \<forall>(req, ip) \<in> set (fst (snd (performed (en_lib demo_gateway) demo_net demo_exec (en_now demo_gateway t) c))).
         header_Get (cr_Header req) ''Idempotency-Key'' \<notin> idempotency_key ` action_key ` done_rows (qs_db (Worker.demo_state demo_resumed)))"
    by (rule completed_key_never_resent [OF ok quiet prod.collapse [symmetric]])
  have "''e1:1'' \<notin> idempotency_key ` action_key ` done_rows demo_resumed"
  proof -
    have st: "qs_calls (Worker.demo_state demo_resumed) = []" "qs_db (Worker.demo_state demo_resumed) = demo_resumed" by (simp_all add: Worker.demo_state_def)
    from never obtain new where new: "qs_calls (snd ?run) = new" and no: "\<forall>c \<in> set new. \<forall>t. \<forall>(req, ip) \<in> set (fst (snd (performed
        (en_lib demo_gateway) demo_net demo_exec (en_now demo_gateway t) c))).
        header_Get (cr_Header req) ''Idempotency-Key'' \<notin> idempotency_key ` action_key ` done_rows demo_resumed"
      unfolding st by (elim exE conjE) (rule that; simp only: append_Nil)
    have "\<forall>(req, ip) \<in> set (fst (snd (performed demo_lib demo_net demo_exec (20 * Second) c))).
        header_Get (cr_Header req) ''Idempotency-Key'' \<notin> idempotency_key ` action_key ` done_rows demo_resumed"
      using spec [OF bspec [OF no c [unfolded new]], of 0] unfolding t0 .
    from bspec [OF this r(1)] show ?thesis unfolding prod.case r(2) .
  qed
  with calls key show ?thesis by blast
qed

end
